(* ===== verification/Sched_Prelude.thy ===== *)
theory Sched_Prelude
  imports Complex_Main "HOL-Library.AList"
begin

text \<open>
  The shared vocabulary of the development: JavaScript values and the operators the sources
  apply to them (truthiness, \<open>||\<close>, \<open>??\<close>, optional property reads, string methods), errors as
  values, and the effect type of the asynchronous methods, which either return or throw and
  may change a state. Every component theory builds on these definitions; the collections
  \<open>js_eval\<close> and \<open>eff_eval\<close> hold the facts that evaluate them.
\<close>

named_theorems js_eval \<open>evaluation of JavaScript operators\<close>
named_theorems eff_eval \<open>evaluation of effectful methods\<close>

section \<open>JavaScript values\<close>

text \<open>
  A number is a finite rational or one of the three special values; rounding of doubles is
  not modelled. An object is its own properties in insertion order. A string is a list of
  characters; each \<open>char\<close> stands for one UTF-16 code unit below 256.
\<close>

datatype jsnum = Fin rat | PosInf | NegInf | NaN

datatype js =
    JUndefined
  | JNull
  | JBool bool
  | JNum jsnum
  | JStr string
  | JArr "js list"
  | JObj "(string \<times> js) list"

abbreviation JInt :: "int \<Rightarrow> js" where
  "JInt n \<equiv> JNum (Fin (of_int n))"

fun truthy :: "js \<Rightarrow> bool" where
  "truthy JUndefined = False"
| "truthy JNull = False"
| "truthy (JBool b) = b"
| "truthy (JNum (Fin q)) = (q \<noteq> 0)"
| "truthy (JNum PosInf) = True"
| "truthy (JNum NegInf) = True"
| "truthy (JNum NaN) = False"
| "truthy (JStr s) = (s \<noteq> [])"
| "truthy (JArr _) = True"
| "truthy (JObj _) = True"

fun nullish :: "js \<Rightarrow> bool" where
  "nullish JUndefined = True"
| "nullish JNull = True"
| "nullish _ = False"

text \<open>\<open>a || b\<close> and \<open>a ?? b\<close>.\<close>

definition js_or :: "js \<Rightarrow> js \<Rightarrow> js" where
  "js_or a b = (if truthy a then a else b)"

definition coalesce :: "js \<Rightarrow> js \<Rightarrow> js" where
  "coalesce a b = (if nullish a then b else a)"

text \<open>\<open>v?.name\<close>: the own property of an object, \<open>undefined\<close> for anything else.\<close>

fun js_prop :: "js \<Rightarrow> string \<Rightarrow> js" where
  "js_prop (JObj kvs) k = (case map_of kvs k of None \<Rightarrow> JUndefined | Some v \<Rightarrow> v)"
| "js_prop _ k = JUndefined"

text \<open>\<open>{ ...obj, key: value }\<close>.\<close>

fun js_set :: "js \<Rightarrow> string \<Rightarrow> js \<Rightarrow> js" where
  "js_set (JObj kvs) k v = JObj (AList.update k v kvs)"
| "js_set _ k v = JObj [(k, v)]"

definition is_string :: "js \<Rightarrow> bool" where
  "is_string v = (case v of JStr _ \<Rightarrow> True | _ \<Rightarrow> False)"

text \<open>The \<open>||\<close> and the truthiness test on values the sources know to be strings or nullish.\<close>

definition str_or :: "string \<Rightarrow> string \<Rightarrow> string" where
  "str_or a b = (if a = [] then b else a)"

fun truthy_str :: "string option \<Rightarrow> bool" where
  "truthy_str None = False"
| "truthy_str (Some s) = (s \<noteq> [])"

text \<open>
  What a value is after it went through \<open>JSON.stringify\<close> and was read back: members that are
  \<open>undefined\<close> disappear, \<open>undefined\<close> array items and non-finite numbers become \<open>null\<close>.
\<close>

primrec jsonb :: "js \<Rightarrow> js" where
  "jsonb JUndefined = JUndefined"
| "jsonb JNull = JNull"
| "jsonb (JBool b) = JBool b"
| "jsonb (JNum n) = (case n of Fin q \<Rightarrow> JNum (Fin q) | _ \<Rightarrow> JNull)"
| "jsonb (JStr s) = JStr s"
| "jsonb (JArr xs) = JArr (map (\<lambda>v. if v = JUndefined then JNull else v) (map jsonb xs))"
| "jsonb (JObj kvs) = JObj (filter (\<lambda>kv. snd kv \<noteq> JUndefined) (map (map_prod id jsonb) kvs))"

section \<open>String methods\<close>

fun startsWith :: "string \<Rightarrow> string \<Rightarrow> bool" where
  "startsWith s [] = True"
| "startsWith [] (p # ps) = False"
| "startsWith (c # s) (p # ps) = (c = p \<and> startsWith s ps)"

definition endsWith :: "string \<Rightarrow> string \<Rightarrow> bool" where
  "endsWith s p = startsWith (rev s) (rev p)"

text \<open>\<open>s.split(sep)\<close> for a one-character separator.\<close>

fun split_on :: "char \<Rightarrow> string \<Rightarrow> string list" where
  "split_on d [] = [[]]"
| "split_on d (c # s) =
     (if c = d then [] # split_on d s
      else (case split_on d s of [] \<Rightarrow> [[c]] | w # ws \<Rightarrow> (c # w) # ws))"

text \<open>\<open>xs.join(sep)\<close>.\<close>

fun join_with :: "string \<Rightarrow> string list \<Rightarrow> string" where
  "join_with d [] = []"
| "join_with d [w] = w"
| "join_with d (w # ws) = w @ d @ join_with d ws"

definition is_digit :: "char \<Rightarrow> bool" where
  "is_digit c = (c \<in> set ''0123456789'')"

definition is_alpha :: "char \<Rightarrow> bool" where
  "is_alpha c = (c \<in> set ''ABCDEFGHIJKLMNOPQRSTUVWXYZabcdefghijklmnopqrstuvwxyz'')"

text \<open>
  \<open>String(v)\<close>. A finite number prints as its decimal expansion, at most seventeen digits after
  the point; exponent notation is not modelled.
\<close>

fun nat_text :: "nat \<Rightarrow> string" where
  "nat_text n = (if n < 10 then [''0123456789'' ! n] else nat_text (n div 10) @ [''0123456789'' ! (n mod 10)])"

declare nat_text.simps [simp del]

fun frac_text :: "nat \<Rightarrow> rat \<Rightarrow> string" where
  "frac_text 0 q = []"
| "frac_text (Suc n) q =
     (if q = 0 then [] else (''0123456789'' ! nat \<lfloor>10 * q\<rfloor>) # frac_text n (10 * q - of_int \<lfloor>10 * q\<rfloor>))"

definition num_text :: "rat \<Rightarrow> string" where
  "num_text q =
     (let a = \<bar>q\<bar>; f = frac_text 17 (a - of_int \<lfloor>a\<rfloor>) in
      (if q < 0 then ''-'' else []) @ nat_text (nat \<lfloor>a\<rfloor>) @ (if f = [] then [] else ''.'' @ f))"

primrec js_String :: "js \<Rightarrow> string" where
  "js_String JUndefined = ''undefined''"
| "js_String JNull = ''null''"
| "js_String (JBool b) = (if b then ''true'' else ''false'')"
| "js_String (JNum n) = (case n of Fin q \<Rightarrow> num_text q | PosInf \<Rightarrow> ''Infinity'' | NegInf \<Rightarrow> ''-Infinity'' | NaN \<Rightarrow> ''NaN'')"
| "js_String (JStr s) = s"
| "js_String (JArr xs) =
     join_with '','' (map (\<lambda>(v, t). if nullish v then [] else t) (zip xs (map js_String xs)))"
| "js_String (JObj kvs) = ''[object Object]''"

text \<open>\<open>Object.entries(v)\<close>: own enumerable properties; keys that look like array indices are not reordered.\<close>

fun object_entries :: "js \<Rightarrow> (string \<times> js) list" where
  "object_entries (JObj kvs) = kvs"
| "object_entries (JArr xs) = zip (map nat_text [0..<length xs]) xs"
| "object_entries (JStr s) = zip (map nat_text [0..<length s]) (map (\<lambda>c. JStr [c]) s)"
| "object_entries _ = []"

text \<open>
  \<open>Number(v)\<close>: a string is trimmed and read as a decimal literal, a hexadecimal, octal or binary
  integer, or \<open>Infinity\<close>; the empty string is zero. An array is read through its text.
\<close>

definition digit_value :: "char \<Rightarrow> nat option" where
  "digit_value c =
     (let i = length (takeWhile (\<lambda>d. d \<noteq> c) ''0123456789abcdef'');
          j = length (takeWhile (\<lambda>d. d \<noteq> c) ''0123456789ABCDEF'') in
      if i < 16 then Some i else if j < 16 then Some j else None)"

fun radix_value :: "nat \<Rightarrow> nat \<Rightarrow> string \<Rightarrow> nat option" where
  "radix_value b acc [] = Some acc"
| "radix_value b acc (c # s) =
     (case digit_value c of None \<Rightarrow> None | Some d \<Rightarrow> if d < b then radix_value b (b * acc + d) s else None)"

definition signed_text :: "string \<Rightarrow> bool \<times> string" where
  "signed_text s = (if startsWith s ''-'' then (True, tl s) else if startsWith s ''+'' then (False, tl s) else (False, s))"

definition exponent_value :: "string \<Rightarrow> int option" where
  "exponent_value s =
     (if s = [] then Some 0
      else let (neg, ds) = signed_text (tl s) in
        if ds = [] then None else map_option (\<lambda>n. if neg then - int n else int n) (radix_value 10 0 ds))"

definition decimal_value :: "string \<Rightarrow> rat option" where
  "decimal_value s =
     (let isE = (\<lambda>c. c = CHR ''e'' \<or> c = CHR ''E'');
          mant = takeWhile (\<lambda>c. \<not> isE c) s; expo = dropWhile (\<lambda>c. \<not> isE c) s;
          whole = takeWhile (\<lambda>c. c \<noteq> CHR ''.'') mant; frac = drop (Suc (length whole)) mant in
      if whole = [] \<and> frac = [] then None
      else case (radix_value 10 0 (whole @ frac), exponent_value expo) of
        (Some n, Some e) \<Rightarrow>
          let k = e - int (length frac) in
          Some (if k \<ge> 0 then of_nat n * 10 ^ nat k else of_nat n / 10 ^ nat (- k))
      | _ \<Rightarrow> None)"

definition js_space :: "char \<Rightarrow> bool" where
  "js_space c = (c \<in> {CHR 0x09, CHR 0x0A, CHR 0x0B, CHR 0x0C, CHR 0x0D, CHR 0x20, CHR 0xA0})"

definition js_trim :: "string \<Rightarrow> string" where
  "js_trim s = rev (dropWhile js_space (rev (dropWhile js_space s)))"

definition number_of_text :: "string \<Rightarrow> jsnum" where
  "number_of_text s0 =
     (let s = js_trim s0;
          radix = (\<lambda>b. if length s = 2 then NaN
                       else case radix_value b 0 (drop 2 s) of None \<Rightarrow> NaN | Some n \<Rightarrow> Fin (of_nat n)) in
      if s = [] then Fin 0
      else if startsWith s ''0x'' \<or> startsWith s ''0X'' then radix 16
      else if startsWith s ''0o'' \<or> startsWith s ''0O'' then radix 8
      else if startsWith s ''0b'' \<or> startsWith s ''0B'' then radix 2
      else let (neg, t) = signed_text s in
        if t = ''Infinity'' then (if neg then NegInf else PosInf)
        else case decimal_value t of None \<Rightarrow> NaN | Some q \<Rightarrow> Fin (if neg then - q else q))"

fun js_Number :: "js \<Rightarrow> jsnum" where
  "js_Number JUndefined = NaN"
| "js_Number JNull = Fin 0"
| "js_Number (JBool b) = (if b then Fin 1 else Fin 0)"
| "js_Number (JNum n) = n"
| "js_Number (JStr s) = number_of_text s"
| "js_Number (JArr xs) = number_of_text (js_String (JArr xs))"
| "js_Number (JObj _) = NaN"

text \<open>\<open>Math.min\<close> of two numbers.\<close>

fun js_min :: "jsnum \<Rightarrow> jsnum \<Rightarrow> jsnum" where
  "js_min NaN _ = NaN"
| "js_min _ NaN = NaN"
| "js_min NegInf _ = NegInf"
| "js_min _ NegInf = NegInf"
| "js_min PosInf b = b"
| "js_min a PosInf = a"
| "js_min (Fin a) (Fin b) = Fin (min a b)"

text \<open>\<open>Buffer.byteLength(s, "utf8")\<close> for code units below 256.\<close>

definition byteLength :: "string \<Rightarrow> nat" where
  "byteLength s = sum_list (map (\<lambda>c. if of_char c < (128 :: nat) then 1 else 2) s)"

section \<open>Errors as values\<close>

text \<open>
  An \<open>Error\<close> object with the dynamic properties the sources attach to it. A property that was
  never assigned is \<open>undefined\<close>; \<open>e_name\<close> is the class the sources test with \<open>instanceof\<close>.
\<close>

record js_error =
  e_message :: string
  e_code :: js
  e_statusCode :: js
  e_retryable :: js
  e_meta_statusCode :: js
  e_body_status :: js
  e_execution :: js
  e_name :: string
  e_issues :: js

text \<open>The dash of a message, in UTF-8.\<close>

definition em_dash :: string where
  "em_dash = [CHR 0xE2, CHR 0x80, CHR 0x94]"

text \<open>\<open>new Error(message)\<close>.\<close>

definition newError :: "string \<Rightarrow> js_error" where
  "newError m = \<lparr>e_message = m, e_code = JUndefined, e_statusCode = JUndefined,
     e_retryable = JUndefined, e_meta_statusCode = JUndefined, e_body_status = JUndefined,
     e_execution = JUndefined, e_name = ''Error'', e_issues = JUndefined\<rparr>"

section \<open>Effectful methods\<close>

text \<open>
  An asynchronous method of a stateful object: from a state it returns or throws, and leaves a
  state. Throwing does not undo earlier writes.
\<close>

type_synonym ('s, 'a) eff = "'s \<Rightarrow> (js_error + 'a) \<times> 's"

definition ret :: "'a \<Rightarrow> ('s, 'a) eff" where
  "ret a = (\<lambda>s. (Inr a, s))"

definition throw :: "js_error \<Rightarrow> ('s, 'a) eff" where
  "throw e = (\<lambda>s. (Inl e, s))"

text \<open>\<open>await m\<close> and go on with its value; an exception skips the continuation.\<close>

definition andThen :: "('s, 'a) eff \<Rightarrow> ('a \<Rightarrow> ('s, 'b) eff) \<Rightarrow> ('s, 'b) eff" where
  "andThen m k = (\<lambda>s. case m s of (Inl e, s') \<Rightarrow> (Inl e, s') | (Inr a, s') \<Rightarrow> k a s')"

text \<open>\<open>try { m } catch (e) { h e }\<close>.\<close>

definition tryCatch :: "('s, 'a) eff \<Rightarrow> (js_error \<Rightarrow> ('s, 'a) eff) \<Rightarrow> ('s, 'a) eff" where
  "tryCatch m h = (\<lambda>s. case m s of (Inl e, s') \<Rightarrow> h e s' | (Inr a, s') \<Rightarrow> (Inr a, s'))"

text \<open>\<open>try { m } finally { c }\<close>: an exception of \<open>c\<close> replaces the outcome of \<open>m\<close>.\<close>

definition tryFinally :: "('s, 'a) eff \<Rightarrow> ('s, unit) eff \<Rightarrow> ('s, 'a) eff" where
  "tryFinally m c = (\<lambda>s. case m s of (r, s1) \<Rightarrow> (case c s1 of (Inl e, s2) \<Rightarrow> (Inl e, s2) | (Inr _, s2) \<Rightarrow> (r, s2)))"

text \<open>\<open>for (const x of xs) await body x\<close>.\<close>

fun forEach :: "('x \<Rightarrow> ('s, unit) eff) \<Rightarrow> 'x list \<Rightarrow> ('s, unit) eff" where
  "forEach f [] = ret ()"
| "forEach f (x # xs) = andThen (f x) (\<lambda>_. forEach f xs)"

section \<open>Lemmas\<close>

lemma js_prop_Cons [js_eval]:
  "js_prop (JObj ((k', v) # kvs)) k = (if k' = k then v else js_prop (JObj kvs) k)"
  by simp

text \<open>Values that went through JSON, and their members.\<close>

lemma json_members:
  assumes "jsonb (JObj kvs) = JObj kvs"
  shows "\<forall>kv \<in> set kvs. jsonb (snd kv) = snd kv \<and> snd kv \<noteq> JUndefined"
proof -
  let ?f = "map_prod id jsonb" and ?P = "\<lambda>kv. snd kv \<noteq> JUndefined"
  have eq: "filter ?P (map ?f kvs) = kvs" using assms by simp
  then have len: "length (filter ?P (map ?f kvs)) = length (map ?f kvs)" by (metis length_map)
  then have all: "filter ?P (map ?f kvs) = map ?f kvs" by (metis filter_id_conv length_filter_less nat_neq_iff)
  with eq have m: "map ?f kvs = kvs" by simp
  have "jsonb (snd kv) = snd kv" if "kv \<in> set kvs" for kv
    using m that map_eq_conv [of ?f kvs id] by (cases kv) (auto simp: map_prod_def)
  moreover have "snd kv \<noteq> JUndefined" if "kv \<in> set kvs" for kv
    using all m that by (metis (mono_tags, lifting) filter_id_conv)
  ultimately show ?thesis by blast
qed

lemma json_prop:
  assumes "jsonb v = v"
  shows "jsonb (js_prop v k) = js_prop v k"
proof (cases v)
  case (JObj kvs)
  have "\<forall>kv \<in> set kvs. jsonb (snd kv) = snd kv \<and> snd kv \<noteq> JUndefined"
    by (rule json_members) (use assms JObj in simp)
  then show ?thesis using JObj by (cases "map_of kvs k") (force dest: map_of_SomeD)+
qed simp_all

lemma js_prop_jsonb:
  assumes "distinct (map fst kvs)"
  shows "js_prop (jsonb (JObj kvs)) k = jsonb (js_prop (JObj kvs) k)"
  using assms
proof (induction kvs)
  case (Cons kv kvs)
  obtain a v where kv: "kv = (a, v)" by (cases kv)
  have "map_of kvs a = None" using Cons.prems kv by (simp add: map_of_eq_None_iff)
  then show ?case using Cons kv by auto
qed simp

lemma js_prop_set: "js_prop (js_set v k w) j = (if j = k then w else js_prop v j)"
  by (cases v) (auto simp: update_conv)

lemmas js_operator_defs [js_eval] = js_or_def coalesce_def str_or_def is_string_def

lemma jsonb_member_idem:
  assumes "\<And>kv. kv \<in> set kvs \<Longrightarrow> jsonb (jsonb (snd kv)) = jsonb (snd kv)"
  shows "jsonb (jsonb (JObj kvs)) = jsonb (JObj kvs)"
proof -
  let ?ms = "filter (\<lambda>kv. snd kv \<noteq> JUndefined) (map (map_prod id jsonb) kvs)"
  have "map (map_prod id jsonb) ?ms = ?ms"
    using assms by (intro map_idI) (auto simp: map_prod_def split: prod.splits)
  then have "filter (\<lambda>kv. snd kv \<noteq> JUndefined) (map (map_prod id jsonb) ?ms) = ?ms"
    by (simp only: filter_filter conj_absorb)
  then show ?thesis by simp
qed

lemma jsonb_idem: "jsonb (jsonb v) = jsonb v"
proof (induction v)
  case (JArr xs)
  then show ?case by (auto simp: map_idI)
next
  case (JObj kvs)
  show ?case
    by (rule jsonb_member_idem) (metis JObj snds.intros prod.collapse)
qed (auto split: jsnum.splits)

lemma startsWith_iff: "startsWith s p \<longleftrightarrow> (\<exists>t. s = p @ t)"
  by (induction s p rule: startsWith.induct) auto

lemma startsWith_append [simp]: "startsWith (p @ t) p"
  by (auto simp: startsWith_iff)

lemma endsWith_iff: "endsWith s p \<longleftrightarrow> (\<exists>t. s = t @ p)"
  unfolding endsWith_def startsWith_iff
  by (metis rev_append rev_rev_ident)

lemma split_on_nonempty [simp]: "split_on d s \<noteq> []"
  by (induction s) (auto split: list.splits)

lemma split_on_none: "d \<notin> set s \<Longrightarrow> split_on d s = [s]"
  by (induction s) auto

lemma split_on_append: "d \<notin> set w \<Longrightarrow> split_on d (w @ d # s) = w # split_on d s"
  by (induction w) auto

lemma split_on_segments: "w \<in> set (split_on d s) \<Longrightarrow> d \<notin> set w"
proof (induction s arbitrary: w)
  case (Cons c s)
  obtain v vs where vs: "split_on d s = v # vs"
    by (cases "split_on d s") auto
  with Cons show ?case by (auto split: if_splits)
qed simp

lemma join_with_split_on: "join_with [d] (split_on d s) = s"
proof (induction s)
  case (Cons c s)
  obtain v vs where vs: "split_on d s = v # vs"
    by (cases "split_on d s") auto
  with Cons show ?case by (cases vs) auto
qed simp

lemma sep_unique:
  assumes "a @ d # b = a' @ d # b'" and "d \<notin> set a" and "d \<notin> set a'"
  shows "a = a' \<and> b = b'"
  using assms
proof (induction a arbitrary: a')
  case Nil
  then show ?case by (cases a') auto
next
  case (Cons x xs)
  then show ?case by (cases a') auto
qed

lemma byteLength_append [simp]: "byteLength (a @ b) = byteLength a + byteLength b"
  by (simp add: byteLength_def)

lemma byteLength_bounds: "length s \<le> byteLength s" "byteLength s \<le> 2 * length s"
  by (induction s) (auto simp: byteLength_def)

lemma eff_if [eff_eval]: "(if b then m else n) s = (if b then m s else n s)" for m :: "('s, 'a) eff"
  by simp

lemma ret_apply [simp, eff_eval]: "ret a s = (Inr a, s)"
  by (simp add: ret_def)

lemma throw_apply [simp, eff_eval]: "throw e s = (Inl e, s)"
  by (simp add: throw_def)

lemma andThen_Inr [eff_eval]: "m s = (Inr a, s') \<Longrightarrow> andThen m k s = k a s'"
  by (simp add: andThen_def)

lemma andThen_Inl [eff_eval]: "m s = (Inl e, s') \<Longrightarrow> andThen m k s = (Inl e, s')"
  by (simp add: andThen_def)

lemma tryCatch_Inr [eff_eval]: "m s = (Inr a, s') \<Longrightarrow> tryCatch m h s = (Inr a, s')"
  by (simp add: tryCatch_def)

lemma tryCatch_Inl [eff_eval]: "m s = (Inl e, s') \<Longrightarrow> tryCatch m h s = h e s'"
  by (simp add: tryCatch_def)

lemma andThen_ret [simp]: "andThen (ret a) k = k a"
  by (rule ext) (simp add: andThen_def)

lemma andThen_throw [simp]: "andThen (throw e) k = throw e"
  by (rule ext) (simp add: andThen_def)

lemma andThen_assoc: "andThen (andThen m k) l = andThen m (\<lambda>a. andThen (k a) l)"
  by (rule ext) (simp add: andThen_def split: prod.splits sum.splits)

lemma andThen_cases:
  assumes "andThen m k s = (r, t)"
  obtains (throws) e where "m s = (Inl e, t)" "r = Inl e"
        | (returns) a s' where "m s = (Inr a, s')" "k a s' = (r, t)"
  using assms by (auto simp: andThen_def split: prod.splits sum.splits)

lemma tryCatch_cases:
  assumes "tryCatch m h s = (r, t)"
  obtains (throws) e s' where "m s = (Inl e, s')" "h e s' = (r, t)"
        | (returns) a where "m s = (Inr a, t)" "r = Inr a"
  using assms by (auto simp: tryCatch_def split: prod.splits sum.splits)

text \<open>
  A state relation that every part of a method keeps respected by the method: the
  building block of the frame and invariant proofs.
\<close>

definition keeps :: "('s \<Rightarrow> 's \<Rightarrow> bool) \<Rightarrow> ('s, 'a) eff \<Rightarrow> bool" where
  "keeps R m \<longleftrightarrow> (\<forall>s. R s (snd (m s)))"

lemma keeps_ret [intro]: "reflp R \<Longrightarrow> keeps R (ret a)"
  by (simp add: keeps_def reflpD)

lemma keeps_throw [intro]: "reflp R \<Longrightarrow> keeps R (throw e)"
  by (simp add: keeps_def reflpD)

lemma keeps_andThen [intro]:
  assumes "transp R" "keeps R m" "\<And>a. keeps R (k a)"
  shows "keeps R (andThen m k)"
  unfolding keeps_def
proof
  fix s
  have m: "R s (snd (m s))" using assms(2) by (simp add: keeps_def)
  show "R s (snd (andThen m k s))"
  proof (cases "m s")
    case (Pair r s')
    with m assms(1,3) show ?thesis
      by (cases r) (auto simp: andThen_def keeps_def dest: transpD)
  qed
qed

lemma keeps_tryCatch [intro]:
  assumes "transp R" "keeps R m" "\<And>e. keeps R (h e)"
  shows "keeps R (tryCatch m h)"
  unfolding keeps_def
proof
  fix s
  have m: "R s (snd (m s))" using assms(2) by (simp add: keeps_def)
  show "R s (snd (tryCatch m h s))"
  proof (cases "m s")
    case (Pair r s')
    with m assms(1,3) show ?thesis
      by (cases r) (auto simp: tryCatch_def keeps_def dest: transpD)
  qed
qed

lemma keeps_tryFinally [intro]:
  assumes "transp R" "keeps R m" "keeps R c"
  shows "keeps R (tryFinally m c)"
  unfolding keeps_def
proof
  fix s
  have "R s (snd (m s))" "R (snd (m s)) (snd (c (snd (m s))))" using assms(2,3) by (simp_all add: keeps_def)
  then have "R s (snd (c (snd (m s))))" using assms(1) by (blast dest: transpD)
  then show "R s (snd (tryFinally m c s))"
    by (cases "m s"; cases "c (snd (m s))") (auto simp: tryFinally_def split: sum.splits)
qed

lemma keeps_forEach [intro]:
  assumes "reflp R" "transp R" "\<And>x. keeps R (f x)"
  shows "keeps R (forEach f xs)"
  using assms by (induction xs) auto

lemma keepsD: "keeps R m \<Longrightarrow> m s = (r, t) \<Longrightarrow> R s t"
  unfolding keeps_def by (metis snd_conv)

end
