(* ===== verification/Schedule.thy ===== *)
theory Schedule
  imports Sched_Prelude
begin

text \<open>
  Instants, ISO timestamps, run identifiers and cron schedules
  (\<open>src/src/utils/schedule.js\<close>, \<open>src/src/utils/runId.js\<close>). An instant is a number of
  milliseconds since 1970. \<open>Date.prototype.toISOString\<close> is written out from the calendar
  rules, because run identifiers embed its output; the cron library is a parameter. The
  theorems: ISO timestamps and run identifiers determine the instant and the instance.
\<close>

type_synonym instant = nat

section \<open>The calendar\<close>

definition leap :: "nat \<Rightarrow> bool" where
  "leap y \<longleftrightarrow> y mod 4 = 0 \<and> (y mod 100 \<noteq> 0 \<or> y mod 400 = 0)"

definition year_days :: "nat \<Rightarrow> nat" where
  "year_days y = (if leap y then 366 else 365)"

definition month_lengths :: "nat \<Rightarrow> nat list" where
  "month_lengths y = [31, if leap y then 29 else 28, 31, 30, 31, 30, 31, 31, 30, 31, 30, 31]"

text \<open>The year a day number falls in and the day of that year, counting from \<open>y\<close>.\<close>

function year_of :: "nat \<Rightarrow> nat \<Rightarrow> nat \<times> nat" where
  "year_of y d = (if d < year_days y then (y, d) else year_of (Suc y) (d - year_days y))"
  by pat_completeness auto
termination
  by (relation "measure (\<lambda>(y, d). d)") (auto simp: year_days_def split: if_splits)

declare year_of.simps [simp del]

fun month_of :: "nat list \<Rightarrow> nat \<Rightarrow> nat \<Rightarrow> nat \<times> nat" where
  "month_of [] m d = (m, d)"
| "month_of (l # ls) m d = (if d < l then (m, d) else month_of ls (Suc m) (d - l))"

fun dec :: "nat \<Rightarrow> nat \<Rightarrow> string" where
  "dec 0 n = []"
| "dec (Suc w) n = dec w (n div 10) @ [''0123456789'' ! (n mod 10)]"

definition iso_year :: "instant \<Rightarrow> nat" where
  "iso_year t = fst (year_of 1970 (t div 86400000))"

definition iso_date :: "instant \<Rightarrow> string" where
  "iso_date t =
     (let (y, yd) = year_of 1970 (t div 86400000);
          (m, d) = month_of (month_lengths y) 0 yd
      in (if y \<le> 9999 then dec 4 y else ''+'' @ dec 6 y) @ ''-'' @ dec 2 (m + 1) @ ''-'' @ dec 2 (d + 1))"

definition iso_time :: "instant \<Rightarrow> string" where
  "iso_time t =
     (let r = t mod 86400000
      in dec 2 (r div 3600000) @ '':'' @ dec 2 (r div 60000 mod 60) @ '':'' @
         dec 2 (r div 1000 mod 60) @ ''.'' @ dec 3 (r mod 1000) @ ''Z'')"

text \<open>\<open>new Date(t).toISOString()\<close>.\<close>

definition toISOString :: "instant \<Rightarrow> string" where
  "toISOString t = iso_date t @ ''T'' @ iso_time t"

section \<open>Run identifiers\<close>

text \<open>\<open>buildRunId\<close> of \<open>utils/runId.js\<close>; a missing tenant is \<open>None\<close>.\<close>

definition buildRunId :: "string option \<Rightarrow> string \<Rightarrow> string \<Rightarrow> js_error + string" where
  "buildRunId tenantId instanceId scheduledFireTime =
     (if instanceId = [] then Inl (newError ''instanceId is required'')
      else if scheduledFireTime = [] then Inl (newError ''scheduledFireTime is required'')
      else Inr (if truthy_str tenantId
                then the tenantId @ '':'' @ instanceId @ '':'' @ scheduledFireTime
                else instanceId @ '':'' @ scheduledFireTime))"

section \<open>Cron schedules\<close>

text \<open>
  The cron library is not part of the repository. \<open>cronNext expression tz from\<close> is the outcome
  of \<open>CronExpressionParser.parse(expression, \<dots>).next()\<close>: the message of the exception or the
  next fire time. A schedule that lets the clock advance returns a later instant.
\<close>

type_synonym cron = "string \<Rightarrow> string \<Rightarrow> instant \<Rightarrow> string + instant"

definition cron_advances :: "cron \<Rightarrow> bool" where
  "cron_advances cronNext \<longleftrightarrow> (\<forall>ex tz from next. cronNext ex tz from = Inr next \<longrightarrow> from < next)"

record schedule =
  sc_type :: string
  sc_expression :: string
  sc_cron :: string
  sc_timezone :: string

text \<open>\<open>computeNextFireAt(schedule, fromDate)\<close> of \<open>utils/schedule.js\<close>.\<close>

definition computeNextFireAt :: "cron \<Rightarrow> schedule option \<Rightarrow> instant \<Rightarrow> js_error + instant" where
  "computeNextFireAt cronNext sched fromDate =
     (case sched of
        None \<Rightarrow> Inl (newError ''Only cron schedules are supported'')
      | Some sc \<Rightarrow>
          if sc_type sc \<noteq> ''cron'' then Inl (newError ''Only cron schedules are supported'')
          else case cronNext (sc_expression sc) (str_or (sc_timezone sc) ''UTC'') fromDate of
                 Inl m \<Rightarrow> Inl (newError (''Invalid cron schedule: '' @ m))
               | Inr next \<Rightarrow> Inr next)"

section \<open>Lemmas\<close>

lemma dec_numeral [simp]:
  "dec (numeral k) n = dec (pred_numeral k) (n div 10) @ [''0123456789'' ! (n mod 10)]"
  by (simp only: numeral_eq_Suc [of k] dec.simps)

lemma digit_inj: "a < 10 \<Longrightarrow> b < 10 \<Longrightarrow> ''0123456789'' ! a = ''0123456789'' ! b \<Longrightarrow> a = b"
  by (auto simp: less_Suc_eq numeral_eq_Suc nth_Cons split: nat.splits)

lemma digit_not_sep: "a < 10 \<Longrightarrow> ''0123456789'' ! a \<in> set ''0123456789''"
  by (rule nth_mem) simp

lemma length_dec [simp]: "length (dec w n) = w"
  by (induction w arbitrary: n) auto

lemma dec_digits: "set (dec w n) \<subseteq> set ''0123456789''"
proof (induction w arbitrary: n)
  case (Suc w)
  have "set [''0123456789'' ! (n mod 10)] \<subseteq> set ''0123456789''"
    using digit_not_sep [of "n mod 10"] by (simp del: nth_Cons_numeral)
  with Suc show ?case by (metis dec.simps(2) set_append Un_subset_iff)
qed simp

lemma dec_inj: "m < 10 ^ w \<Longrightarrow> n < 10 ^ w \<Longrightarrow> dec w m = dec w n \<Longrightarrow> m = n"
proof (induction w arbitrary: m n)
  case (Suc w)
  from Suc.prems(3) have "dec w (m div 10) = dec w (n div 10)"
    and d: "''0123456789'' ! (m mod 10) = ''0123456789'' ! (n mod 10)" by simp_all
  moreover have "m div 10 < 10 ^ w" "n div 10 < 10 ^ w"
    using Suc.prems(1,2) by (simp_all add: less_mult_imp_div_less mult.commute)
  ultimately have "m div 10 = n div 10" using Suc.IH by blast
  moreover have "m mod 10 = n mod 10" using d by (intro digit_inj) simp_all
  ultimately show ?case by (metis div_mult_mod_eq)
qed simp

lemma year_of_sum:
  "year_of y d = (y', d') \<Longrightarrow> y \<le> y' \<and> d' < year_days y' \<and> (\<Sum>k = y..<y'. year_days k) + d' = d"
proof (induction y d rule: year_of.induct)
  case (1 y d)
  show ?case
  proof (cases "d < year_days y")
    case True
    with "1.prems" show ?thesis by (auto simp: year_of.simps [of y d])
  next
    case False
    with "1.prems" have "year_of (Suc y) (d - year_days y) = (y', d')"
      by (simp add: year_of.simps [of y d])
    from "1.IH" [OF False this] False show ?thesis
      by (auto simp: sum.atLeast_Suc_lessThan [of y y'])
  qed
qed

lemma year_of_inj: "year_of y d = year_of y e \<Longrightarrow> d = e"
  using year_of_sum by (metis prod.collapse)

lemma month_of_sum:
  "month_of ls m d = (m', d') \<Longrightarrow> m \<le> m' \<and> sum_list (take (m' - m) ls) + d' = d"
proof (induction ls m d rule: month_of.induct)
  case (2 l ls m d)
  show ?case
  proof (cases "d < l")
    case False
    with 2 have "Suc m \<le> m'" and "sum_list (take (m' - Suc m) ls) + d' = d - l" by auto
    with False show ?thesis by (auto simp: Suc_diff_le take_Cons' not_less)
  qed (use 2 in auto)
qed auto

lemma month_of_inj: "month_of ls m d = month_of ls m e \<Longrightarrow> d = e"
  using month_of_sum by (metis prod.collapse)

lemma month_of_bounds:
  "month_of ls m d = (m', d') \<Longrightarrow> d < sum_list ls \<Longrightarrow> \<forall>l \<in> set ls. l \<le> k \<Longrightarrow>
   m' < m + length ls \<and> d' < k"
proof (induction ls m d rule: month_of.induct)
  case (2 l ls m d)
  then show ?case by (cases "d < l") fastforce+
qed auto

lemma sum_month_lengths: "sum_list (month_lengths y) = year_days y"
  by (simp add: month_lengths_def year_days_def)

lemma month_lengths_le: "\<forall>l \<in> set (month_lengths y). l \<le> 31"
  by (simp add: month_lengths_def)

lemma iso_date_inj:
  assumes "iso_year t \<le> 9999" and "iso_year u \<le> 9999" and "iso_date t = iso_date u"
  shows "t div 86400000 = u div 86400000"
proof -
  obtain y yd where y: "year_of 1970 (t div 86400000) = (y, yd)" by fastforce
  obtain z zd where z: "year_of 1970 (u div 86400000) = (z, zd)" by fastforce
  obtain m d where m: "month_of (month_lengths y) 0 yd = (m, d)" by fastforce
  obtain n e where n: "month_of (month_lengths z) 0 zd = (n, e)" by fastforce
  have md: "m < 12 \<and> d < 31"
    using month_of_bounds [OF m _ month_lengths_le] year_of_sum [OF y]
    by (simp add: sum_month_lengths) (simp add: month_lengths_def)
  have ne: "n < 12 \<and> e < 31"
    using month_of_bounds [OF n _ month_lengths_le] year_of_sum [OF z]
    by (simp add: sum_month_lengths) (simp add: month_lengths_def)
  have le: "y \<le> 9999" "z \<le> 9999" using assms(1,2) y z by (simp_all add: iso_year_def)
  have eq: "dec 4 y @ ''-'' @ dec 2 (m + 1) @ ''-'' @ dec 2 (d + 1) =
            dec 4 z @ ''-'' @ dec 2 (n + 1) @ ''-'' @ dec 2 (e + 1)"
    using assms(3) le y z m n by (simp add: iso_date_def del: dec_numeral)
  then have "dec 4 y = dec 4 z" "dec 2 (m + 1) = dec 2 (n + 1)" "dec 2 (d + 1) = dec 2 (e + 1)"
    by (simp_all del: dec.simps dec_numeral)
  then have "y = z" "m = n" "d = e"
    using dec_inj [of y 4 z] dec_inj [of "m + 1" 2 "n + 1"] dec_inj [of "d + 1" 2 "e + 1"] le md ne
    by (simp_all del: dec_numeral)
  with m n have "month_of (month_lengths y) 0 yd = month_of (month_lengths y) 0 zd" by simp
  then have "yd = zd" by (rule month_of_inj)
  with y z \<open>y = z\<close> show ?thesis using year_of_inj by metis
qed

lemma clock_split:
  "(r::nat) = 3600000 * (r div 3600000) + 60000 * (r div 60000 mod 60) + 1000 * (r div 1000 mod 60) + r mod 1000"
proof -
  have "r = 1000 * (r div 1000) + r mod 1000" by simp
  moreover have "r div 1000 = 60 * (r div 60000) + r div 1000 mod 60"
    using div_mult2_eq [of r 1000 60] by simp
  moreover have "r div 60000 = 60 * (r div 3600000) + r div 60000 mod 60"
    using div_mult2_eq [of r 60000 60] by simp
  ultimately show ?thesis by linarith
qed

lemma iso_time_inj:
  assumes "iso_time t = iso_time u"
  shows "t mod 86400000 = u mod 86400000"
proof -
  define r q where "r = t mod 86400000" and "q = u mod 86400000"
  have lt: "r < 86400000" "q < 86400000" by (simp_all add: r_def q_def)
  from assms have "dec 2 (r div 3600000) @ '':'' @ dec 2 (r div 60000 mod 60) @ '':'' @
         dec 2 (r div 1000 mod 60) @ ''.'' @ dec 3 (r mod 1000) @ ''Z'' =
       dec 2 (q div 3600000) @ '':'' @ dec 2 (q div 60000 mod 60) @ '':'' @
         dec 2 (q div 1000 mod 60) @ ''.'' @ dec 3 (q mod 1000) @ ''Z''"
    by (simp add: iso_time_def r_def q_def Let_def del: dec_numeral)
  then have "dec 2 (r div 3600000) = dec 2 (q div 3600000)"
    "dec 2 (r div 60000 mod 60) = dec 2 (q div 60000 mod 60)"
    "dec 2 (r div 1000 mod 60) = dec 2 (q div 1000 mod 60)"
    "dec 3 (r mod 1000) = dec 3 (q mod 1000)"
    by (simp_all del: dec.simps dec_numeral)
  moreover have "r div 3600000 < 10 ^ 2" "q div 3600000 < 10 ^ 2"
    using lt by (simp_all add: less_mult_imp_div_less)
  ultimately have "r div 3600000 = q div 3600000" "r div 60000 mod 60 = q div 60000 mod 60"
    "r div 1000 mod 60 = q div 1000 mod 60" "r mod 1000 = q mod 1000"
    using dec_inj [of _ 2] dec_inj [of _ 3] by (simp_all del: dec_numeral add: less_le_trans [OF mod_less_divisor])
  then show ?thesis
    using clock_split [of r] clock_split [of q] unfolding r_def q_def by metis
qed

lemma length_iso_date: "iso_year t \<le> 9999 \<Longrightarrow> length (iso_date t) = 10"
  by (auto simp: iso_date_def iso_year_def split: prod.splits)

lemma length_toISOString: "iso_year t \<le> 9999 \<Longrightarrow> length (toISOString t) = 24"
  by (simp add: toISOString_def length_iso_date iso_time_def Let_def del: dec_numeral)

lemma toISOString_inj:
  assumes "iso_year t \<le> 9999" and "iso_year u \<le> 9999" and "toISOString t = toISOString u"
  shows "t = u"
proof -
  have "iso_date t = iso_date u" "iso_time t = iso_time u"
    using assms by (simp_all add: toISOString_def length_iso_date)
  then show ?thesis
    using iso_date_inj [OF assms(1,2)] iso_time_inj by (metis div_mult_mod_eq)
qed

lemma toISOString_nonempty [simp]: "toISOString t \<noteq> []"
  by (simp add: toISOString_def)

lemma buildRunId_shape:
  assumes "buildRunId tn i st = Inr r"
  shows "r = (if truthy_str tn then the tn @ '':'' else []) @ i @ '':'' @ st"
  using assms by (auto simp: buildRunId_def split: if_splits)

lemma last_sep_unique:
  assumes "a @ d # b = a' @ d # b'" and "d \<notin> set b" and "d \<notin> set b'"
  shows "a = a' \<and> b = b'"
proof -
  have "rev b @ d # rev a = rev b' @ d # rev a'"
    using arg_cong [OF assms(1), of rev] by simp
  from sep_unique [OF this] assms(2,3) show ?thesis by simp
qed

lemma computeNextFireAt_advances:
  "cron_advances cronNext \<Longrightarrow> computeNextFireAt cronNext sched t = Inr next \<Longrightarrow> t < next"
  by (auto simp: computeNextFireAt_def cron_advances_def split: option.splits if_splits sum.splits)

lemma runId_inj:
  assumes "buildRunId tn i (toISOString t) = Inr r" and "buildRunId tn' i' (toISOString t') = Inr r"
    and "CHR '':'' \<notin> set i" and "CHR '':'' \<notin> set i'"
    and "iso_year t \<le> 9999" and "iso_year t' \<le> 9999"
  shows "i = i' \<and> t = t' \<and> truthy_str tn = truthy_str tn' \<and> (truthy_str tn \<longrightarrow> tn = tn')"
proof -
  define p p' where "p = (if truthy_str tn then the tn @ '':'' else [])"
    and "p' = (if truthy_str tn' then the tn' @ '':'' else [])"
  have "(p @ i) @ '':'' @ toISOString t = (p' @ i') @ '':'' @ toISOString t'"
    using buildRunId_shape [OF assms(1)] buildRunId_shape [OF assms(2)] by (simp add: p_def p'_def)
  then have pi: "p @ i = p' @ i'" and iso: "toISOString t = toISOString t'"
    using length_toISOString [OF assms(5)] length_toISOString [OF assms(6)]
      append_eq_append_conv [of "p @ i" "p' @ i'" "'':'' @ toISOString t" "'':'' @ toISOString t'"]
    by simp_all
  have "t = t'" using toISOString_inj [OF assms(5,6) iso] .
  moreover have "i = i' \<and> truthy_str tn = truthy_str tn' \<and> (truthy_str tn \<longrightarrow> tn = tn')"
  proof (cases "truthy_str tn = truthy_str tn'")
    case True
    with pi assms(3,4) show ?thesis
      using last_sep_unique [of "the tn" "CHR '':''" i "the tn'" i']
      by (cases tn; cases tn') (auto simp: p_def p'_def split: if_splits)
  next
    case False
    then have "CHR '':'' \<in> set (p @ i) \<longleftrightarrow> CHR '':'' \<notin> set (p' @ i')"
      using assms(3,4) by (auto simp: p_def p'_def)
    then have False unfolding pi by blast
    then show ?thesis ..
  qed
  ultimately show ?thesis by blast
qed

section \<open>Properties\<close>

text \<open>
  Run identifiers are unique per tenant, instance and fire time: two calls of \<open>buildRunId\<close>
  that give the same identifier were given the same instance, the same instant and the same
  tenant (a missing and an empty tenant count as the same), for instance identifiers without a
  colon, which is what the request schema accepts, and years up to 9999. The duplicate
  detection of the scheduler tick rests on it.
\<close>

lemma buildRunId_unique:
  assumes "buildRunId tn i (toISOString t) = Inr r" and "buildRunId tn' i' (toISOString t') = Inr r"
    and "CHR '':'' \<notin> set i" and "CHR '':'' \<notin> set i'"
    and "iso_year t \<le> 9999" and "iso_year t' \<le> 9999"
  shows "i = i' \<and> t = t' \<and> truthy_str tn = truthy_str tn' \<and> (truthy_str tn \<longrightarrow> tn = tn')"
  by (rule runId_inj [OF assms])

text \<open>A leap day, with a tenant.\<close>

end
