(* ===== verification/Db_Tables.thy ===== *)
theory Db_Tables
  imports Schedule
begin

text \<open>
  The two Postgres tables the scheduler coordinates through (\<open>src/migrations\<close>), the documents
  the stores hand out (\<open>rowToDocument\<close> and \<open>documentToRow\<close> of \<open>src/src/stores/runStore.js\<close> and
  \<open>src/src/stores/instanceStore.js\<close>), and the statement forms the stores send. A statement is a
  function on the tables; a connection may fail any statement, in which case it throws and
  changes nothing. A transaction that does not commit restores the tables.
\<close>

section \<open>Rows and documents\<close>

datatype run_state = QUEUED | RUNNING | SUCCEEDED | FAILED | CANCELLING | CANCELLED

fun state_text :: "run_state \<Rightarrow> string" where
  "state_text QUEUED = ''QUEUED''"
| "state_text RUNNING = ''RUNNING''"
| "state_text SUCCEEDED = ''SUCCEEDED''"
| "state_text FAILED = ''FAILED''"
| "state_text CANCELLING = ''CANCELLING''"
| "state_text CANCELLED = ''CANCELLED''"

text \<open>Table \<open>job_runs\<close>: a nullable column is an \<open>option\<close>, a \<open>jsonb\<close> column a value (\<open>JNull\<close> for NULL).\<close>

record run_row =
  jr_run_id :: string
  jr_tenant_id :: "string option"
  jr_instance_id :: string
  jr_definition_id :: string
  jr_definition_version :: "int option"
  jr_scheduled_fire_time :: instant
  jr_state :: run_state
  jr_attempt :: int
  jr_dispatch_id :: "string option"
  jr_params :: js
  jr_status :: js
  jr_result :: js
  jr_error :: js
  jr_execution_metadata :: js
  jr_runtime_execution :: js
  jr_parent_run_id :: "string option"
  jr_redrive_of_run_id :: "string option"
  jr_cancel_requested_at :: "instant option"
  jr_cancelled_at :: "instant option"
  jr_cancelled_by :: "string option"
  jr_cancel_reason :: "string option"
  jr_created_at :: instant
  jr_started_at :: "instant option"
  jr_ended_at :: "instant option"
  jr_heartbeat_at :: "instant option"
  jr_updated_at :: instant

text \<open>A run document. \<open>None\<close> stands for \<open>null\<close> and, in a document built by the program, for a missing field.\<close>

record run_doc =
  rn_runId :: string
  rn_tenantId :: "string option"
  rn_instanceId :: string
  rn_definitionId :: string
  rn_definitionVersion :: "int option"
  rn_scheduledFireTime :: instant
  rn_state :: run_state
  rn_attempt :: "int option"
  rn_dispatchId :: "string option"
  rn_params :: js
  rn_status :: js
  rn_result :: js
  rn_error :: js
  rn_executionMetadata :: js
  rn_runtimeExecution :: js
  rn_parentRunId :: "string option"
  rn_redriveOfRunId :: "string option"
  rn_cancelRequestedAt :: "instant option"
  rn_cancelledAt :: "instant option"
  rn_cancelledBy :: "string option"
  rn_cancelReason :: "string option"
  rn_createdAt :: instant
  rn_startedAt :: "instant option"
  rn_endedAt :: "instant option"
  rn_heartbeatAt :: "instant option"
  rn_updatedAt :: instant

definition rowToDocument :: "run_row \<Rightarrow> run_doc" where
  "rowToDocument row =
    \<lparr>rn_runId = jr_run_id row, rn_tenantId = jr_tenant_id row, rn_instanceId = jr_instance_id row,
     rn_definitionId = jr_definition_id row, rn_definitionVersion = jr_definition_version row,
     rn_scheduledFireTime = jr_scheduled_fire_time row, rn_state = jr_state row,
     rn_attempt = Some (jr_attempt row), rn_dispatchId = jr_dispatch_id row,
     rn_params = jr_params row, rn_status = jr_status row, rn_result = jr_result row,
     rn_error = jr_error row, rn_executionMetadata = jr_execution_metadata row,
     rn_runtimeExecution = jr_runtime_execution row, rn_parentRunId = jr_parent_run_id row,
     rn_redriveOfRunId = jr_redrive_of_run_id row, rn_cancelRequestedAt = jr_cancel_requested_at row,
     rn_cancelledAt = jr_cancelled_at row, rn_cancelledBy = jr_cancelled_by row,
     rn_cancelReason = jr_cancel_reason row, rn_createdAt = jr_created_at row,
     rn_startedAt = jr_started_at row, rn_endedAt = jr_ended_at row,
     rn_heartbeatAt = jr_heartbeat_at row, rn_updatedAt = jr_updated_at row\<rparr>"

text \<open>\<open>v != null ? JSON.stringify(v) : null\<close> into a \<open>jsonb\<close> column.\<close>

definition json_column :: "js \<Rightarrow> js" where
  "json_column v = (if nullish v then JNull else jsonb v)"

definition documentToRow :: "run_doc \<Rightarrow> run_row" where
  "documentToRow doc =
    \<lparr>jr_run_id = rn_runId doc, jr_tenant_id = rn_tenantId doc, jr_instance_id = rn_instanceId doc,
     jr_definition_id = rn_definitionId doc, jr_definition_version = rn_definitionVersion doc,
     jr_scheduled_fire_time = rn_scheduledFireTime doc, jr_state = rn_state doc,
     jr_attempt = (case rn_attempt doc of None \<Rightarrow> 1 | Some n \<Rightarrow> n), jr_dispatch_id = rn_dispatchId doc,
     jr_params = jsonb (coalesce (rn_params doc) (JObj [])),
     jr_status = json_column (rn_status doc), jr_result = json_column (rn_result doc),
     jr_error = json_column (rn_error doc),
     jr_execution_metadata = json_column (rn_executionMetadata doc),
     jr_runtime_execution = json_column (rn_runtimeExecution doc),
     jr_parent_run_id = rn_parentRunId doc, jr_redrive_of_run_id = rn_redriveOfRunId doc,
     jr_cancel_requested_at = rn_cancelRequestedAt doc, jr_cancelled_at = rn_cancelledAt doc,
     jr_cancelled_by = rn_cancelledBy doc, jr_cancel_reason = rn_cancelReason doc,
     jr_created_at = rn_createdAt doc, jr_started_at = rn_startedAt doc,
     jr_ended_at = rn_endedAt doc, jr_heartbeat_at = rn_heartbeatAt doc,
     jr_updated_at = rn_updatedAt doc\<rparr>"

text \<open>Table \<open>job_instances\<close> and the instance documents.\<close>

datatype instance_state = ACTIVE | PAUSED | DELETED

record inst_row =
  ji_instance_id :: string
  ji_tenant_id :: "string option"
  ji_definition_id :: string
  ji_definition_version :: int
  ji_definition_parameter_schema :: js
  ji_enabled :: bool
  ji_state :: instance_state
  ji_schedule :: schedule
  ji_next_fire_at :: "instant option"
  ji_last_fire_at :: "instant option"
  ji_parameters :: js
  ji_created_at :: instant
  ji_updated_at :: instant

record inst_doc =
  in_instanceId :: string
  in_tenantId :: "string option"
  in_definitionId :: string
  in_definitionVersion :: int
  in_definitionParameterSchema :: js
  in_enabled :: bool
  in_state :: instance_state
  in_schedule :: schedule
  in_nextFireAt :: "instant option"
  in_lastFireAt :: "instant option"
  in_parameters :: js
  in_createdAt :: instant
  in_updatedAt :: instant

definition inst_rowToDocument :: "inst_row \<Rightarrow> inst_doc" where
  "inst_rowToDocument row =
    \<lparr>in_instanceId = ji_instance_id row, in_tenantId = ji_tenant_id row,
     in_definitionId = ji_definition_id row, in_definitionVersion = ji_definition_version row,
     in_definitionParameterSchema = ji_definition_parameter_schema row, in_enabled = ji_enabled row,
     in_state = ji_state row, in_schedule = ji_schedule row, in_nextFireAt = ji_next_fire_at row,
     in_lastFireAt = ji_last_fire_at row, in_parameters = ji_parameters row,
     in_createdAt = ji_created_at row, in_updatedAt = ji_updated_at row\<rparr>"

definition inst_documentToRow :: "inst_doc \<Rightarrow> inst_row" where
  "inst_documentToRow doc =
    \<lparr>ji_instance_id = in_instanceId doc, ji_tenant_id = in_tenantId doc,
     ji_definition_id = in_definitionId doc, ji_definition_version = in_definitionVersion doc,
     ji_definition_parameter_schema = jsonb (coalesce (in_definitionParameterSchema doc) (JArr [])),
     ji_enabled = in_enabled doc, ji_state = in_state doc, ji_schedule = in_schedule doc,
     ji_next_fire_at = in_nextFireAt doc, ji_last_fire_at = in_lastFireAt doc,
     ji_parameters = jsonb (coalesce (in_parameters doc) (JObj [])),
     ji_created_at = in_createdAt doc, ji_updated_at = in_updatedAt doc\<rparr>"

section \<open>The database\<close>

record db =
  job_runs :: "run_row list"
  job_instances :: "inst_row list"

text \<open>
  A connection to the database: the tables and, for the statements to come, which of them the
  connection fails (no entry: it succeeds).
\<close>

record pg =
  pg_db :: db
  pg_faults :: "bool list"

definition dbError :: js_error where
  "dbError = newError ''database error''"

definition exec :: "(db \<Rightarrow> 'a \<times> db) \<Rightarrow> (pg, 'a) eff" where
  "exec f s =
     (case pg_faults s of
        True # fs \<Rightarrow> (Inl dbError, s\<lparr>pg_faults := fs\<rparr>)
      | _ \<Rightarrow> let (a, d) = f (pg_db s) in (Inr a, s\<lparr>pg_db := d, pg_faults := tl (pg_faults s)\<rparr>))"

definition exec_control :: "(pg, unit) eff" where
  "exec_control = exec (\<lambda>d. ((), d))"

text \<open>
  \<open>BEGIN; body; COMMIT\<close>, with \<open>ROLLBACK\<close> and rethrow in the catch block. When the rollback
  statement fails too, its error replaces the first one; the server drops the transaction.
\<close>

definition transaction :: "(pg, 'a) eff \<Rightarrow> (pg, 'a) eff" where
  "transaction body s =
     (case andThen exec_control (\<lambda>_. andThen body (\<lambda>a. andThen exec_control (\<lambda>_. ret a))) s of
        (Inr a, s') \<Rightarrow> (Inr a, s')
      | (Inl e, s') \<Rightarrow> andThen exec_control (\<lambda>_. throw e) (s'\<lparr>pg_db := pg_db s\<rparr>))"

text \<open>\<open>UPDATE job_runs SET f WHERE P RETURNING *\<close> and \<open>INSERT \<dots> ON CONFLICT (run_id) DO NOTHING\<close>.\<close>

definition update_runs :: "(run_row \<Rightarrow> bool) \<Rightarrow> (run_row \<Rightarrow> run_row) \<Rightarrow> db \<Rightarrow> run_row list \<times> db" where
  "update_runs P f d =
     (map f (filter P (job_runs d)),
      d\<lparr>job_runs := map (\<lambda>r. if P r then f r else r) (job_runs d)\<rparr>)"

definition find_run :: "string \<Rightarrow> db \<Rightarrow> run_row option" where
  "find_run i d = find (\<lambda>r. jr_run_id r = i) (job_runs d)"

definition insert_run :: "run_row \<Rightarrow> db \<Rightarrow> nat \<times> db" where
  "insert_run row d =
     (case find_run (jr_run_id row) d of
        Some _ \<Rightarrow> (0, d)
      | None \<Rightarrow> (1, d\<lparr>job_runs := job_runs d @ [row]\<rparr>))"

definition update_instances :: "(inst_row \<Rightarrow> bool) \<Rightarrow> (inst_row \<Rightarrow> inst_row) \<Rightarrow> db \<Rightarrow> inst_row list \<times> db" where
  "update_instances P f d =
     (map f (filter P (job_instances d)),
      d\<lparr>job_instances := map (\<lambda>r. if P r then f r else r) (job_instances d)\<rparr>)"

definition find_instance :: "string \<Rightarrow> db \<Rightarrow> inst_row option" where
  "find_instance i d = find (\<lambda>r. ji_instance_id r = i) (job_instances d)"

text \<open>The primary keys.\<close>

definition keys_ok :: "db \<Rightarrow> bool" where
  "keys_ok d \<longleftrightarrow> distinct (map jr_run_id (job_runs d)) \<and> distinct (map ji_instance_id (job_instances d))"

section \<open>Lemmas\<close>

named_theorems run_key \<open>row updates that keep the primary key of a run\<close>

lemma find_map_key:
  assumes "\<And>x. key (g x) = key x"
  shows "find (\<lambda>x. key x = i) (map g xs) = map_option g (find (\<lambda>x. key x = i) xs)"
  using assms by (induction xs) auto

lemma find_none_iff: "find (\<lambda>x. key x = i) xs = None \<longleftrightarrow> i \<notin> key ` set xs"
  by (induction xs) auto

lemma find_some_in: "find P xs = Some x \<Longrightarrow> x \<in> set xs \<and> P x"
  by (induction xs) (auto split: if_splits)

lemma filter_key_find:
  assumes "distinct (map key xs)"
  shows "filter (\<lambda>x. key x = i \<and> Q x) xs =
    (case find (\<lambda>x. key x = i) xs of Some x \<Rightarrow> if Q x then [x] else [] | None \<Rightarrow> [])"
  using assms
proof (induction xs)
  case (Cons y ys)
  show ?case
  proof (cases "key y = i")
    case True
    with Cons.prems have "filter (\<lambda>x. key x = i \<and> Q x) ys = []"
      by (auto simp: filter_empty_conv image_iff)
    with True show ?thesis by simp
  qed (use Cons in simp)
qed simp

lemma find_distinct:
  assumes "distinct (map key xs)" "x \<in> set xs"
  shows "find (\<lambda>y. key y = key x) xs = Some x"
  using assms by (induction xs) auto

lemma exec_ok [eff_eval]:
  "pg_faults s = [] \<Longrightarrow> exec f s = (Inr (fst (f (pg_db s))), s\<lparr>pg_db := snd (f (pg_db s))\<rparr>)"
  by (simp add: exec_def split: prod.splits)

lemma exec_fails: "pg_faults s = True # fs \<Longrightarrow> exec f s = (Inl dbError, s\<lparr>pg_faults := fs\<rparr>)"
  by (simp add: exec_def)

lemma exec_outcome:
  assumes "exec f s = (r, t)"
  obtains (failed) "r = Inl dbError" "pg_db t = pg_db s"
        | (succeeded) "r = Inr (fst (f (pg_db s)))" "pg_db t = snd (f (pg_db s))"
  using assms by (auto simp: exec_def split: list.splits bool.splits prod.splits)

lemma exec_db: "pg_db (snd (exec f s)) = pg_db s \<or> pg_db (snd (exec f s)) = snd (f (pg_db s))"
  by (auto simp: exec_def split: list.splits bool.splits prod.splits)

lemma exec_control_ok [eff_eval]: "pg_faults s = [] \<Longrightarrow> exec_control s = (Inr (), s)"
  by (simp add: exec_control_def exec_ok)

lemma exec_control_db [simp]: "pg_db (snd (exec_control s)) = pg_db s"
  by (auto simp: exec_control_def exec_def split: list.splits bool.splits)

lemma transaction_ok:
  assumes "pg_faults s = []" and "body s = (Inr a, s')" and "pg_faults s' = []"
  shows "transaction body s = (Inr a, s')"
  using assms by (simp add: transaction_def andThen_def exec_control_ok)

text \<open>A transaction commits the effect of its body or leaves the tables alone.\<close>

lemma transaction_atomic:
  assumes "transaction body s = (r, t)"
  shows "(\<exists>e. r = Inl e \<and> pg_db t = pg_db s) \<or>
         (\<exists>a s1 s2. r = Inr a \<and> pg_db s1 = pg_db s \<and> body s1 = (Inr a, s2) \<and> pg_db t = pg_db s2)"
proof -
  let ?run = "andThen exec_control (\<lambda>_. andThen body (\<lambda>a. andThen exec_control (\<lambda>_. ret a)))"
  obtain q u where q: "?run s = (q, u)" by fastforce
  show ?thesis
  proof (cases q)
    case (Inl e)
    define v where "v = u\<lparr>pg_db := pg_db s\<rparr>"
    have "andThen exec_control (\<lambda>_. throw e) v = (r, t)"
      using assms q Inl by (simp add: transaction_def v_def)
    then have "\<exists>e'. r = Inl e' \<and> pg_db t = pg_db v"
      by (rule andThen_cases) (metis exec_control_db snd_conv throw_apply Pair_inject)+
    then show ?thesis by (auto simp: v_def)
  next
    case (Inr a)
    with assms q have rt: "r = Inr a" "t = u" by (simp_all add: transaction_def)
    from q obtain s1 where s1: "exec_control s = (Inr (), s1)"
      and b: "andThen body (\<lambda>a. andThen exec_control (\<lambda>_. ret a)) s1 = (Inr a, u)"
      unfolding Inr by (rule andThen_cases) auto
    from b obtain s2 a' where s2: "body s1 = (Inr a', s2)"
      and c: "andThen exec_control (\<lambda>_. ret a') s2 = (Inr a, u)"
      by (rule andThen_cases) auto
    from c have "a' = a" and "pg_db u = pg_db s2"
      by (auto elim!: andThen_cases) (metis exec_control_db snd_conv)
    moreover have "pg_db s1 = pg_db s" using s1 by (metis exec_control_db snd_conv)
    ultimately show ?thesis using rt s2 by blast
  qed
qed

lemma keys_ok_runs [dest]: "keys_ok d \<Longrightarrow> distinct (map jr_run_id (job_runs d))"
  by (simp add: keys_ok_def)

lemma update_runs_find:
  assumes "\<And>r. jr_run_id (f r) = jr_run_id r"
  shows "find_run i (snd (update_runs P f d)) = map_option (\<lambda>r. if P r then f r else r) (find_run i d)"
  using assms by (simp add: find_run_def update_runs_def find_map_key)

lemma update_runs_returning:
  assumes "keys_ok d"
  shows "fst (update_runs (\<lambda>r. jr_run_id r = i \<and> Q r) f d) =
    (case find_run i d of Some r \<Rightarrow> if Q r then [f r] else [] | None \<Rightarrow> [])"
  using assms by (auto simp: update_runs_def find_run_def keys_ok_def filter_key_find split: option.splits)

lemma update_runs_keys:
  assumes "\<And>r. jr_run_id (f r) = jr_run_id r" "keys_ok d"
  shows "keys_ok (snd (update_runs P f d))"
proof -
  have "map jr_run_id (map (\<lambda>r. if P r then f r else r) (job_runs d)) = map jr_run_id (job_runs d)"
    using assms(1) by auto
  with assms(2) show ?thesis by (simp add: keys_ok_def update_runs_def del: map_map)
qed

lemma update_runs_frame [simp]: "job_instances (snd (update_runs P f d)) = job_instances d"
  by (simp add: update_runs_def)

lemma update_runs_none:
  "(\<And>r. r \<in> set (job_runs d) \<Longrightarrow> \<not> P r) \<Longrightarrow> update_runs P f d = ([], d)"
  by (auto simp: update_runs_def filter_empty_conv map_idI)

lemma find_snoc: "find P (xs @ [x]) = (case find P xs of Some y \<Rightarrow> Some y | None \<Rightarrow> if P x then Some x else None)"
  by (induction xs) auto

lemma insert_run_find:
  "find_run i (snd (insert_run row d)) =
     (case find_run i d of Some r \<Rightarrow> Some r | None \<Rightarrow> if jr_run_id row = i then Some row else None)"
  by (auto simp: insert_run_def find_run_def find_snoc split: option.splits)

lemma insert_run_keys: "keys_ok d \<Longrightarrow> keys_ok (snd (insert_run row d))"
  by (auto simp: insert_run_def find_run_def keys_ok_def find_none_iff split: option.splits)

lemma insert_run_frame [simp]: "job_instances (snd (insert_run row d)) = job_instances d"
  by (simp add: insert_run_def split: option.splits)

lemma find_run_key: "find_run i d = Some r \<Longrightarrow> jr_run_id r = i"
  unfolding find_run_def by (drule find_some_in) simp

lemma find_run_in: "find_run i d = Some r \<Longrightarrow> r \<in> set (job_runs d)"
  unfolding find_run_def by (drule find_some_in) simp

lemma in_find_run: "keys_ok d \<Longrightarrow> r \<in> set (job_runs d) \<Longrightarrow> find_run (jr_run_id r) d = Some r"
  by (simp add: find_run_def keys_ok_def find_distinct)

end
