(* ===== verification/Run_Store.thy ===== *)
theory Run_Store
  imports Db_Tables
begin

text \<open>
  \<open>RunStore\<close> of \<open>src/src/stores/runStore.js\<close>, statement by statement, over the tables of
  \<open>Db_Tables\<close>. Random UUIDs and clock readings are arguments. The interface its clients rely on
  is a record of operations, and the laws it promises are the locales \<open>run_store_laws\<close> and
  \<open>fenced_run_store\<close>; the Postgres store interprets both.
\<close>

definition status_of :: "string \<Rightarrow> string \<Rightarrow> js" where
  "status_of phase message = JObj [(''phase'', JStr phase), (''message'', JStr message)]"

text \<open>\<open>dispatchId ? " AND dispatch_id = \<dots>" : ""\<close>.\<close>

definition fence :: "string option \<Rightarrow> run_row \<Rightarrow> bool" where
  "fence dispatchId r \<longleftrightarrow> (truthy_str dispatchId \<longrightarrow> jr_dispatch_id r = dispatchId)"

section \<open>The operations\<close>

definition getRun :: "string \<Rightarrow> (pg, run_doc option) eff" where
  "getRun runId = exec (\<lambda>d. (map_option rowToDocument (find_run runId d), d))"

definition createRun :: "run_doc \<Rightarrow> (pg, bool) eff" where
  "createRun document =
     andThen (exec (insert_run (documentToRow document))) (\<lambda>rowCount. ret (rowCount = 1))"

datatype claim = Claimed "string option" | NotClaimed | MissingRun

definition claim_set :: "string \<Rightarrow> instant \<Rightarrow> js \<Rightarrow> run_row \<Rightarrow> run_row" where
  "claim_set dispatchId startedAt st r =
     r\<lparr>jr_state := RUNNING, jr_started_at := Some startedAt, jr_heartbeat_at := Some startedAt,
       jr_status := jsonb st, jr_dispatch_id := Some dispatchId, jr_updated_at := startedAt\<rparr>"

definition claimed_status :: js where
  "claimed_status = status_of ''running'' ''Run claimed by worker''"

definition claimRun :: "string \<Rightarrow> string \<Rightarrow> instant \<Rightarrow> js \<Rightarrow> (pg, claim) eff" where
  "claimRun uuid runId startedAt st =
     andThen (exec (update_runs (\<lambda>r. jr_run_id r = runId \<and> jr_state r = QUEUED)
                (claim_set uuid startedAt (coalesce st claimed_status))))
       (\<lambda>rows. case rows of
          row # _ \<Rightarrow> ret (Claimed (jr_dispatch_id row))
        | [] \<Rightarrow> andThen (exec (\<lambda>d. (find_run runId d \<noteq> None, d)))
                  (\<lambda>exists. ret (if exists then NotClaimed else MissingRun)))"

text \<open>
  \<open>claimNextQueued\<close>: rows locked by other transactions (\<open>locked\<close>) are skipped; the loop gives
  the row of iteration \<open>i\<close> the UUID \<open>uuid i\<close>.
\<close>

definition queued_candidates :: "(string \<Rightarrow> bool) \<Rightarrow> nat \<Rightarrow> db \<Rightarrow> string list" where
  "queued_candidates locked limit d =
     map jr_run_id (take limit (sort_key jr_created_at
       (filter (\<lambda>r. jr_state r = QUEUED \<and> \<not> locked (jr_run_id r)) (job_runs d))))"

fun claim_loop :: "(nat \<Rightarrow> string) \<Rightarrow> instant \<Rightarrow> nat \<Rightarrow> string list \<Rightarrow> (pg, (string \<times> string) list) eff" where
  "claim_loop uuid startedAt i [] = ret []"
| "claim_loop uuid startedAt i (runId # rest) =
     andThen (exec (update_runs (\<lambda>r. jr_run_id r = runId \<and> jr_state r = QUEUED)
                (claim_set (uuid i) startedAt claimed_status)))
       (\<lambda>_. andThen (claim_loop uuid startedAt (Suc i) rest) (\<lambda>claimed. ret ((runId, uuid i) # claimed)))"

definition claimNextQueued ::
  "(string \<Rightarrow> bool) \<Rightarrow> (nat \<Rightarrow> string) \<Rightarrow> nat \<Rightarrow> instant \<Rightarrow> (pg, (string \<times> string) list) eff" where
  "claimNextQueued locked uuid limit startedAt =
     andThen exec_control (\<lambda>_. transaction
       (andThen (exec (\<lambda>d. (queued_candidates locked limit d, d))) (claim_loop uuid startedAt 0)))"

definition recordRuntimeExecution ::
  "string \<Rightarrow> js \<Rightarrow> instant \<Rightarrow> js \<Rightarrow> string option \<Rightarrow> (pg, bool) eff" where
  "recordRuntimeExecution runId runtimeExecution startedAt st dispatchId =
     andThen (exec (update_runs (\<lambda>r. jr_run_id r = runId \<and> jr_state r = RUNNING \<and> fence dispatchId r)
        (\<lambda>r. r\<lparr>jr_runtime_execution := jsonb runtimeExecution, jr_heartbeat_at := Some startedAt,
               jr_status := jsonb (coalesce st (status_of ''dispatched'' ''Run dispatched to isolated runtime'')),
               jr_updated_at := startedAt\<rparr>)))
       (\<lambda>rows. ret (rows \<noteq> []))"

definition succeeded_set :: "instant \<Rightarrow> js \<Rightarrow> js \<Rightarrow> run_row \<Rightarrow> run_row" where
  "succeeded_set endedAt res st r =
     r\<lparr>jr_state := SUCCEEDED, jr_ended_at := Some endedAt, jr_heartbeat_at := Some endedAt,
       jr_status := jsonb (coalesce st (status_of ''succeeded'' ''Run completed successfully'')),
       jr_result := json_column res, jr_error := JNull, jr_updated_at := endedAt\<rparr>"

definition markSucceeded :: "string \<Rightarrow> instant \<Rightarrow> js \<Rightarrow> js \<Rightarrow> string option \<Rightarrow> (pg, bool) eff" where
  "markSucceeded runId endedAt res st dispatchId =
     andThen (exec (update_runs (\<lambda>r. jr_run_id r = runId \<and> jr_state r = RUNNING \<and> fence dispatchId r)
                (succeeded_set endedAt res st)))
       (\<lambda>rows. ret (rows \<noteq> []))"

definition failed_set :: "instant \<Rightarrow> js \<Rightarrow> js \<Rightarrow> run_row \<Rightarrow> run_row" where
  "failed_set endedAt er st r =
     r\<lparr>jr_state := FAILED, jr_ended_at := Some endedAt, jr_heartbeat_at := Some endedAt,
       jr_status := jsonb (coalesce st (status_of ''failed'' ''Run failed in worker runtime executor'')),
       jr_error := json_column er, jr_updated_at := endedAt\<rparr>"

definition markFailed :: "string \<Rightarrow> instant \<Rightarrow> js \<Rightarrow> js \<Rightarrow> string option \<Rightarrow> (pg, bool) eff" where
  "markFailed runId endedAt er st dispatchId =
     andThen (exec (update_runs (\<lambda>r. jr_run_id r = runId \<and> jr_state r = RUNNING \<and> fence dispatchId r)
                (failed_set endedAt er st)))
       (\<lambda>rows. ret (rows \<noteq> []))"

text \<open>\<open>touchHeartbeat\<close> is always fenced: \<open>dispatch_id = $2\<close> is never true for a NULL.\<close>

definition touchHeartbeat :: "string \<Rightarrow> string option \<Rightarrow> instant \<Rightarrow> (pg, run_state option) eff" where
  "touchHeartbeat runId dispatchId heartbeatAt =
     andThen (exec (update_runs
        (\<lambda>r. jr_run_id r = runId \<and> dispatchId \<noteq> None \<and> jr_dispatch_id r = dispatchId \<and>
             jr_state r \<in> {RUNNING, CANCELLING})
        (\<lambda>r. r\<lparr>jr_heartbeat_at := Some heartbeatAt, jr_updated_at := heartbeatAt\<rparr>)))
       (\<lambda>rows. ret (case rows of row # _ \<Rightarrow> Some (jr_state row) | [] \<Rightarrow> None))"

text \<open>The columns a \<open>set\<close> object of \<open>transition\<close> assigns; \<open>updatedAt\<close> is dropped, the server clock is written.\<close>

datatype run_assign =
    SetState run_state
  | SetAttempt int
  | SetDispatchId "string option"
  | SetStartedAt "instant option"
  | SetEndedAt "instant option"
  | SetHeartbeatAt "instant option"
  | SetUpdatedAt instant
  | SetStatus js
  | SetError js
  | SetRuntimeExecution js
  | SetCancelRequestedAt "instant option"
  | SetCancelledAt "instant option"
  | SetCancelledBy "string option"
  | SetCancelReason "string option"

fun assign_column :: "run_assign \<Rightarrow> run_row \<Rightarrow> run_row" where
  "assign_column (SetState v) r = r\<lparr>jr_state := v\<rparr>"
| "assign_column (SetAttempt v) r = r\<lparr>jr_attempt := v\<rparr>"
| "assign_column (SetDispatchId v) r = r\<lparr>jr_dispatch_id := v\<rparr>"
| "assign_column (SetStartedAt v) r = r\<lparr>jr_started_at := v\<rparr>"
| "assign_column (SetEndedAt v) r = r\<lparr>jr_ended_at := v\<rparr>"
| "assign_column (SetHeartbeatAt v) r = r\<lparr>jr_heartbeat_at := v\<rparr>"
| "assign_column (SetUpdatedAt v) r = r"
| "assign_column (SetStatus v) r = r\<lparr>jr_status := json_column v\<rparr>"
| "assign_column (SetError v) r = r\<lparr>jr_error := json_column v\<rparr>"
| "assign_column (SetRuntimeExecution v) r = r\<lparr>jr_runtime_execution := json_column v\<rparr>"
| "assign_column (SetCancelRequestedAt v) r = r\<lparr>jr_cancel_requested_at := v\<rparr>"
| "assign_column (SetCancelledAt v) r = r\<lparr>jr_cancelled_at := v\<rparr>"
| "assign_column (SetCancelledBy v) r = r\<lparr>jr_cancelled_by := v\<rparr>"
| "assign_column (SetCancelReason v) r = r\<lparr>jr_cancel_reason := v\<rparr>"

definition assign_all :: "run_assign list \<Rightarrow> instant \<Rightarrow> run_row \<Rightarrow> run_row" where
  "assign_all assigns dbNow r = (fold assign_column assigns r)\<lparr>jr_updated_at := dbNow\<rparr>"

definition transition ::
  "string \<Rightarrow> run_state list \<Rightarrow> run_assign list \<Rightarrow> instant \<Rightarrow> (pg, run_doc option) eff" where
  "transition runId fromStates assigns dbNow =
     andThen (exec (update_runs (\<lambda>r. jr_run_id r = runId \<and> jr_state r \<in> set fromStates)
                (assign_all assigns dbNow)))
       (\<lambda>rows. ret (case rows of row # _ \<Rightarrow> Some (rowToDocument row) | [] \<Rightarrow> None))"

text \<open>\<open>createRunTx\<close> is \<open>createRun\<close> on the client of an open transaction.\<close>

definition createRunTx :: "run_doc \<Rightarrow> (pg, bool) eff" where
  "createRunTx document =
     andThen (exec (insert_run (documentToRow document))) (\<lambda>rowCount. ret (rowCount = 1))"

text \<open>\<open>started_at < now() - threshold\<close>; a NULL \<open>started_at\<close> never matches.\<close>

definition stale :: "instant \<Rightarrow> nat \<Rightarrow> run_row \<Rightarrow> bool" where
  "stale dbNow thresholdMs r =
     (case jr_started_at r of None \<Rightarrow> False | Some t \<Rightarrow> int t < int dbNow - int thresholdMs)"

definition stale_rows :: "run_state \<Rightarrow> instant \<Rightarrow> nat \<Rightarrow> nat \<Rightarrow> db \<Rightarrow> run_row list" where
  "stale_rows st dbNow thresholdMs limit d =
     take limit (sort_key (\<lambda>r. the (jr_started_at r))
       (filter (\<lambda>r. jr_state r = st \<and> stale dbNow thresholdMs r) (job_runs d)))"

definition listStaleRunningIds :: "instant \<Rightarrow> nat \<Rightarrow> nat \<Rightarrow> (pg, (string \<times> string option) list) eff" where
  "listStaleRunningIds dbNow thresholdMs limit =
     exec (\<lambda>d. (map (\<lambda>r. (jr_run_id r, jr_dispatch_id r)) (stale_rows RUNNING dbNow thresholdMs limit d), d))"

definition listStaleCancellingIds :: "instant \<Rightarrow> nat \<Rightarrow> nat \<Rightarrow> (pg, string list) eff" where
  "listStaleCancellingIds dbNow thresholdMs limit =
     exec (\<lambda>d. (map jr_run_id (stale_rows CANCELLING dbNow thresholdMs limit d), d))"

definition cancelled_set :: "instant \<Rightarrow> js \<Rightarrow> js \<Rightarrow> run_row \<Rightarrow> run_row" where
  "cancelled_set endedAt er st r =
     r\<lparr>jr_state := CANCELLED, jr_ended_at := Some endedAt, jr_heartbeat_at := Some endedAt,
       jr_status := jsonb (coalesce st (status_of ''cancelled'' ''Run force-cancelled by stale sweeper'')),
       jr_error := json_column er, jr_updated_at := endedAt\<rparr>"

definition markCancelled :: "string \<Rightarrow> instant \<Rightarrow> js \<Rightarrow> js \<Rightarrow> (pg, bool) eff" where
  "markCancelled runId endedAt er st =
     andThen (exec (update_runs (\<lambda>r. jr_run_id r = runId \<and> jr_state r = CANCELLING)
                (cancelled_set endedAt er st)))
       (\<lambda>rows. ret (rows \<noteq> []))"

definition listQueuedRunIds :: "nat \<Rightarrow> (pg, string list) eff" where
  "listQueuedRunIds limit =
     exec (\<lambda>d. (map jr_run_id (take limit (sort_key jr_created_at
                  (filter (\<lambda>r. jr_state r = QUEUED) (job_runs d)))), d))"

definition listRunsForInstance :: "string \<Rightarrow> nat \<Rightarrow> string option \<Rightarrow> (pg, run_doc list) eff" where
  "listRunsForInstance instanceId limit st =
     exec (\<lambda>d. (map rowToDocument (take limit (sort_key (\<lambda>r. - int (jr_created_at r))
                  (filter (\<lambda>r. jr_instance_id r = instanceId \<and>
                               (truthy_str st \<longrightarrow> Some (state_text (jr_state r)) = st)) (job_runs d)))), d))"

section \<open>The interface of a run store\<close>

text \<open>
  The operations the services call on the \<open>runStore\<close> object they are given. The run control
  service, the worker run service and the dispatcher are written against this record, as the
  sources are against the object.
\<close>

record 'db run_store =
  rs_getRun :: "string \<Rightarrow> ('db, run_doc option) eff"
  rs_createRun :: "run_doc \<Rightarrow> ('db, bool) eff"
  rs_claimRun :: "string \<Rightarrow> string \<Rightarrow> instant \<Rightarrow> js \<Rightarrow> ('db, claim) eff"
  rs_recordRuntimeExecution :: "string \<Rightarrow> js \<Rightarrow> instant \<Rightarrow> js \<Rightarrow> string option \<Rightarrow> ('db, bool) eff"
  rs_markSucceeded :: "string \<Rightarrow> instant \<Rightarrow> js \<Rightarrow> js \<Rightarrow> string option \<Rightarrow> ('db, bool) eff"
  rs_markFailed :: "string \<Rightarrow> instant \<Rightarrow> js \<Rightarrow> js \<Rightarrow> string option \<Rightarrow> ('db, bool) eff"
  rs_transition :: "string \<Rightarrow> run_state list \<Rightarrow> run_assign list \<Rightarrow> instant \<Rightarrow> ('db, run_doc option) eff"
  rs_listQueuedRunIds :: "nat \<Rightarrow> ('db, string list) eff"

definition RunStore :: "pg run_store" where
  "RunStore = \<lparr>rs_getRun = getRun, rs_createRun = createRun, rs_claimRun = claimRun,
     rs_recordRuntimeExecution = recordRuntimeExecution, rs_markSucceeded = markSucceeded,
     rs_markFailed = markFailed, rs_transition = transition, rs_listQueuedRunIds = listQueuedRunIds\<rparr>"

text \<open>
  The laws. \<open>view\<close> reads the stored row of a run, \<open>up\<close> says that the store answers, \<open>inv\<close> is its
  representation invariant and \<open>row_of\<close> what it stores of a document. The completion writes are
  only promised where the presented dispatch token matches; a fenced store also promises that a
  token of an earlier attempt changes nothing.
\<close>

locale run_store_laws =
  fixes S :: "'db run_store"
    and view :: "'db \<Rightarrow> string \<Rightarrow> run_row option"
    and row_of :: "run_doc \<Rightarrow> run_row"
    and up :: "'db \<Rightarrow> bool"
    and inv :: "'db \<Rightarrow> bool"
  assumes row_of_key: "jr_run_id (row_of doc) = rn_runId doc"
    and row_of_state: "jr_state (row_of doc) = rn_state doc"
    and row_of_attempt: "jr_attempt (row_of doc) = (case rn_attempt doc of None \<Rightarrow> 1 | Some n \<Rightarrow> n)"
    and row_of_cancel: "jr_cancelled_at (row_of doc) = rn_cancelledAt doc"
    and view_key: "inv db \<Longrightarrow> view db i = Some r \<Longrightarrow> jr_run_id r = i"
    and get_law: "inv db \<Longrightarrow> up db \<Longrightarrow>
      rs_getRun S i db = (Inr (map_option rowToDocument (view db i)), db)"
    and create_new_law: "inv db \<Longrightarrow> up db \<Longrightarrow> view db (rn_runId doc) = None \<Longrightarrow>
      \<exists>db'. rs_createRun S doc db = (Inr True, db') \<and> inv db' \<and> up db' \<and>
            view db' = (view db)(rn_runId doc \<mapsto> row_of doc)"
    and create_dup_law: "inv db \<Longrightarrow> up db \<Longrightarrow> view db (rn_runId doc) \<noteq> None \<Longrightarrow>
      rs_createRun S doc db = (Inr False, db)"
    and claim_law: "inv db \<Longrightarrow> up db \<Longrightarrow> view db i = Some r \<Longrightarrow> jr_state r = QUEUED \<Longrightarrow>
      \<exists>d r' db'. rs_claimRun S u i t st db = (Inr (Claimed d), db') \<and> inv db' \<and> up db' \<and>
        view db' = (view db)(i \<mapsto> r') \<and> jr_state r' = RUNNING \<and> jr_started_at r' = Some t \<and>
        jr_attempt r' = jr_attempt r \<and> fence d r' \<and>
        r' = r\<lparr>jr_state := RUNNING, jr_started_at := Some t, jr_heartbeat_at := Some t,
               jr_status := jr_status r', jr_dispatch_id := jr_dispatch_id r', jr_updated_at := t\<rparr>"
    and claim_refused_law: "inv db \<Longrightarrow> up db \<Longrightarrow> view db i = Some r \<Longrightarrow> jr_state r \<noteq> QUEUED \<Longrightarrow>
      rs_claimRun S u i t st db = (Inr NotClaimed, db)"
    and claim_missing_law: "inv db \<Longrightarrow> up db \<Longrightarrow> view db i = None \<Longrightarrow>
      rs_claimRun S u i t st db = (Inr MissingRun, db)"
    and succeed_law: "inv db \<Longrightarrow> up db \<Longrightarrow> view db i = Some r \<Longrightarrow> jr_state r = RUNNING \<Longrightarrow> fence d r \<Longrightarrow>
      nullish st \<or> truthy st \<Longrightarrow>
      \<exists>db'. rs_markSucceeded S i t res st d db = (Inr True, db') \<and> inv db' \<and> up db' \<and>
            view db' = (view db)(i \<mapsto> succeeded_set t res st r)"
    and succeed_refused_law: "inv db \<Longrightarrow> up db \<Longrightarrow> (\<And>r. view db i = Some r \<Longrightarrow> jr_state r \<noteq> RUNNING) \<Longrightarrow>
      rs_markSucceeded S i t res st d db = (Inr False, db)"
    and fail_law: "inv db \<Longrightarrow> up db \<Longrightarrow> view db i = Some r \<Longrightarrow> jr_state r = RUNNING \<Longrightarrow> fence d r \<Longrightarrow>
      nullish st \<or> truthy st \<Longrightarrow>
      \<exists>db'. rs_markFailed S i t er st d db = (Inr True, db') \<and> inv db' \<and> up db' \<and>
            view db' = (view db)(i \<mapsto> failed_set t er st r)"
    and fail_refused_law: "inv db \<Longrightarrow> up db \<Longrightarrow> (\<And>r. view db i = Some r \<Longrightarrow> jr_state r \<noteq> RUNNING) \<Longrightarrow>
      rs_markFailed S i t er st d db = (Inr False, db)"
    and transition_law: "inv db \<Longrightarrow> up db \<Longrightarrow> view db i = Some r \<Longrightarrow> jr_state r \<in> set from \<Longrightarrow>
      \<exists>db'. rs_transition S i from assigns now db = (Inr (Some (rowToDocument (assign_all assigns now r))), db') \<and>
            inv db' \<and> up db' \<and> view db' = (view db)(i \<mapsto> assign_all assigns now r)"
    and transition_refused_law: "inv db \<Longrightarrow> up db \<Longrightarrow> (\<And>r. view db i = Some r \<Longrightarrow> jr_state r \<notin> set from) \<Longrightarrow>
      rs_transition S i from assigns now db = (Inr None, db)"

locale fenced_run_store = run_store_laws +
  assumes claim_token_law: "inv db \<Longrightarrow> up db \<Longrightarrow> view db i = Some r \<Longrightarrow> jr_state r = QUEUED \<Longrightarrow>
      fst (rs_claimRun S u i t st db) = Inr (Claimed (Some u))"
    and succeed_fenced_law: "inv db \<Longrightarrow> up db \<Longrightarrow> view db i = Some r \<Longrightarrow> \<not> fence d r \<Longrightarrow>
      rs_markSucceeded S i t res st d db = (Inr False, db)"
    and fail_fenced_law: "inv db \<Longrightarrow> up db \<Longrightarrow> view db i = Some r \<Longrightarrow> \<not> fence d r \<Longrightarrow>
      rs_markFailed S i t er st d db = (Inr False, db)"

section \<open>Lemmas\<close>

lemma assign_column_key [simp]: "jr_run_id (assign_column a r) = jr_run_id r"
  by (cases a) auto

lemma assign_all_key [simp]: "jr_run_id (assign_all assigns now r) = jr_run_id r"
proof -
  have "jr_run_id (fold assign_column assigns r) = jr_run_id r"
    by (induction assigns arbitrary: r) auto
  then show ?thesis by (simp add: assign_all_def)
qed

lemma set_row_keys [simp]:
  "jr_run_id (claim_set u t st r) = jr_run_id r"
  "jr_run_id (succeeded_set t res st r) = jr_run_id r"
  "jr_run_id (failed_set t er st r) = jr_run_id r"
  "jr_run_id (cancelled_set t er st r) = jr_run_id r"
  by (simp_all add: claim_set_def succeeded_set_def failed_set_def cancelled_set_def)

lemma set_row_states [simp]:
  "jr_state (claim_set u t st r) = RUNNING"
  "jr_state (succeeded_set t res st r) = SUCCEEDED"
  "jr_state (failed_set t er st r) = FAILED"
  "jr_state (cancelled_set t er st r) = CANCELLED"
  by (simp_all add: claim_set_def succeeded_set_def failed_set_def cancelled_set_def)

lemma set_row_dispatch [simp]:
  "jr_dispatch_id (claim_set u t st r) = Some u"
  "jr_dispatch_id (succeeded_set t res st r) = jr_dispatch_id r"
  "jr_dispatch_id (failed_set t er st r) = jr_dispatch_id r"
  "jr_dispatch_id (cancelled_set t er st r) = jr_dispatch_id r"
  by (simp_all add: claim_set_def succeeded_set_def failed_set_def cancelled_set_def)

text \<open>An update of one run by its primary key: what it returns and what it leaves.\<close>

lemma update_one_hit:
  assumes "keys_ok d" "find_run i d = Some r" "Q r" "\<And>x. jr_run_id (f x) = jr_run_id x"
  shows "fst (update_runs (\<lambda>x. jr_run_id x = i \<and> Q x) f d) = [f r]"
    and "(\<lambda>j. find_run j (snd (update_runs (\<lambda>x. jr_run_id x = i \<and> Q x) f d))) =
         (\<lambda>j. find_run j d)(i \<mapsto> f r)"
proof -
  show "fst (update_runs (\<lambda>x. jr_run_id x = i \<and> Q x) f d) = [f r]"
    using update_runs_returning [OF assms(1)] assms(2,3) by simp
  have "find_run j (snd (update_runs (\<lambda>x. jr_run_id x = i \<and> Q x) f d)) =
     ((\<lambda>j. find_run j d)(i \<mapsto> f r)) j" for j
  proof (cases "j = i")
    case True
    then show ?thesis
      using assms(2,3) find_run_key [OF assms(2)] by (simp add: update_runs_find [OF assms(4)])
  next
    case False
    then have "map_option (\<lambda>x. if jr_run_id x = i \<and> Q x then f x else x) (find_run j d) = find_run j d"
      by (cases "find_run j d") (auto dest: find_run_key)
    with False show ?thesis by (simp add: update_runs_find [OF assms(4)])
  qed
  then show "(\<lambda>j. find_run j (snd (update_runs (\<lambda>x. jr_run_id x = i \<and> Q x) f d))) =
         (\<lambda>j. find_run j d)(i \<mapsto> f r)" by blast
qed

lemma update_one_miss:
  assumes "keys_ok d" "\<And>r. find_run i d = Some r \<Longrightarrow> \<not> Q r"
  shows "update_runs (\<lambda>x. jr_run_id x = i \<and> Q x) f d = ([], d)"
  by (rule update_runs_none) (use assms in_find_run in blast)

lemma exec_one_hit:
  assumes "pg_faults s = []" "keys_ok (pg_db s)" "find_run i (pg_db s) = Some r" "Q r"
    "\<And>x. jr_run_id (f x) = jr_run_id x"
  shows "\<exists>s'. exec (update_runs (\<lambda>x. jr_run_id x = i \<and> Q x) f) s = (Inr [f r], s') \<and>
    keys_ok (pg_db s') \<and> pg_faults s' = [] \<and>
    (\<lambda>j. find_run j (pg_db s')) = (\<lambda>j. find_run j (pg_db s))(i \<mapsto> f r)"
  using assms update_one_hit [of "pg_db s" i r Q f] update_runs_keys [of f "pg_db s"]
  by (simp add: exec_ok)

lemma exec_one_miss:
  assumes "pg_faults s = []" "keys_ok (pg_db s)" "\<And>r. find_run i (pg_db s) = Some r \<Longrightarrow> \<not> Q r"
  shows "exec (update_runs (\<lambda>x. jr_run_id x = i \<and> Q x) f) s = (Inr [], s)"
  using assms update_one_miss [of "pg_db s" i Q f] by (simp add: exec_ok)

section \<open>The Postgres store keeps the laws\<close>

lemma getRun_ok: "pg_faults s = [] \<Longrightarrow> getRun i s = (Inr (map_option rowToDocument (find_run i (pg_db s))), s)"
  by (simp add: getRun_def exec_ok)

lemma createRun_new:
  assumes "pg_faults s = []" "keys_ok (pg_db s)" "find_run (rn_runId doc) (pg_db s) = None"
  shows "\<exists>s'. createRun doc s = (Inr True, s') \<and> keys_ok (pg_db s') \<and> pg_faults s' = [] \<and>
    (\<lambda>j. find_run j (pg_db s')) = (\<lambda>j. find_run j (pg_db s))(rn_runId doc \<mapsto> documentToRow doc)"
proof -
  have k: "jr_run_id (documentToRow doc) = rn_runId doc" by (simp add: documentToRow_def)
  have "find_run j (snd (insert_run (documentToRow doc) (pg_db s))) =
     ((\<lambda>j. find_run j (pg_db s))(rn_runId doc \<mapsto> documentToRow doc)) j" for j
    using assms(3) by (auto simp: insert_run_find k split: option.splits)
  moreover have "fst (insert_run (documentToRow doc) (pg_db s)) = 1"
    using assms(3) by (simp add: insert_run_def k)
  ultimately show ?thesis
    using assms(1,2) insert_run_keys [of "pg_db s" "documentToRow doc"]
    by (auto simp: createRun_def andThen_def exec_ok)
qed

lemma createRun_dup:
  assumes "pg_faults s = []" "find_run (rn_runId doc) (pg_db s) \<noteq> None"
  shows "createRun doc s = (Inr False, s)"
  using assms by (auto simp: createRun_def andThen_def exec_ok insert_run_def documentToRow_def)

lemma claimRun_hit:
  assumes "pg_faults s = []" "keys_ok (pg_db s)" "find_run i (pg_db s) = Some r" "jr_state r = QUEUED"
  shows "\<exists>s'. claimRun u i t st s = (Inr (Claimed (Some u)), s') \<and> keys_ok (pg_db s') \<and> pg_faults s' = [] \<and>
    (\<lambda>j. find_run j (pg_db s')) =
    (\<lambda>j. find_run j (pg_db s))(i \<mapsto> claim_set u t (coalesce st claimed_status) r)"
proof -
  obtain s' where s': "exec (update_runs (\<lambda>r. jr_run_id r = i \<and> jr_state r = QUEUED)
      (claim_set u t (coalesce st claimed_status))) s =
      (Inr [claim_set u t (coalesce st claimed_status) r], s')"
    and rest: "keys_ok (pg_db s')" "pg_faults s' = []"
      "(\<lambda>j. find_run j (pg_db s')) =
       (\<lambda>j. find_run j (pg_db s))(i \<mapsto> claim_set u t (coalesce st claimed_status) r)"
    using exec_one_hit [of s i r "\<lambda>r. jr_state r = QUEUED" "claim_set u t (coalesce st claimed_status)"] assms
    by fastforce
  have "claimRun u i t st s = (Inr (Claimed (Some u)), s')"
    by (simp add: claimRun_def andThen_Inr [where m = "exec _", OF s'])
  with rest show ?thesis by blast
qed

lemma claimRun_miss:
  assumes "pg_faults s = []" "keys_ok (pg_db s)" "\<And>r. find_run i (pg_db s) = Some r \<Longrightarrow> jr_state r \<noteq> QUEUED"
  shows "claimRun u i t st s = (Inr (if find_run i (pg_db s) = None then MissingRun else NotClaimed), s)"
proof -
  have m: "exec (update_runs (\<lambda>r. jr_run_id r = i \<and> jr_state r = QUEUED)
      (claim_set u t (coalesce st claimed_status))) s = (Inr [], s)"
    using exec_one_miss [of s i "\<lambda>r. jr_state r = QUEUED"] assms by blast
  have "claimRun u i t st s = andThen (exec (\<lambda>d. (find_run i d \<noteq> None, d)))
      (\<lambda>exists. ret (if exists then NotClaimed else MissingRun)) s"
    by (simp add: claimRun_def andThen_Inr [where m = "exec _", OF m])
  then show ?thesis using assms(1) by (simp add: andThen_def exec_ok)
qed

text \<open>The two completion writes have one shape: a fenced update of a \<open>RUNNING\<close> row.\<close>

lemma fenced_update_hit:
  assumes "pg_faults s = []" "keys_ok (pg_db s)" "find_run i (pg_db s) = Some r" "jr_state r = RUNNING"
    "fence d r" "\<And>x. jr_run_id (f x) = jr_run_id x"
  shows "\<exists>s'. andThen (exec (update_runs (\<lambda>r. jr_run_id r = i \<and> jr_state r = RUNNING \<and> fence d r) f))
      (\<lambda>rows. ret (rows \<noteq> [])) s = (Inr True, s') \<and> keys_ok (pg_db s') \<and> pg_faults s' = [] \<and>
    (\<lambda>j. find_run j (pg_db s')) = (\<lambda>j. find_run j (pg_db s))(i \<mapsto> f r)"
proof -
  obtain s' where s': "exec (update_runs (\<lambda>r. jr_run_id r = i \<and> jr_state r = RUNNING \<and> fence d r) f) s =
      (Inr [f r], s')"
    and rest: "keys_ok (pg_db s')" "pg_faults s' = []"
      "(\<lambda>j. find_run j (pg_db s')) = (\<lambda>j. find_run j (pg_db s))(i \<mapsto> f r)"
    using exec_one_hit [of s i r "\<lambda>r. jr_state r = RUNNING \<and> fence d r" f] assms by fastforce
  with rest show ?thesis by (auto simp: andThen_Inr [where m = "exec _", OF s'])
qed

lemma fenced_update_miss:
  assumes "pg_faults s = []" "keys_ok (pg_db s)"
    "\<And>r. find_run i (pg_db s) = Some r \<Longrightarrow> jr_state r \<noteq> RUNNING \<or> \<not> fence d r"
  shows "andThen (exec (update_runs (\<lambda>r. jr_run_id r = i \<and> jr_state r = RUNNING \<and> fence d r) f))
      (\<lambda>rows. ret (rows \<noteq> [])) s = (Inr False, s)"
proof -
  have m: "exec (update_runs (\<lambda>r. jr_run_id r = i \<and> jr_state r = RUNNING \<and> fence d r) f) s = (Inr [], s)"
    using exec_one_miss [of s i "\<lambda>r. jr_state r = RUNNING \<and> fence d r"] assms by blast
  show ?thesis by (simp add: andThen_Inr [where m = "exec _", OF m])
qed

lemma transition_hit:
  assumes "pg_faults s = []" "keys_ok (pg_db s)" "find_run i (pg_db s) = Some r" "jr_state r \<in> set from"
  shows "\<exists>s'. transition i from assigns now s = (Inr (Some (rowToDocument (assign_all assigns now r))), s') \<and>
    keys_ok (pg_db s') \<and> pg_faults s' = [] \<and>
    (\<lambda>j. find_run j (pg_db s')) = (\<lambda>j. find_run j (pg_db s))(i \<mapsto> assign_all assigns now r)"
proof -
  obtain s' where s': "exec (update_runs (\<lambda>r. jr_run_id r = i \<and> jr_state r \<in> set from) (assign_all assigns now)) s =
      (Inr [assign_all assigns now r], s')"
    and rest: "keys_ok (pg_db s')" "pg_faults s' = []"
      "(\<lambda>j. find_run j (pg_db s')) = (\<lambda>j. find_run j (pg_db s))(i \<mapsto> assign_all assigns now r)"
    using exec_one_hit [of s i r "\<lambda>r. jr_state r \<in> set from" "assign_all assigns now"] assms by fastforce
  with rest show ?thesis by (auto simp: transition_def andThen_Inr [where m = "exec _", OF s'])
qed

lemma transition_miss:
  assumes "pg_faults s = []" "keys_ok (pg_db s)" "\<And>r. find_run i (pg_db s) = Some r \<Longrightarrow> jr_state r \<notin> set from"
  shows "transition i from assigns now s = (Inr None, s)"
proof -
  have m: "exec (update_runs (\<lambda>r. jr_run_id r = i \<and> jr_state r \<in> set from) (assign_all assigns now)) s = (Inr [], s)"
    using exec_one_miss [of s i "\<lambda>r. jr_state r \<in> set from"] assms by blast
  show ?thesis by (simp add: transition_def andThen_Inr [where m = "exec _", OF m])
qed

abbreviation pg_view :: "pg \<Rightarrow> string \<Rightarrow> run_row option" where
  "pg_view s \<equiv> (\<lambda>i. find_run i (pg_db s))"

abbreviation pg_up :: "pg \<Rightarrow> bool" where
  "pg_up s \<equiv> pg_faults s = []"

abbreviation pg_inv :: "pg \<Rightarrow> bool" where
  "pg_inv s \<equiv> keys_ok (pg_db s)"

lemma fence_self: "fence (Some u) (claim_set u t st r)"
  by (simp add: fence_def)

lemma claim_set_shape:
  "claim_set u t st r = r\<lparr>jr_state := RUNNING, jr_started_at := Some t, jr_heartbeat_at := Some t,
     jr_status := jr_status (claim_set u t st r), jr_dispatch_id := jr_dispatch_id (claim_set u t st r),
     jr_updated_at := t\<rparr>"
  by (simp add: claim_set_def)

lemma claim_set_fields:
  "jr_started_at (claim_set u t st r) = Some t" "jr_attempt (claim_set u t st r) = jr_attempt r"
  by (simp_all add: claim_set_def)

lemma pg_claim_law:
  assumes "pg_inv s" "pg_up s" "pg_view s i = Some r" "jr_state r = QUEUED"
  shows "\<exists>d r' s'. claimRun u i t st s = (Inr (Claimed d), s') \<and> pg_inv s' \<and> pg_up s' \<and>
        pg_view s' = (pg_view s)(i \<mapsto> r') \<and> jr_state r' = RUNNING \<and> jr_started_at r' = Some t \<and>
        jr_attempt r' = jr_attempt r \<and> fence d r' \<and>
        r' = r\<lparr>jr_state := RUNNING, jr_started_at := Some t, jr_heartbeat_at := Some t,
               jr_status := jr_status r', jr_dispatch_id := jr_dispatch_id r', jr_updated_at := t\<rparr>"
  using claimRun_hit [OF assms(2,1,3,4), of u t st] claim_set_shape claim_set_fields fence_self
    set_row_states(1)
  by meson

lemmas RunStore_ops = RunStore_def markSucceeded_def markFailed_def

interpretation pgs: fenced_run_store RunStore pg_view documentToRow pg_up pg_inv
proof (unfold_locales, goal_cases)
  case (6 db i) then show ?case by (simp add: RunStore_ops getRun_ok)
next
  case (7 db doc) then show ?case using createRun_new by (simp add: RunStore_ops)
next
  case (8 db doc) then show ?case using createRun_dup by (simp add: RunStore_ops)
next
  case (9 db i r u t st) then show ?case using pg_claim_law by (simp add: RunStore_ops)
next
  case (10 db i r u t st) then show ?case using claimRun_miss [of db i u t st] by (simp add: RunStore_ops)
next
  case (11 db i u t st) then show ?case using claimRun_miss [of db i u t st] by (simp add: RunStore_ops)
next
  case (12 db i r d st t res)
  then show ?case using fenced_update_hit [of db i r d "succeeded_set t res st"] by (simp add: RunStore_ops)
next
  case (13 db i t res st d)
  then show ?case using fenced_update_miss [of db i d "succeeded_set t res st"] by (simp add: RunStore_ops)
next
  case (14 db i r d st t er)
  then show ?case using fenced_update_hit [of db i r d "failed_set t er st"] by (simp add: RunStore_ops)
next
  case (15 db i t er st d)
  then show ?case using fenced_update_miss [of db i d "failed_set t er st"] by (simp add: RunStore_ops)
next
  case (16 db i r sts assigns now)
  then show ?case using transition_hit [of db i r sts assigns now] by (simp add: RunStore_ops)
next
  case (17 db i sts assigns now)
  then show ?case using transition_miss [of db i sts assigns now] by (simp add: RunStore_ops)
next
  case (18 db i r u t st) then show ?case using claimRun_hit [of db i r u t st] by (auto simp: RunStore_ops)
next
  case (19 db i r d t res st)
  then show ?case using fenced_update_miss [of db i d "succeeded_set t res st"] by (simp add: RunStore_ops)
next
  case (20 db i r d t er st)
  then show ?case using fenced_update_miss [of db i d "failed_set t er st"] by (simp add: RunStore_ops)
qed (auto simp: documentToRow_def find_run_key)

section \<open>Batch claims\<close>

definition claim_view :: "(string \<times> string) list \<Rightarrow> instant \<Rightarrow> (string \<Rightarrow> run_row option) \<Rightarrow> string \<Rightarrow> run_row option" where
  "claim_view cl startedAt v j =
     (case map_of cl j of
        None \<Rightarrow> v j
      | Some u \<Rightarrow> map_option (claim_set u startedAt claimed_status) (v j))"

lemma claim_loop_ok:
  assumes "pg_up s" "pg_inv s" "distinct ids"
    "\<And>j. j \<in> set ids \<Longrightarrow> \<exists>r. pg_view s j = Some r \<and> jr_state r = QUEUED"
  shows "\<exists>s'. claim_loop uuid t i ids s = (Inr (zip ids (map uuid [i..<i + length ids])), s') \<and>
    pg_up s' \<and> pg_inv s' \<and> job_instances (pg_db s') = job_instances (pg_db s) \<and>
    pg_view s' = claim_view (zip ids (map uuid [i..<i + length ids])) t (pg_view s)"
  using assms
proof (induction ids arbitrary: i s)
  case Nil
  then show ?case by (auto simp: claim_view_def)
next
  case (Cons j ids)
  from Cons.prems(4) obtain r where r: "pg_view s j = Some r" "jr_state r = QUEUED" by auto
  let ?st = "exec (update_runs (\<lambda>r. jr_run_id r = j \<and> jr_state r = QUEUED) (claim_set (uuid i) t claimed_status))"
  let ?s1 = "s\<lparr>pg_db := snd (update_runs (\<lambda>r. jr_run_id r = j \<and> jr_state r = QUEUED)
      (claim_set (uuid i) t claimed_status) (pg_db s))\<rparr>"
  have hit: "?st s = (Inr [claim_set (uuid i) t claimed_status r], ?s1)"
    using update_one_hit(1) [OF Cons.prems(2) r(1), of "\<lambda>r. jr_state r = QUEUED"] r(2) Cons.prems(1)
    by (simp add: exec_ok)
  have v1: "pg_view ?s1 = (pg_view s)(j \<mapsto> claim_set (uuid i) t claimed_status r)"
    using update_one_hit(2) [OF Cons.prems(2) r(1), of "\<lambda>r. jr_state r = QUEUED"
        "claim_set (uuid i) t claimed_status"] r(2) by simp
  have "\<exists>r. pg_view ?s1 k = Some r \<and> jr_state r = QUEUED" if "k \<in> set ids" for k
    using that Cons.prems(3,4) unfolding fun_cong [OF v1] by auto
  then obtain s2 where s2: "claim_loop uuid t (Suc i) ids ?s1 =
      (Inr (zip ids (map uuid [Suc i..<Suc i + length ids])), s2)"
    and rest: "pg_up s2" "pg_inv s2" "job_instances (pg_db s2) = job_instances (pg_db ?s1)"
      "pg_view s2 = claim_view (zip ids (map uuid [Suc i..<Suc i + length ids])) t (pg_view ?s1)"
    using Cons.IH [of ?s1 "Suc i"] Cons.prems(1,2,3)
      update_runs_keys [of "claim_set (uuid i) t claimed_status" "pg_db s"] by fastforce
  have seq: "zip (j # ids) (map uuid [i..<i + length (j # ids)]) =
      (j, uuid i) # zip ids (map uuid [Suc i..<Suc i + length ids])"
    by (simp add: upt_conv_Cons del: upt_Suc)
  have "pg_view s2 = claim_view (zip (j # ids) (map uuid [i..<i + length (j # ids)])) t (pg_view s)"
    unfolding rest(4) v1 seq using Cons.prems(3) r
    by (rule_tac ext) (auto simp: claim_view_def map_of_zip_is_None split: option.splits
        dest!: map_of_SomeD set_zip_leftD)
  moreover have "claim_loop uuid t i (j # ids) s =
      (Inr (zip (j # ids) (map uuid [i..<i + length (j # ids)])), s2)"
    unfolding seq by (simp add: andThen_Inr [where m = ?st, OF hit] andThen_Inr [where m = "claim_loop _ _ _ _", OF s2]
        del: upt_Suc)
  ultimately show ?case using rest(1-3) by auto
qed

lemma candidates_distinct: "keys_ok d \<Longrightarrow> distinct (queued_candidates locked n d)"
  unfolding queued_candidates_def keys_ok_def
  by (metis (no_types, lifting) distinct_map distinct_filter distinct_sort distinct_take
      set_filter set_sort set_take_subset inj_on_subset mem_Collect_eq subsetI)

lemma candidates_queued:
  assumes "keys_ok d" "j \<in> set (queued_candidates locked n d)"
  shows "\<exists>r. find_run j d = Some r \<and> jr_state r = QUEUED \<and> \<not> locked j"
  using assms in_find_run by (fastforce simp: queued_candidates_def dest!: in_set_takeD)

lemma candidates_length: "length (queued_candidates locked n d) \<le> n"
  by (simp add: queued_candidates_def)

lemma claimNextQueued_ok:
  assumes "pg_up s" "pg_inv s" and ids_def: "ids = queued_candidates locked n (pg_db s)"
  shows "\<exists>s'. claimNextQueued locked uuid n t s = (Inr (zip ids (map uuid [0..<length ids])), s') \<and>
    pg_up s' \<and> pg_inv s' \<and> job_instances (pg_db s') = job_instances (pg_db s) \<and>
    pg_view s' = claim_view (zip ids (map uuid [0..<length ids])) t (pg_view s)"
proof -
  have q: "\<exists>r. pg_view s j = Some r \<and> jr_state r = QUEUED" if "j \<in> set ids" for j
    using candidates_queued [OF assms(2)] that unfolding ids_def by blast
  obtain s' where s': "claim_loop uuid t 0 ids s = (Inr (zip ids (map uuid [0..<0 + length ids])), s')"
    and rest: "pg_up s'" "pg_inv s'" "job_instances (pg_db s') = job_instances (pg_db s)"
      "pg_view s' = claim_view (zip ids (map uuid [0..<0 + length ids])) t (pg_view s)"
    using claim_loop_ok [OF assms(1,2) candidates_distinct [OF assms(2)], of locked n uuid t 0] q
    unfolding ids_def by blast
  have body: "andThen (exec (\<lambda>d. (queued_candidates locked n d, d))) (claim_loop uuid t 0) s =
      (Inr (zip ids (map uuid [0..<length ids])), s')"
    using s' assms(1) by (simp add: andThen_def exec_ok ids_def)
  show ?thesis
    using rest transaction_ok [where body = "andThen (exec (\<lambda>d. (queued_candidates locked n d, d))) (claim_loop uuid t 0)",
        OF assms(1) body rest(1)] assms(1)
    by (simp add: claimNextQueued_def andThen_Inr [where m = exec_control, OF exec_control_ok])
qed

lemma claimNextQueued_result:
  assumes "pg_up s" "pg_inv s" "claimNextQueued locked uuid n t s = (Inr cl, s')"
  shows "map fst cl = queued_candidates locked n (pg_db s)" "pg_inv s'" "pg_up s'"
    "pg_view s' = claim_view cl t (pg_view s)"
    "cl = zip (queued_candidates locked n (pg_db s)) (map uuid [0..<length cl])"
  using claimNextQueued_ok [OF assms(1,2) refl, of locked uuid n t] assms(3) by auto

lemma claim_view_hit:
  "distinct (map fst cl) \<Longrightarrow> (i, u) \<in> set cl \<Longrightarrow> v i = Some r \<Longrightarrow>
   claim_view cl t v i = Some (claim_set u t claimed_status r)"
  by (simp add: claim_view_def)

lemma claim_view_miss: "j \<notin> fst ` set cl \<Longrightarrow> claim_view cl t v j = v j"
proof -
  assume "j \<notin> fst ` set cl"
  then have "map_of cl j = None" by (simp add: map_of_eq_None_iff)
  then show ?thesis by (simp add: claim_view_def)
qed

lemma sorted_take_le:
  assumes "sorted (map f xs)" "x \<in> set (take n xs)" "y \<in> set xs" "y \<notin> set (take n xs)"
  shows "f x \<le> f y"
proof -
  have "sorted (map f (take n xs) @ map f (drop n xs))"
    using assms(1) by (metis append_take_drop_id map_append)
  moreover have "y \<in> set (drop n xs)"
    using assms(3,4) by (metis Un_iff append_take_drop_id set_append)
  ultimately show ?thesis using assms(2) by (auto simp: sorted_append)
qed

lemma jsonb_nullish: "nullish (jsonb v) \<Longrightarrow> \<not> nullish v \<Longrightarrow> jsonb v = JNull"
  by (cases v) (auto split: jsnum.splits)

lemma json_column_idem [simp]: "json_column (json_column v) = json_column v"
  using jsonb_nullish [of v] by (auto simp: json_column_def jsonb_idem)

lemma params_column_idem:
  assumes "nullish v \<or> (\<exists>kvs. v = JObj kvs)"
  shows "jsonb (coalesce (jsonb (coalesce v (JObj []))) (JObj [])) = jsonb (coalesce v (JObj []))"
  using assms jsonb_idem [of v] by (auto simp: coalesce_def)

lemma document_row_idem:
  assumes "nullish (rn_params doc) \<or> (\<exists>kvs. rn_params doc = JObj kvs)"
  shows "documentToRow (rowToDocument (documentToRow doc)) = documentToRow doc"
  using params_column_idem [OF assms] by (simp add: documentToRow_def rowToDocument_def)

section \<open>Sample data\<close>

text \<open>A run row with the given identifier, creation time, state and token, and a database of two queued runs.\<close>

definition blank_run :: "string \<Rightarrow> instant \<Rightarrow> run_state \<Rightarrow> string option \<Rightarrow> run_row" where
  "blank_run i t st d =
    \<lparr>jr_run_id = i, jr_tenant_id = None, jr_instance_id = ''inst'', jr_definition_id = ''def'',
     jr_definition_version = Some 1, jr_scheduled_fire_time = t, jr_state = st, jr_attempt = 1,
     jr_dispatch_id = d, jr_params = JObj [], jr_status = JNull, jr_result = JNull, jr_error = JNull,
     jr_execution_metadata = JNull, jr_runtime_execution = JNull, jr_parent_run_id = None,
     jr_redrive_of_run_id = None, jr_cancel_requested_at = None, jr_cancelled_at = None,
     jr_cancelled_by = None, jr_cancel_reason = None, jr_created_at = t, jr_started_at = None,
     jr_ended_at = None, jr_heartbeat_at = None, jr_updated_at = t\<rparr>"

definition sample_pg :: pg where
  "sample_pg = \<lparr>pg_db = \<lparr>job_runs = [blank_run ''b'' 2 QUEUED None, blank_run ''a'' 1 QUEUED None],
     job_instances = []\<rparr>, pg_faults = []\<rparr>"

definition sample_uuid :: "nat \<Rightarrow> string" where
  "sample_uuid i = (if i = 0 then ''u0'' else if i = 1 then ''u1'' else ''u2'')"

lemmas sample_defs = blank_run_def sample_pg_def sample_uuid_def

lemma sample_pg_ok: "pg_faults sample_pg = []" "keys_ok (pg_db sample_pg)"
  by (simp_all add: sample_defs keys_ok_def)

lemma sample_find:
  "find_run ''a'' (pg_db sample_pg) = Some (blank_run ''a'' 1 QUEUED None)"
  "find_run ''b'' (pg_db sample_pg) = Some (blank_run ''b'' 2 QUEUED None)"
  by (simp_all add: sample_defs find_run_def)

lemma sample_claim:
  "\<exists>s'. claimNextQueued (\<lambda>_. False) sample_uuid 1 5 sample_pg = (Inr [(''a'', ''u0'')], s')"
proof -
  have "queued_candidates (\<lambda>_. False) 1 (pg_db sample_pg) = [''a'']"
    by (simp add: sample_defs queued_candidates_def)
  then show ?thesis
    using claimNextQueued_ok [OF sample_pg_ok refl, of "\<lambda>_. False" sample_uuid 1 5]
    by (auto simp: sample_uuid_def)
qed

section \<open>Properties\<close>




text \<open>
  C23. Two workers never claim the same run: a poll after another worker's claim committed, and a
  poll that runs while the other worker's rows are still locked, both return runs the other
  worker did not get.
\<close>

theorem claimNextQueued_disjoint:
  assumes "pg_faults s = []" and "keys_ok (pg_db s)" and "claimNextQueued lk1 uuid1 n t s = (Inr cl1, s1)"
  shows "(\<forall>lk2 uuid2 m u cl2 s2. claimNextQueued lk2 uuid2 m u s1 = (Inr cl2, s2) \<longrightarrow>
            fst ` set cl1 \<inter> fst ` set cl2 = {}) \<and>
         (\<forall>lk2 uuid2 m u cl2 s2. claimNextQueued lk2 uuid2 m u s = (Inr cl2, s2) \<longrightarrow>
            (\<forall>i \<in> fst ` set cl1. lk2 i) \<longrightarrow> fst ` set cl1 \<inter> fst ` set cl2 = {})"
proof -
  note res1 = claimNextQueued_result [OF assms]
  have dist: "distinct (map fst cl1)" using candidates_distinct [OF assms(2)] res1(1) by metis
  have "fst ` set cl1 \<inter> fst ` set cl2 = {}"
    if c2: "claimNextQueued lk2 uuid2 m u s1 = (Inr cl2, s2)" for lk2 uuid2 m u cl2 s2
  proof -
    have "False" if i: "i \<in> fst ` set cl1" "i \<in> fst ` set cl2" for i
    proof -
      from i(1) obtain tk where tk: "(i, tk) \<in> set cl1" by auto
      from i(1) have "i \<in> set (queued_candidates lk1 n (pg_db s))" using res1(1) by (metis set_map)
      then obtain r where "find_run i (pg_db s) = Some r"
        using candidates_queued [OF assms(2)] by blast
      then have "find_run i (pg_db s1) = Some (claim_set tk t claimed_status r)"
        using claim_view_hit [OF dist tk] fun_cong [OF res1(4), of i] by auto
      moreover have "i \<in> set (queued_candidates lk2 m (pg_db s1))"
        using i(2) claimNextQueued_result(1) [OF res1(3,2) c2] by (metis set_map)
      ultimately show False using candidates_queued [OF res1(2)] by fastforce
    qed
    then show ?thesis by blast
  qed
  moreover have "fst ` set cl1 \<inter> fst ` set cl2 = {}"
    if "claimNextQueued lk2 uuid2 m u s = (Inr cl2, s2)" "\<forall>i \<in> fst ` set cl1. lk2 i" for lk2 uuid2 m u cl2 s2
    using claimNextQueued_result(1) [OF assms(1,2) that(1)] candidates_queued [OF assms(2)] that(2)
    by (metis (no_types, lifting) disjoint_iff set_map)
  ultimately show ?thesis by blast
qed

text \<open>Two polls of one slot each, one after the other, on two queued runs.\<close>

theorem claimNextQueued_disjoint_witness:
  "\<exists>cl1 s1 cl2 s2. claimNextQueued (\<lambda>_. False) sample_uuid 1 5 sample_pg = (Inr cl1, s1) \<and> cl1 \<noteq> [] \<and>
     claimNextQueued (\<lambda>_. False) sample_uuid 1 6 s1 = (Inr cl2, s2) \<and>
     fst ` set cl1 \<inter> fst ` set cl2 = {}"
proof -
  obtain s1 where c: "claimNextQueued (\<lambda>_. False) sample_uuid 1 5 sample_pg = (Inr [(''a'', ''u0'')], s1)"
    using sample_claim by blast
  note r1 = claimNextQueued_result [OF sample_pg_ok c]
  obtain cl2 s2 where c2: "claimNextQueued (\<lambda>_. False) sample_uuid 1 6 s1 = (Inr cl2, s2)"
    using claimNextQueued_ok [OF r1(3,2) refl] by blast
  have "fst ` set [(''a'', ''u0'')] \<inter> fst ` set cl2 = {}"
    by (rule conjunct1 [OF claimNextQueued_disjoint [OF sample_pg_ok c], rule_format, OF c2])
  with c c2 show ?thesis by (intro exI conjI) (assumption | simp)+
qed


text \<open>
  C24. A batch claim is atomic under connection failures: if it throws, whichever statement
  failed, the tables are as before.
\<close>

theorem claimNextQueued_atomic:
  assumes "claimNextQueued locked uuid n t s = (Inl e, s')"
  shows "pg_db s' = pg_db s"
  using assms unfolding claimNextQueued_def
proof (rule andThen_cases)
  fix e' assume "exec_control s = (Inl e', s')"
  then show ?thesis by (metis exec_control_db snd_conv)
next
  fix a s1 assume "exec_control s = (Inr a, s1)"
    and tr: "transaction (andThen (exec (\<lambda>d. (queued_candidates locked n d, d))) (claim_loop uuid t 0)) s1 = (Inl e, s')"
  then have "pg_db s1 = pg_db s" by (metis exec_control_db snd_conv)
  with transaction_atomic [OF tr] show ?thesis by auto
qed

text \<open>The update of the batch fails: \<open>BEGIN\<close> and the select pass, the first \<open>UPDATE\<close> does not.\<close>

theorem claimNextQueued_atomic_witness:
  "\<exists>e s'. claimNextQueued (\<lambda>_. False) sample_uuid 1 5 (sample_pg\<lparr>pg_faults := [False, False, False, True]\<rparr>)
       = (Inl e, s') \<and> pg_db s' = pg_db sample_pg"
proof -
  let ?s = "sample_pg\<lparr>pg_faults := [False, False, False, True]\<rparr>"
  obtain e s' where c: "claimNextQueued (\<lambda>_. False) sample_uuid 1 5 ?s = (Inl e, s')"
    by (simp add: claimNextQueued_def transaction_def andThen_def exec_control_def exec_def
        queued_candidates_def sample_defs)
  from claimNextQueued_atomic [OF c] c show ?thesis by auto
qed


text \<open>
  First in, first out: a \<open>QUEUED\<close>, unlocked run that a batch claim leaves behind is not older
  than any run it took.
\<close>

lemma claimNextQueued_fifo:
  assumes "pg_faults s = []" and "keys_ok (pg_db s)" and "claimNextQueued locked uuid n t s = (Inr cl, s')"
    and "find_run i (pg_db s) = Some r" and "i \<in> fst ` set cl"
    and "find_run j (pg_db s) = Some q" and "jr_state q = QUEUED" and "\<not> locked j" and "j \<notin> fst ` set cl"
  shows "jr_created_at r \<le> jr_created_at q"
proof -
  define xs where "xs = sort_key jr_created_at
    (filter (\<lambda>r. jr_state r = QUEUED \<and> \<not> locked (jr_run_id r)) (job_runs (pg_db s)))"
  have "map fst cl = map jr_run_id (take n xs)"
    using claimNextQueued_result(1) [OF assms(1-3)] by (simp add: queued_candidates_def xs_def)
  from arg_cong [OF this, of set] have ids: "fst ` set cl = jr_run_id ` set (take n xs)" by simp
  have "r \<in> set (take n xs)"
  proof -
    from assms(5) ids obtain r' where r': "r' \<in> set (take n xs)" "jr_run_id r' = i" by auto
    then have "r' \<in> set (job_runs (pg_db s))" by (auto simp: xs_def dest!: in_set_takeD)
    with r' assms(4) in_find_run [OF assms(2)] show ?thesis by fastforce
  qed
  moreover have "q \<in> set xs"
    using assms(6-8) find_run_in find_run_key by (fastforce simp: xs_def)
  moreover have "q \<notin> set (take n xs)"
    using assms(6,9) ids find_run_key by (metis image_eqI)
  moreover have "sorted (map jr_created_at xs)" by (simp add: xs_def)
  ultimately show ?thesis using sorted_take_le [of jr_created_at xs r n q] by blast
qed

text \<open>The older of two queued runs is taken first, although it was inserted last.\<close>

text \<open>
  What is stored is what is read back: after \<open>createRun\<close> of a new run, \<open>getRun\<close> returns the
  document with its JSON members in JSON form, and storing the returned document again writes the
  same row.
\<close>

lemma createRun_getRun_roundtrip:
  assumes "pg_faults s = []" and "keys_ok (pg_db s)" and "find_run (rn_runId doc) (pg_db s) = None"
    and "nullish (rn_params doc) \<or> (\<exists>kvs. rn_params doc = JObj kvs)"
  shows "\<exists>s'. createRun doc s = (Inr True, s') \<and>
    getRun (rn_runId doc) s' = (Inr (Some (rowToDocument (documentToRow doc))), s') \<and>
    documentToRow (rowToDocument (documentToRow doc)) = documentToRow doc"
proof -
  obtain s' where s': "createRun doc s = (Inr True, s')" "pg_faults s' = []"
    and v: "pg_view s' = (pg_view s)(rn_runId doc \<mapsto> documentToRow doc)"
    using createRun_new [OF assms(1-3)] by blast
  have "getRun (rn_runId doc) s' = (Inr (Some (rowToDocument (documentToRow doc))), s')"
    using s'(2) fun_cong [OF v, of "rn_runId doc"] by (simp add: getRun_ok)
  moreover have "documentToRow (rowToDocument (documentToRow doc)) = documentToRow doc"
    using document_row_idem [OF assms(4)] .
  ultimately show ?thesis using s'(1) by blast
qed

text \<open>A third run is stored in the sample database and read back.\<close>

end
