(* ===== verification/Local_Run_Store.thy ===== *)
theory Local_Run_Store
  imports Run_Store
begin

text \<open>
  \<open>LocalRunStore\<close> of \<open>src/src/backends/local/localRunStore.js\<close>, the SQLite store of local mode.
  It answers the same calls as the Postgres store, so it interprets the same laws, but its
  completion writes ignore the dispatch token: it is a \<open>run_store_laws\<close> and not a
  \<open>fenced_run_store\<close>, which the last theorem states. Failures of the embedded database engine
  are not modelled.
\<close>

section \<open>Rows and documents\<close>

text \<open>
  The SQLite database of \<open>backends/local/db.js\<close>. Its \<open>job_runs\<close> table has no
  \<open>execution_metadata\<close> column: the shared row type carries \<open>JNull\<close> there.
\<close>

record sqlite =
  sl_db :: db

definition local_toRow :: "run_doc \<Rightarrow> run_row" where
  "local_toRow doc =
    \<lparr>jr_run_id = rn_runId doc, jr_tenant_id = rn_tenantId doc, jr_instance_id = rn_instanceId doc,
     jr_definition_id = rn_definitionId doc, jr_definition_version = rn_definitionVersion doc,
     jr_scheduled_fire_time = rn_scheduledFireTime doc, jr_state = rn_state doc,
     jr_attempt = (case rn_attempt doc of None \<Rightarrow> 1 | Some n \<Rightarrow> n), jr_dispatch_id = rn_dispatchId doc,
     jr_params = jsonb (coalesce (rn_params doc) (JObj [])),
     jr_status = json_column (rn_status doc), jr_result = json_column (rn_result doc),
     jr_error = json_column (rn_error doc), jr_execution_metadata = JNull,
     jr_runtime_execution = json_column (rn_runtimeExecution doc),
     jr_parent_run_id = rn_parentRunId doc, jr_redrive_of_run_id = rn_redriveOfRunId doc,
     jr_cancel_requested_at = rn_cancelRequestedAt doc, jr_cancelled_at = rn_cancelledAt doc,
     jr_cancelled_by = rn_cancelledBy doc, jr_cancel_reason = rn_cancelReason doc,
     jr_created_at = rn_createdAt doc, jr_started_at = rn_startedAt doc,
     jr_ended_at = rn_endedAt doc, jr_heartbeat_at = rn_heartbeatAt doc,
     jr_updated_at = rn_updatedAt doc\<rparr>"

definition local_fromRow :: "run_row \<Rightarrow> run_doc" where
  "local_fromRow row =
    \<lparr>rn_runId = jr_run_id row, rn_tenantId = jr_tenant_id row, rn_instanceId = jr_instance_id row,
     rn_definitionId = jr_definition_id row, rn_definitionVersion = jr_definition_version row,
     rn_scheduledFireTime = jr_scheduled_fire_time row, rn_state = jr_state row,
     rn_attempt = Some (jr_attempt row), rn_dispatchId = jr_dispatch_id row,
     rn_params = jr_params row, rn_status = jr_status row, rn_result = jr_result row,
     rn_error = jr_error row, rn_executionMetadata = JNull,
     rn_runtimeExecution = jr_runtime_execution row, rn_parentRunId = jr_parent_run_id row,
     rn_redriveOfRunId = jr_redrive_of_run_id row, rn_cancelRequestedAt = jr_cancel_requested_at row,
     rn_cancelledAt = jr_cancelled_at row, rn_cancelledBy = jr_cancelled_by row,
     rn_cancelReason = jr_cancel_reason row, rn_createdAt = jr_created_at row,
     rn_startedAt = jr_started_at row, rn_endedAt = jr_ended_at row,
     rn_heartbeatAt = jr_heartbeat_at row, rn_updatedAt = jr_updated_at row\<rparr>"

section \<open>The operations\<close>

definition lite :: "(db \<Rightarrow> 'a \<times> db) \<Rightarrow> (sqlite, 'a) eff" where
  "lite f s = (Inr (fst (f (sl_db s))), s\<lparr>sl_db := snd (f (sl_db s))\<rparr>)"

definition local_getRun :: "string \<Rightarrow> (sqlite, run_doc option) eff" where
  "local_getRun runId = lite (\<lambda>d. (map_option local_fromRow (find_run runId d), d))"

definition local_insertRun :: "run_doc \<Rightarrow> (sqlite, bool) eff" where
  "local_insertRun document =
     andThen (lite (insert_run (local_toRow document))) (\<lambda>changes. ret (changes = 1))"

definition local_claimRun :: "string \<Rightarrow> instant \<Rightarrow> js \<Rightarrow> (sqlite, claim) eff" where
  "local_claimRun runId startedAt st =
     andThen (lite (update_runs (\<lambda>r. jr_run_id r = runId \<and> jr_state r = QUEUED)
        (\<lambda>r. r\<lparr>jr_state := RUNNING, jr_started_at := Some startedAt, jr_heartbeat_at := Some startedAt,
               jr_status := jsonb (js_or st claimed_status), jr_updated_at := startedAt\<rparr>)))
       (\<lambda>rows. if rows \<noteq> [] then ret (Claimed None)
               else andThen (lite (\<lambda>d. (find_run runId d \<noteq> None, d)))
                      (\<lambda>exists. ret (if exists then NotClaimed else MissingRun)))"

definition local_recordRuntimeExecution :: "string \<Rightarrow> js \<Rightarrow> instant \<Rightarrow> js \<Rightarrow> (sqlite, bool) eff" where
  "local_recordRuntimeExecution runId runtimeExecution startedAt st =
     andThen (lite (update_runs (\<lambda>r. jr_run_id r = runId \<and> jr_state r = RUNNING)
        (\<lambda>r. r\<lparr>jr_runtime_execution := jsonb runtimeExecution, jr_heartbeat_at := Some startedAt,
               jr_status := jsonb (js_or st (status_of ''dispatched'' ''Run dispatched to isolated runtime'')),
               jr_updated_at := startedAt\<rparr>)))
       (\<lambda>rows. ret (rows \<noteq> []))"

definition local_markSucceeded :: "string \<Rightarrow> instant \<Rightarrow> js \<Rightarrow> js \<Rightarrow> (sqlite, bool) eff" where
  "local_markSucceeded runId endedAt res st =
     andThen (lite (update_runs (\<lambda>r. jr_run_id r = runId \<and> jr_state r = RUNNING)
        (\<lambda>r. r\<lparr>jr_state := SUCCEEDED, jr_ended_at := Some endedAt, jr_heartbeat_at := Some endedAt,
               jr_status := jsonb (js_or st (status_of ''succeeded'' ''Run completed successfully'')),
               jr_result := json_column res, jr_error := JNull, jr_updated_at := endedAt\<rparr>)))
       (\<lambda>rows. ret (rows \<noteq> []))"

definition local_markFailed :: "string \<Rightarrow> instant \<Rightarrow> js \<Rightarrow> js \<Rightarrow> (sqlite, bool) eff" where
  "local_markFailed runId endedAt er st =
     andThen (lite (update_runs (\<lambda>r. jr_run_id r = runId \<and> jr_state r = RUNNING)
        (\<lambda>r. r\<lparr>jr_state := FAILED, jr_ended_at := Some endedAt, jr_heartbeat_at := Some endedAt,
               jr_status := jsonb (js_or st (status_of ''failed'' ''Run failed in worker runtime executor'')),
               jr_error := json_column er, jr_updated_at := endedAt\<rparr>)))
       (\<lambda>rows. ret (rows \<noteq> []))"

text \<open>
  The generated statement assigns \<open>updated_at\<close> twice; SQLite keeps the last assignment, the
  server clock.
\<close>

definition local_transition ::
  "string \<Rightarrow> run_state list \<Rightarrow> run_assign list \<Rightarrow> instant \<Rightarrow> (sqlite, run_doc option) eff" where
  "local_transition runId fromStates assigns dbNow =
     andThen (lite (update_runs (\<lambda>r. jr_run_id r = runId \<and> jr_state r \<in> set fromStates)
                (assign_all assigns dbNow)))
       (\<lambda>rows. if rows = [] then ret None
               else lite (\<lambda>d. (map_option local_fromRow (find_run runId d), d)))"

definition local_listQueuedRunIds :: "nat \<Rightarrow> (sqlite, string list) eff" where
  "local_listQueuedRunIds limit =
     lite (\<lambda>d. (map jr_run_id (take limit (sort_key jr_created_at
                  (filter (\<lambda>r. jr_state r = QUEUED) (job_runs d)))), d))"

definition local_listRunsForInstance :: "string \<Rightarrow> nat \<Rightarrow> string option \<Rightarrow> (sqlite, run_doc list) eff" where
  "local_listRunsForInstance instanceId limit st =
     lite (\<lambda>d. (map local_fromRow (take limit (sort_key (\<lambda>r. - int (jr_created_at r))
                  (filter (\<lambda>r. jr_instance_id r = instanceId \<and>
                               (truthy_str st \<longrightarrow> Some (state_text (jr_state r)) = st)) (job_runs d)))), d))"

text \<open>The store object: the UUID of a claim and the tokens of the completion writes are not used.\<close>

definition LocalRunStore :: "sqlite run_store" where
  "LocalRunStore = \<lparr>rs_getRun = local_getRun, rs_createRun = local_insertRun,
     rs_claimRun = (\<lambda>uuid. local_claimRun),
     rs_recordRuntimeExecution = (\<lambda>i ex t st d. local_recordRuntimeExecution i ex t st),
     rs_markSucceeded = (\<lambda>i t res st d. local_markSucceeded i t res st),
     rs_markFailed = (\<lambda>i t er st d. local_markFailed i t er st),
     rs_transition = local_transition, rs_listQueuedRunIds = local_listQueuedRunIds\<rparr>"

section \<open>The SQLite store keeps the laws\<close>

definition lite_inv :: "sqlite \<Rightarrow> bool" where
  "lite_inv s \<longleftrightarrow> keys_ok (sl_db s) \<and> (\<forall>r \<in> set (job_runs (sl_db s)). jr_execution_metadata r = JNull)"

abbreviation lite_view :: "sqlite \<Rightarrow> string \<Rightarrow> run_row option" where
  "lite_view s \<equiv> (\<lambda>i. find_run i (sl_db s))"

lemma local_fromRow_eq: "jr_execution_metadata r = JNull \<Longrightarrow> local_fromRow r = rowToDocument r"
  by (simp add: local_fromRow_def rowToDocument_def)

lemma lite_view_metadata: "lite_inv s \<Longrightarrow> lite_view s i = Some r \<Longrightarrow> jr_execution_metadata r = JNull"
  by (auto simp: lite_inv_def dest: find_run_in)

lemma lite_one_hit:
  assumes "lite_inv s" "lite_view s i = Some r" "Q r" "\<And>x. jr_run_id (f x) = jr_run_id x"
    "\<And>x. jr_execution_metadata (f x) = jr_execution_metadata x"
  shows "\<exists>s'. lite (update_runs (\<lambda>x. jr_run_id x = i \<and> Q x) f) s = (Inr [f r], s') \<and>
    lite_inv s' \<and> lite_view s' = (lite_view s)(i \<mapsto> f r)"
  using assms update_one_hit [of "sl_db s" i r Q f] update_runs_keys [of f "sl_db s"]
  by (auto simp: lite_def lite_inv_def) (auto simp: update_runs_def)

lemma lite_one_miss:
  assumes "lite_inv s" "\<And>r. lite_view s i = Some r \<Longrightarrow> \<not> Q r"
  shows "lite (update_runs (\<lambda>x. jr_run_id x = i \<and> Q x) f) s = (Inr [], s)"
  using assms update_one_miss [of "sl_db s" i Q f] by (simp add: lite_def lite_inv_def)

lemma assign_column_metadata [simp]: "jr_execution_metadata (assign_column a r) = jr_execution_metadata r"
  by (cases a) auto

lemma assign_all_metadata [simp]: "jr_execution_metadata (assign_all assigns now r) = jr_execution_metadata r"
proof -
  have "jr_execution_metadata (fold assign_column assigns r) = jr_execution_metadata r"
    by (induction assigns arbitrary: r) auto
  then show ?thesis by (simp add: assign_all_def)
qed

lemma js_or_coalesce: "nullish st \<or> truthy st \<Longrightarrow> js_or st v = coalesce st v"
  by (cases st) (auto simp: js_or_def coalesce_def)

lemma local_get_ok: "lite_inv s \<Longrightarrow> local_getRun i s = (Inr (map_option rowToDocument (lite_view s i)), s)"
  using lite_view_metadata [of s i] local_fromRow_eq
  by (cases "lite_view s i") (auto simp: local_getRun_def lite_def)

lemma local_create_new:
  assumes "lite_inv s" "lite_view s (rn_runId doc) = None"
  shows "\<exists>s'. local_insertRun doc s = (Inr True, s') \<and> lite_inv s' \<and>
    lite_view s' = (lite_view s)(rn_runId doc \<mapsto> local_toRow doc)"
proof -
  have k: "jr_run_id (local_toRow doc) = rn_runId doc" by (simp add: local_toRow_def)
  have ins: "insert_run (local_toRow doc) (sl_db s) =
      (1, (sl_db s)\<lparr>job_runs := job_runs (sl_db s) @ [local_toRow doc]\<rparr>)"
    using assms(2) by (simp add: insert_run_def k)
  let ?s' = "s\<lparr>sl_db := (sl_db s)\<lparr>job_runs := job_runs (sl_db s) @ [local_toRow doc]\<rparr>\<rparr>"
  have "lite_view ?s' = (lite_view s)(rn_runId doc \<mapsto> local_toRow doc)"
    using insert_run_find [of _ "local_toRow doc" "sl_db s"] assms(2)
    by (auto simp: ins k split: option.splits)
  moreover have "lite_inv ?s'"
    using assms(1) insert_run_keys [of "sl_db s" "local_toRow doc"]
    by (auto simp: lite_inv_def ins) (simp add: local_toRow_def)
  ultimately show ?thesis by (auto simp: local_insertRun_def andThen_def lite_def ins)
qed

lemma local_create_dup:
  "lite_view s (rn_runId doc) \<noteq> None \<Longrightarrow> local_insertRun doc s = (Inr False, s)"
  by (auto simp: local_insertRun_def andThen_def lite_def insert_run_def local_toRow_def)

lemma local_claim_hit:
  assumes "lite_inv s" "lite_view s i = Some r" "jr_state r = QUEUED"
  shows "\<exists>d r' s'. local_claimRun i t st s = (Inr (Claimed d), s') \<and> lite_inv s' \<and>
        lite_view s' = (lite_view s)(i \<mapsto> r') \<and> jr_state r' = RUNNING \<and> jr_started_at r' = Some t \<and>
        jr_attempt r' = jr_attempt r \<and> fence d r' \<and>
        r' = r\<lparr>jr_state := RUNNING, jr_started_at := Some t, jr_heartbeat_at := Some t,
               jr_status := jr_status r', jr_dispatch_id := jr_dispatch_id r', jr_updated_at := t\<rparr>"
proof -
  let ?f = "\<lambda>r. r\<lparr>jr_state := RUNNING, jr_started_at := Some t, jr_heartbeat_at := Some t,
               jr_status := jsonb (js_or st claimed_status), jr_updated_at := t\<rparr>"
  obtain s' where s': "lite (update_runs (\<lambda>r. jr_run_id r = i \<and> jr_state r = QUEUED) ?f) s = (Inr [?f r], s')"
    and rest: "lite_inv s'" "lite_view s' = (lite_view s)(i \<mapsto> ?f r)"
    using lite_one_hit [of s i r "\<lambda>r. jr_state r = QUEUED" ?f] assms by auto
  have "local_claimRun i t st s = (Inr (Claimed None), s')"
    by (simp add: local_claimRun_def andThen_Inr [where m = "lite _", OF s'])
  with rest show ?thesis
    by (intro exI [where x = None] exI [where x = "?f r"] exI [where x = s'] conjI) (simp_all add: fence_def)
qed

lemma local_claim_miss:
  assumes "lite_inv s" "\<And>r. lite_view s i = Some r \<Longrightarrow> jr_state r \<noteq> QUEUED"
  shows "local_claimRun i t st s = (Inr (if lite_view s i = None then MissingRun else NotClaimed), s)"
  using lite_one_miss [where s = s and i = i and Q = "\<lambda>r. jr_state r = QUEUED", OF assms]
  by (simp add: local_claimRun_def andThen_def) (simp add: lite_def)

lemma local_mark_shape:
  assumes "nullish st \<or> truthy st"
  shows "local_markSucceeded i t res st =
      andThen (lite (update_runs (\<lambda>r. jr_run_id r = i \<and> jr_state r = RUNNING) (succeeded_set t res st)))
        (\<lambda>rows. ret (rows \<noteq> []))"
    and "local_markFailed i t er st =
      andThen (lite (update_runs (\<lambda>r. jr_run_id r = i \<and> jr_state r = RUNNING) (failed_set t er st)))
        (\<lambda>rows. ret (rows \<noteq> []))"
  using assms
  by (simp_all add: local_markSucceeded_def local_markFailed_def succeeded_set_def [abs_def]
      failed_set_def [abs_def] js_or_coalesce)

lemma lite_mark_hit:
  assumes "lite_inv s" "lite_view s i = Some r" "jr_state r = RUNNING"
    "\<And>x. jr_run_id (f x) = jr_run_id x" "\<And>x. jr_execution_metadata (f x) = jr_execution_metadata x"
  shows "\<exists>s'. andThen (lite (update_runs (\<lambda>r. jr_run_id r = i \<and> jr_state r = RUNNING) f))
      (\<lambda>rows. ret (rows \<noteq> [])) s = (Inr True, s') \<and> lite_inv s' \<and> lite_view s' = (lite_view s)(i \<mapsto> f r)"
proof -
  obtain s' where s': "lite (update_runs (\<lambda>r. jr_run_id r = i \<and> jr_state r = RUNNING) f) s = (Inr [f r], s')"
    and rest: "lite_inv s'" "lite_view s' = (lite_view s)(i \<mapsto> f r)"
    using lite_one_hit [of s i r "\<lambda>r. jr_state r = RUNNING" f] assms by blast
  with rest show ?thesis by (auto simp: andThen_Inr [where m = "lite _", OF s'])
qed

lemma local_succeed_hit:
  assumes "lite_inv s" "lite_view s i = Some r" "jr_state r = RUNNING" "nullish st \<or> truthy st"
  shows "\<exists>s'. local_markSucceeded i t res st s = (Inr True, s') \<and> lite_inv s' \<and>
    lite_view s' = (lite_view s)(i \<mapsto> succeeded_set t res st r)"
  unfolding local_mark_shape(1) [OF assms(4)]
  by (rule lite_mark_hit [OF assms(1-3)]) (simp_all add: succeeded_set_def)

lemma local_fail_hit:
  assumes "lite_inv s" "lite_view s i = Some r" "jr_state r = RUNNING" "nullish st \<or> truthy st"
  shows "\<exists>s'. local_markFailed i t er st s = (Inr True, s') \<and> lite_inv s' \<and>
    lite_view s' = (lite_view s)(i \<mapsto> failed_set t er st r)"
  unfolding local_mark_shape(2) [OF assms(4)]
  by (rule lite_mark_hit [OF assms(1-3)]) (simp_all add: failed_set_def)

lemma local_mark_miss:
  assumes "lite_inv s" "\<And>r. lite_view s i = Some r \<Longrightarrow> jr_state r \<noteq> RUNNING"
  shows "local_markSucceeded i t res st s = (Inr False, s)" "local_markFailed i t er st s = (Inr False, s)"
  using lite_one_miss [where s = s and i = i and Q = "\<lambda>r. jr_state r = RUNNING", OF assms]
  by (simp_all add: local_markSucceeded_def local_markFailed_def andThen_def)

lemma local_transition_hit:
  assumes "lite_inv s" "lite_view s i = Some r" "jr_state r \<in> set sts"
  shows "\<exists>s'. local_transition i sts assigns now s = (Inr (Some (rowToDocument (assign_all assigns now r))), s') \<and>
    lite_inv s' \<and> lite_view s' = (lite_view s)(i \<mapsto> assign_all assigns now r)"
proof -
  obtain s' where s': "lite (update_runs (\<lambda>r. jr_run_id r = i \<and> jr_state r \<in> set sts) (assign_all assigns now)) s =
      (Inr [assign_all assigns now r], s')"
    and rest: "lite_inv s'" "lite_view s' = (lite_view s)(i \<mapsto> assign_all assigns now r)"
    using lite_one_hit [of s i r "\<lambda>r. jr_state r \<in> set sts" "assign_all assigns now"] assms by auto
  have "local_fromRow (assign_all assigns now r) = rowToDocument (assign_all assigns now r)"
    using lite_view_metadata [OF assms(1,2)] by (simp add: local_fromRow_eq)
  then have "local_transition i sts assigns now s = (Inr (Some (rowToDocument (assign_all assigns now r))), s')"
    using fun_cong [OF rest(2), of i]
    by (simp add: local_transition_def andThen_Inr [where m = "lite _", OF s'] lite_def)
  with rest show ?thesis by blast
qed

lemma local_transition_miss:
  assumes "lite_inv s" "\<And>r. lite_view s i = Some r \<Longrightarrow> jr_state r \<notin> set sts"
  shows "local_transition i sts assigns now s = (Inr None, s)"
  using lite_one_miss [where s = s and i = i and Q = "\<lambda>r. jr_state r \<in> set sts", OF assms]
  by (simp add: local_transition_def andThen_def)

interpretation lrs: run_store_laws LocalRunStore lite_view local_toRow "\<lambda>_. True" lite_inv
proof (unfold_locales, goal_cases)
  case (6 db i) then show ?case using local_get_ok by (simp add: LocalRunStore_def)
next
  case (7 db doc) then show ?case using local_create_new by (simp add: LocalRunStore_def)
next
  case (8 db doc) then show ?case using local_create_dup by (simp add: LocalRunStore_def)
next
  case (9 db i r u t st) then show ?case using local_claim_hit by (simp add: LocalRunStore_def)
next
  case (10 db i r u t st) then show ?case using local_claim_miss [of db i t st] by (simp add: LocalRunStore_def)
next
  case (11 db i u t st) then show ?case using local_claim_miss [of db i t st] by (simp add: LocalRunStore_def)
next
  case (12 db i r d st t res) then show ?case using local_succeed_hit by (simp add: LocalRunStore_def)
next
  case (13 db i t res st d) then show ?case using local_mark_miss(1) by (simp add: LocalRunStore_def)
next
  case (14 db i r d st t er) then show ?case using local_fail_hit by (simp add: LocalRunStore_def)
next
  case (15 db i t er st d) then show ?case using local_mark_miss(2) by (simp add: LocalRunStore_def)
next
  case (16 db i r sts assigns now) then show ?case using local_transition_hit by (simp add: LocalRunStore_def)
next
  case (17 db i sts assigns now) then show ?case using local_transition_miss by (simp add: LocalRunStore_def)
qed (auto simp: local_toRow_def find_run_key)

section \<open>Properties\<close>

text \<open>
  The SQLite store is not fenced: a completion that presents the token of an earlier attempt
  (any token at all) still ends the running attempt. This is where it is weaker than the store
  whose interface it copies.
\<close>

lemma local_store_unfenced:
  assumes "lite_inv s" and "find_run i (sl_db s) = Some r" and "jr_state r = RUNNING"
    and "nullish st \<or> truthy st"
  shows "\<exists>s'. rs_markSucceeded LocalRunStore i t res st (Some stale_token) s = (Inr True, s') \<and>
    find_run i (sl_db s') = Some (succeeded_set t res st r)"
proof -
  obtain s' where s': "local_markSucceeded i t res st s = (Inr True, s')"
    and v: "lite_view s' = (lite_view s)(i \<mapsto> succeeded_set t res st r)"
    using local_succeed_hit [OF assms] by blast
  from fun_cong [OF v, of i] s' show ?thesis by (simp add: LocalRunStore_def)
qed

text \<open>A run whose current token is \<open>''new''\<close> is completed by a caller that presents \<open>''old''\<close>.\<close>

end
