(* ===== verification/Retry_Classifier.thy ===== *)
theory Retry_Classifier
  imports Sched_Prelude
begin

text \<open>
  The retry classification of worker errors (\<open>src/src/services/retryClassifier.js\<close>): the code
  tables, the HTTP status tables and \<open>classifyWorkerError\<close>. The theorems characterise the
  verdict for every error and show which of the tables can decide at all.
\<close>

definition NON_RETRYABLE_CODES :: "string list" where
  "NON_RETRYABLE_CODES =
    [''RUN_DEFINITION_MISSING'', ''DEFINITION_NOT_FOUND'', ''DEFINITION_NOT_ACTIVE'',
     ''DEFINITION_VERSION_MISMATCH'', ''DEFINITION_ARTIFACT_MISSING'', ''ARTIFACT_URI_INVALID'',
     ''ARTIFACT_SHA256_MISMATCH'', ''ARTIFACT_ZIP_INVALID'', ''RUNTIME_ARTIFACT_BUFFER_REQUIRED'',
     ''RUNTIME_ARTIFACT_SHA256_MISMATCH'', ''RUNTIME_ARTIFACT_URI_INVALID'',
     ''RUNTIME_ENTRYPOINT_INVALID'', ''RUNTIME_ENTRYPOINT_REQUIRED'', ''RUNTIME_RESULT_JSON_INVALID'',
     ''RUNTIME_RESULT_MISSING'', ''RUNTIME_RESULT_OUTPUT_TOO_LARGE'', ''RUNTIME_UNSUPPORTED'',
     ''RUNTIME_VERSION_UNSUPPORTED'']"

definition RETRYABLE_CODES :: "string list" where
  "RETRYABLE_CODES =
    [''ARTIFACT_DOWNLOAD_FAILED'', ''RUNTIME_ARTIFACT_DOWNLOAD_FAILED'', ''WORKER_EXECUTION_FAILED'',
     ''WORKER_TIMEOUT'', ''RUNTIME_PROCESS_EXITED_NON_ZERO'', ''RUNTIME_PROCESS_TIMED_OUT'']"

definition NON_RETRYABLE_HTTP_STATUS_CODES :: "rat list" where
  "NON_RETRYABLE_HTTP_STATUS_CODES = [400, 401, 403, 404, 409, 410, 422]"

definition RETRYABLE_HTTP_STATUS_CODES :: "rat list" where
  "RETRYABLE_HTTP_STATUS_CODES = [408, 425, 429, 500, 502, 503, 504]"

text \<open>\<open>set.has(v)\<close> for a set of strings and for a set of numbers.\<close>

fun has_str :: "string list \<Rightarrow> js \<Rightarrow> bool" where
  "has_str xs (JStr s) = (s \<in> set xs)"
| "has_str xs _ = False"

fun has_num :: "rat list \<Rightarrow> js \<Rightarrow> bool" where
  "has_num xs (JNum (Fin q)) = (q \<in> set xs)"
| "has_num xs _ = False"

text \<open>Template-literal text of a value that passed one of the two membership tests.\<close>

fun show_digits :: "nat \<Rightarrow> nat \<Rightarrow> string" where
  "show_digits 0 n = []"
| "show_digits (Suc w) n = show_digits w (n div 10) @ [''0123456789'' ! (n mod 10)]"

fun show_member :: "js \<Rightarrow> string" where
  "show_member (JStr s) = s"
| "show_member (JNum (Fin q)) = show_digits 3 (nat \<lfloor>q\<rfloor>)"
| "show_member _ = []"

definition statusCodeFromError :: "js_error \<Rightarrow> js" where
  "statusCodeFromError e = js_or (js_or (e_statusCode e) (e_meta_statusCode e)) (e_body_status e)"

record classification =
  cl_retryable :: bool
  cl_classification :: string
  cl_reason :: string

definition classification_of :: "bool \<Rightarrow> string \<Rightarrow> classification" where
  "classification_of b reason =
     \<lparr>cl_retryable = b, cl_classification = (if b then ''RETRYABLE'' else ''NON_RETRYABLE''),
      cl_reason = reason\<rparr>"

definition classifyWorkerError :: "js_error \<Rightarrow> classification" where
  "classifyWorkerError error =
     (case e_retryable error of
        JBool b \<Rightarrow> classification_of b ''explicit_error_retryable_flag''
      | _ \<Rightarrow>
        let code = js_or (e_code error) (JStr ''WORKER_EXECUTION_FAILED'') in
        if has_str NON_RETRYABLE_CODES code
        then classification_of False (''non_retryable_code:'' @ show_member code)
        else if has_str RETRYABLE_CODES code
        then classification_of True (''retryable_code:'' @ show_member code)
        else
          let statusCode = statusCodeFromError error in
          if has_num NON_RETRYABLE_HTTP_STATUS_CODES statusCode
          then classification_of False (''non_retryable_http_status:'' @ show_member statusCode)
          else if has_num RETRYABLE_HTTP_STATUS_CODES statusCode
          then classification_of True (''retryable_http_status:'' @ show_member statusCode)
          else classification_of True ''default_retryable_worker_failure'')"

text \<open>The classification as the object that is stored in a run's \<open>error.retry\<close>.\<close>

definition js_of_classification :: "classification \<Rightarrow> js" where
  "js_of_classification c = JObj [(''retryable'', JBool (cl_retryable c)),
     (''classification'', JStr (cl_classification c)), (''reason'', JStr (cl_reason c))]"

section \<open>Lemmas\<close>

lemmas classifier_tables = NON_RETRYABLE_CODES_def RETRYABLE_CODES_def
  NON_RETRYABLE_HTTP_STATUS_CODES_def RETRYABLE_HTTP_STATUS_CODES_def

lemma has_str_iff: "has_str xs v \<longleftrightarrow> (\<exists>s \<in> set xs. v = JStr s)"
  by (cases v) auto

lemma classification_label:
  "cl_classification (classifyWorkerError e) =
     (if cl_retryable (classifyWorkerError e) then ''RETRYABLE'' else ''NON_RETRYABLE'')"
  by (simp add: classifyWorkerError_def classification_of_def Let_def split: js.splits)

lemma codeless_is_retryable_code:
  "\<not> truthy (e_code e) \<Longrightarrow> has_str RETRYABLE_CODES (js_or (e_code e) (JStr ''WORKER_EXECUTION_FAILED''))"
  by (simp add: js_or_def RETRYABLE_CODES_def)

lemma tables_disjoint: "set NON_RETRYABLE_CODES \<inter> set RETRYABLE_CODES = {}"
  by (simp add: classifier_tables)

section \<open>Properties\<close>

text \<open>
  The verdict of \<open>classifyWorkerError\<close> in one equation, for every error: an explicit boolean
  flag decides; otherwise the error is retryable unless its code is in the non-retryable table,
  or its code is in neither table and its HTTP status is in the non-retryable statuses.
\<close>

lemma classifyWorkerError_verdict:
  "cl_retryable (classifyWorkerError e) =
     (case e_retryable e of
        JBool b \<Rightarrow> b
      | _ \<Rightarrow> \<not> has_str NON_RETRYABLE_CODES (e_code e) \<and>
             (truthy (e_code e) \<and> \<not> has_str RETRYABLE_CODES (e_code e) \<longrightarrow>
              \<not> has_num NON_RETRYABLE_HTTP_STATUS_CODES (statusCodeFromError e)))"
proof (cases "truthy (e_code e)")
  case True
  then show ?thesis
    by (auto simp: classifyWorkerError_def classification_of_def js_or_def Let_def split: js.splits)
next
  case False
  then have c: "js_or (e_code e) (JStr ''WORKER_EXECUTION_FAILED'') = JStr ''WORKER_EXECUTION_FAILED''"
    by (simp add: js_or_def)
  have n: "\<not> has_str NON_RETRYABLE_CODES (e_code e)"
    using False by (auto simp: has_str_iff NON_RETRYABLE_CODES_def)
  have "has_str RETRYABLE_CODES (JStr ''WORKER_EXECUTION_FAILED'')"
    and "\<not> has_str NON_RETRYABLE_CODES (JStr ''WORKER_EXECUTION_FAILED'')"
    by (simp_all add: classifier_tables)
  with c n False show ?thesis
    by (simp add: classifyWorkerError_def classification_of_def Let_def split: js.splits)
qed

text \<open>
  The HTTP status tables never decide about an error without a code: such an error is always
  reported as the retryable code \<open>WORKER_EXECUTION_FAILED\<close>, whatever its status code (a 404
  \<open>run not found\<close> included).
\<close>

lemma classifyWorkerError_codeless:
  assumes "\<not> truthy (e_code e)" and "\<And>b. e_retryable e \<noteq> JBool b"
  shows "classifyWorkerError e =
    \<lparr>cl_retryable = True, cl_classification = ''RETRYABLE'',
     cl_reason = ''retryable_code:WORKER_EXECUTION_FAILED''\<rparr>"
proof -
  have "js_or (e_code e) (JStr ''WORKER_EXECUTION_FAILED'') = JStr ''WORKER_EXECUTION_FAILED''"
    using assms(1) by (simp add: js_or_def)
  moreover have "has_str RETRYABLE_CODES (JStr ''WORKER_EXECUTION_FAILED'')"
    and "\<not> has_str NON_RETRYABLE_CODES (JStr ''WORKER_EXECUTION_FAILED'')"
    by (simp_all add: classifier_tables)
  ultimately show ?thesis
    using assms(2) by (simp add: classifyWorkerError_def classification_of_def Let_def split: js.splits)
qed

text \<open>The 404 of a run that was not found.\<close>

end
