(* ===== verification/Zip_Policy.thy ===== *)
theory Zip_Policy
  imports Sched_Prelude "HOL-Library.Word"
begin

text \<open>
  The path functions of Node's \<open>path.posix\<close> the sources use, and the entry policy of
  \<open>src/src/utils/zipArtifactPolicy.js\<close>. External file attributes are 32-bit words.
\<close>

unbundle bit_operations_syntax

section \<open>POSIX paths\<close>

text \<open>
  \<open>normalizeString\<close> of Node's path module on the segments of a path: empty and \<open>.\<close> segments are
  dropped, \<open>..\<close> removes the segment before it; above the root it is kept when \<open>allowAboveRoot\<close>
  holds and dropped otherwise. The stack holds the last segment first.
\<close>

definition norm_segment :: "bool \<Rightarrow> string list \<Rightarrow> string \<Rightarrow> string list" where
  "norm_segment allowAboveRoot stack seg =
     (if seg = [] \<or> seg = ''.'' then stack
      else if seg = ''..''
      then (case stack of
              w # rest \<Rightarrow> if w = ''..'' then (if allowAboveRoot then ''..'' # stack else stack) else rest
            | [] \<Rightarrow> if allowAboveRoot then [''..''] else [])
      else seg # stack)"

definition norm_segments :: "bool \<Rightarrow> string \<Rightarrow> string list" where
  "norm_segments allowAboveRoot p = rev (foldl (norm_segment allowAboveRoot) [] (split_on (CHR ''/'') p))"

definition path_isAbsolute :: "string \<Rightarrow> bool" where
  "path_isAbsolute p = startsWith p ''/''"

definition path_normalize :: "string \<Rightarrow> string" where
  "path_normalize p =
     (if p = [] then ''.''
      else let abs = path_isAbsolute p; trailing = endsWith p ''/'';
               body = join_with ''/'' (norm_segments (\<not> abs) p) in
        if body = [] then (if abs then ''/'' else if trailing then ''./'' else ''.'')
        else (if abs then ''/'' else []) @ body @ (if trailing then ''/'' else []))"

text \<open>
  \<open>path.resolve(cwd, ...args)\<close> reads its arguments from the right until one is absolute; the
  arguments are given here from the right, the working directory last.
\<close>

fun resolve_scan :: "string list \<Rightarrow> string \<Rightarrow> string \<times> bool" where
  "resolve_scan [] acc = (acc, False)"
| "resolve_scan (p # ps) acc =
     (if p = [] then resolve_scan ps acc
      else if path_isAbsolute p then (p @ ''/'' @ acc, True)
      else resolve_scan ps (p @ ''/'' @ acc))"

definition path_resolve :: "string \<Rightarrow> string list \<Rightarrow> string" where
  "path_resolve cwd args =
     (case resolve_scan (rev args @ [cwd]) [] of
        (p, True) \<Rightarrow> ''/'' @ join_with ''/'' (norm_segments False p)
      | (p, False) \<Rightarrow> (let b = join_with ''/'' (norm_segments True p) in if b = [] then ''.'' else b))"

section \<open>The entry policy\<close>

definition DENIED_FILENAMES :: "string list" where
  "DENIED_FILENAMES = [''.env'', ''.npmrc'', ''.pypirc'', ''.netrc'', ''secrets.json'',
     ''credentials.json'', ''id_rsa'', ''id_dsa'', ''id_ecdsa'', ''id_ed25519'']"

definition DENIED_DIRECTORY_NAMES :: "string list" where
  "DENIED_DIRECTORY_NAMES = [''.git'', ''.ssh'', ''.aws'', ''.gcp'', ''.azure'']"

text \<open>\<open>value.trim() === ""\<close>.\<close>

definition blank :: "string \<Rightarrow> bool" where
  "blank s = list_all js_space s"

definition unsafePath :: "string \<Rightarrow> string \<Rightarrow> js_error" where
  "unsafePath label value = newError (''unsafe '' @ label @ '' path: '' @ value)"

definition normalizeZipRelativePath :: "string \<Rightarrow> string \<Rightarrow> js_error + string" where
  "normalizeZipRelativePath value label =
     (if blank value then Inl (unsafePath label value)
      else if CHR 0x5C \<in> set value then Inl (unsafePath label value)
      else if path_isAbsolute value then Inl (unsafePath label value)
      else let normalized = path_normalize value in
        if normalized = ''.'' \<or> normalized = ''..'' \<or> startsWith normalized ''../''
        then Inl (unsafePath label value)
        else Inr normalized)"

definition isZipEntryDirectory :: "string \<Rightarrow> bool" where
  "isZipEntryDirectory entryName = endsWith entryName ''/''"

text \<open>
  What the ZIP library reports of an entry. \<open>ze_stream\<close> is the outcome of reading its content: the
  message of an open error, or the chunks and the message of an error that ends the stream.
\<close>

record zip_entry =
  ze_fileName :: string
  ze_externalFileAttributes :: "32 word"
  ze_uncompressedSize :: nat
  ze_stream :: "string + string list \<times> string option"

text \<open>JavaScript's \<open>>>\<close> shifts the signed 32-bit value.\<close>

definition isZipEntrySymlink :: "zip_entry \<Rightarrow> bool" where
  "isZipEntrySymlink entry =
     (let attrs = ze_externalFileAttributes entry;
          unixMode = signed_drop_bit 16 attrs AND 0xF000;
          dosDirectoryFlag = attrs AND 0x10 in
      if unixMode = 0xA000 then True
      else if unixMode = 0 \<and> dosDirectoryFlag = 0 \<and> endsWith (ze_fileName entry) ''.lnk'' then True
      else False)"

definition isDeniedPath :: "string \<Rightarrow> bool" where
  "isDeniedPath name =
     (\<exists>part \<in> set (filter (\<lambda>w. w \<noteq> []) (split_on (CHR ''/'') name)).
        part \<in> set DENIED_FILENAMES \<or> part \<in> set DENIED_DIRECTORY_NAMES)"

definition validateZipEntryPolicy :: "string \<Rightarrow> zip_entry \<Rightarrow> js_error + string" where
  "validateZipEntryPolicy entryName entry =
     (case normalizeZipRelativePath entryName ''zip entry'' of
        Inl e \<Rightarrow> Inl e
      | Inr normalizedName \<Rightarrow>
          if isDeniedPath normalizedName then Inl (newError (''Denied file in zip: '' @ entryName))
          else if isZipEntrySymlink entry then Inl (newError (''Symlinks are not allowed: '' @ entryName))
          else Inr normalizedName)"

section \<open>Lemmas\<close>

text \<open>A segment that names a file or directory.\<close>

definition clean :: "string \<Rightarrow> bool" where
  "clean w \<longleftrightarrow> w \<noteq> [] \<and> w \<noteq> ''.'' \<and> w \<noteq> ''..'' \<and> CHR ''/'' \<notin> set w"

lemma split_on_join2: "split_on d (a @ d # b) = split_on d a @ split_on d b"
proof (induction a)
  case (Cons c a)
  then show ?case by (cases "split_on d a") auto
qed simp

lemma split_on_join:
  "ws \<noteq> [] \<Longrightarrow> (\<And>w. w \<in> set ws \<Longrightarrow> d \<notin> set w) \<Longrightarrow> split_on d (join_with [d] ws) = ws"
proof (induction ws)
  case (Cons w ws)
  show ?case
  proof (cases ws)
    case Nil
    with Cons.prems show ?thesis by (simp add: split_on_none)
  next
    case (Cons v vs)
    have "split_on d (join_with [d] ws) = ws" using Cons.IH Cons.prems Cons by auto
    with Cons Cons.prems show ?thesis by (simp add: split_on_append)
  qed
qed simp

lemma join_with_empty: "(\<And>w. w \<in> set ws \<Longrightarrow> w \<noteq> []) \<Longrightarrow> join_with d ws = [] \<longleftrightarrow> ws = []"
  by (induction d ws rule: join_with.induct) auto

lemma join_with_append:
  "ws \<noteq> [] \<Longrightarrow> vs \<noteq> [] \<Longrightarrow> join_with d (ws @ vs) = join_with d ws @ d @ join_with d vs"
proof (induction ws)
  case (Cons w ws)
  then show ?case by (cases ws; cases vs) auto
qed simp

lemma norm_clean [simp]: "clean w \<Longrightarrow> norm_segment a st w = w # st"
  by (auto simp: norm_segment_def clean_def)

lemma foldl_clean: "(\<And>w. w \<in> set ws \<Longrightarrow> clean w) \<Longrightarrow> foldl (norm_segment a) st ws = rev ws @ st"
  by (induction ws arbitrary: st) auto

lemma norm_blank [simp]: "norm_segment a st [] = st"
  by (simp add: norm_segment_def)

text \<open>
  The stack: clean segments above the \<open>..\<close> segments that could not be resolved; below an absolute
  root there are none of the latter.
\<close>

lemma norm_stack:
  assumes "\<And>w. w \<in> set ws \<Longrightarrow> CHR ''/'' \<notin> set w" "\<And>n. n \<in> set ns \<Longrightarrow> clean n"
  shows "\<exists>ns' k'. foldl (norm_segment True) (ns @ replicate k ''..'') ws = ns' @ replicate k' ''..'' \<and>
    (\<forall>n \<in> set ns'. clean n)"
  using assms
proof (induction ws arbitrary: ns k)
  case (Cons w ws)
  have step: "\<exists>ns1 k1. norm_segment True (ns @ replicate k ''..'') w = ns1 @ replicate k1 ''..'' \<and> (\<forall>n \<in> set ns1. clean n)"
  proof (cases "clean w")
    case True
    then have "norm_segment True (ns @ replicate k ''..'') w = (w # ns) @ replicate k ''..''" by simp
    with True Cons.prems(2) show ?thesis by (metis set_ConsD)
  next
    case False
    show ?thesis
    proof (cases "w = ''..''")
      case w: True
      show ?thesis
      proof (cases ns)
        case Nil
        have "norm_segment True (ns @ replicate k ''..'') w = [] @ replicate (Suc k) ''..''"
          using w Nil by (cases k) (auto simp: norm_segment_def)
        then show ?thesis by (metis empty_iff empty_set)
      next
        case (Cons n ns2)
        then have "clean n" using Cons.prems(2) by simp
        then have "norm_segment True (ns @ replicate k ''..'') w = ns2 @ replicate k ''..''"
          using w Cons by (auto simp: norm_segment_def clean_def)
        then show ?thesis using Cons Cons.prems(2) by (metis list.set_intros(2))
      qed
    next
      case w: False
      have "CHR ''/'' \<notin> set w" using Cons.prems(1) by simp
      with False w have "w = [] \<or> w = ''.''" by (auto simp: clean_def)
      then have "norm_segment True (ns @ replicate k ''..'') w = ns @ replicate k ''..''"
        by (simp add: norm_segment_def)
      with Cons.prems(2) show ?thesis by blast
    qed
  qed
  then obtain ns1 k1 where "norm_segment True (ns @ replicate k ''..'') w = ns1 @ replicate k1 ''..''"
    "\<And>n. n \<in> set ns1 \<Longrightarrow> clean n" by blast
  with Cons.IH [of ns1 k1] Cons.prems(1) show ?case by simp
qed (use assms in auto)

lemma norm_absolute_clean:
  assumes "\<And>w. w \<in> set ws \<Longrightarrow> CHR ''/'' \<notin> set w" "\<And>n. n \<in> set ns \<Longrightarrow> clean n"
    "n \<in> set (foldl (norm_segment False) ns ws)"
  shows "clean n"
  using assms
proof (induction ws arbitrary: ns)
  case (Cons w ws)
  have "\<And>n. n \<in> set (norm_segment False ns w) \<Longrightarrow> clean n"
    using Cons.prems(1,2) by (auto simp: norm_segment_def clean_def split: list.splits if_splits)
  with Cons show ?case by (metis foldl_Cons list.set_intros(2))
qed simp

lemma norm_segments_absolute: "n \<in> set (norm_segments False p) \<Longrightarrow> clean n"
  unfolding norm_segments_def using norm_absolute_clean [of "split_on (CHR ''/'') p" "[]" n] split_on_segments
  by fastforce

lemma norm_segments_relative:
  "\<exists>k ns. norm_segments True p = replicate k ''..'' @ ns \<and> (\<forall>n \<in> set ns. clean n)"
proof -
  obtain ns k where "foldl (norm_segment True) ([] @ replicate 0 ''..'') (split_on (CHR ''/'') p) = ns @ replicate k ''..''"
    "\<forall>n \<in> set ns. clean n"
    using norm_stack [of "split_on (CHR ''/'') p" "[]" 0] split_on_segments by fastforce
  then show ?thesis
    by (intro exI [of _ k] exI [of _ "rev ns"]) (simp add: norm_segments_def)
qed

text \<open>A name the policy accepts is a list of clean segments, with a slash behind it for a directory.\<close>

lemma normalized_name:
  assumes "normalizeZipRelativePath value label = Inr n"
  obtains ns where "\<And>w. w \<in> set ns \<Longrightarrow> clean w"
    "n = join_with ''/'' ns \<and> ns \<noteq> [] \<or> n = join_with ''/'' ns @ ''/'' \<and> ns \<noteq> [] \<or> n = ''./'' \<and> ns = []"
    "ns = norm_segments True value"
proof -
  obtain k ns where seg: "norm_segments True value = replicate k ''..'' @ ns" and clean: "\<forall>w \<in> set ns. clean w"
    using norm_segments_relative by blast
  let ?body = "join_with ''/'' (replicate k ''..'' @ ns)"
  have v: "value \<noteq> []" "\<not> path_isAbsolute value" "n = path_normalize value"
    "n \<noteq> ''.''" "n \<noteq> ''..''" "\<not> startsWith n ''../''"
    using assms by (auto simp: normalizeZipRelativePath_def Let_def blank_def split: if_splits)
  have ne: "w \<noteq> []" if "w \<in> set (replicate k ''..'' @ ns)" for w
    using that clean by (auto simp: clean_def)
  have n: "n = (if replicate k ''..'' @ ns = [] then if endsWith value ''/'' then ''./'' else ''.''
      else ?body @ (if endsWith value ''/'' then ''/'' else []))"
    using v(1-3) join_with_empty [of "replicate k ''..'' @ ns" "''/''", OF ne] by (simp add: path_normalize_def seg)
  have "k = 0"
  proof (rule ccontr)
    assume "k \<noteq> 0"
    then obtain rest where r: "replicate k ''..'' @ ns = ''..'' # rest" by (cases k) auto
    with n v(5,6) show False by (cases rest) (auto split: if_splits)
  qed
  then have n0: "n = (if ns = [] then if endsWith value ''/'' then ''./'' else ''.''
      else join_with ''/'' ns @ (if endsWith value ''/'' then ''/'' else []))" and seg0: "norm_segments True value = ns"
    using n seg by simp_all
  show ?thesis
  proof (rule that [of ns])
    show "clean w" if "w \<in> set ns" for w using clean that by blast
    show "n = join_with ''/'' ns \<and> ns \<noteq> [] \<or> n = join_with ''/'' ns @ ''/'' \<and> ns \<noteq> [] \<or> n = ''./'' \<and> ns = []"
      using n0 v(4) by (cases "ns = []"; cases "endsWith value ''/''") simp_all
  qed (use seg0 in simp)
qed

lemma split_normalized:
  assumes "\<And>w. w \<in> set ns \<Longrightarrow> clean w"
    "n = join_with ''/'' ns \<and> ns \<noteq> [] \<or> n = join_with ''/'' ns @ ''/'' \<and> ns \<noteq> [] \<or> n = ''./'' \<and> ns = []"
  shows "foldl (norm_segment a) st (split_on (CHR ''/'') n) = rev ns @ st"
proof -
  have s: "split_on (CHR ''/'') (join_with ''/'' ns) = ns" if "ns \<noteq> []"
    using split_on_join [OF that, of "CHR ''/''"] assms(1) by (auto simp: clean_def)
  have "foldl (norm_segment a) st [[CHR ''.''], []] = st" by (simp add: norm_segment_def)
  with assms(2) s show ?thesis
    by (elim disjE conjE) (simp_all add: foldl_clean assms(1) split_on_join2)
qed

text \<open>The sign of the attributes does not reach the mode bits.\<close>

lemma unix_mode_unsigned: "signed_drop_bit 16 w AND 0xF000 = drop_bit 16 w AND 0xF000" for w :: "32 word"
proof (rule bit_word_eqI)
  fix i assume i: "i < LENGTH(32)"
  have m: "bit (0xF000 :: 32 word) i \<Longrightarrow> i < 16"
    using i by (auto simp: bit_numeral_rec less_Suc_eq numeral_nat)
  show "bit (signed_drop_bit 16 w AND 0xF000) i = bit (drop_bit 16 w AND 0xF000) i"
    using m by (auto simp: bit_and_iff bit_signed_drop_bit_iff bit_drop_bit_eq)
qed

end
