(* ===== verification/Zip_Artifact.thy ===== *)
theory Zip_Artifact
  imports Zip_Policy "HOL-Library.Sublist"
begin

text \<open>
  \<open>validateZipBuffer\<close> of \<open>src/src/utils/zipValidation.js\<close> and \<open>safeZipExtract\<close> of
  \<open>src/src/utils/safeZipExtract.js\<close>. The ZIP library is a parameter: \<open>readArchive\<close> maps a buffer to
  the message of an open error, or to its entries in order and the message of an error that ends
  the walk. \<open>parseJson\<close> is \<open>JSON.parse\<close>. The file system is a map from absolute paths, as lists of
  segments, to nodes; any call on it may fail.
\<close>

type_synonym archive = "string \<Rightarrow> string + zip_entry list \<times> string option"
type_synonym json_parser = "string \<Rightarrow> string + js"

section \<open>Validation\<close>

definition MAX_ZIP_BYTES :: nat where "MAX_ZIP_BYTES = 10 * 1024 * 1024"
definition MAX_UNCOMPRESSED_BYTES :: nat where "MAX_UNCOMPRESSED_BYTES = 50 * 1024 * 1024"
definition MAX_FILE_COUNT :: nat where "MAX_FILE_COUNT = 200"
definition MAX_MANIFEST_BYTES :: nat where "MAX_MANIFEST_BYTES = 64 * 1024"

definition assertManifestField :: "js \<Rightarrow> string \<Rightarrow> js \<Rightarrow> js_error option" where
  "assertManifestField manifest field expected =
     (if js_prop manifest field \<noteq> expected
      then Some (newError (''manifest.json '' @ field @ '' must match metadata '' @ field @ '': expected '' @ js_String expected))
      else None)"

definition validateManifestContract :: "js \<Rightarrow> js \<Rightarrow> js \<Rightarrow> js \<Rightarrow> js_error option" where
  "validateManifestContract manifest entrypoint runtime wrapperVersion =
     (case manifest of
        JObj _ \<Rightarrow>
          (case assertManifestField manifest ''entrypoint'' entrypoint of
             Some e \<Rightarrow> Some e
           | None \<Rightarrow>
               (case (if runtime \<noteq> JUndefined then assertManifestField manifest ''runtime'' runtime else None) of
                  Some e \<Rightarrow> Some e
                | None \<Rightarrow>
                    if wrapperVersion \<noteq> JUndefined
                    then assertManifestField manifest ''wrapperVersion'' wrapperVersion else None))
      | _ \<Rightarrow> Some (newError ''manifest.json must contain a JSON object''))"

record zip_walk =
  zw_fileCount :: nat
  zw_uncompressedBytes :: nat
  zw_hasEntrypoint :: bool
  zw_hasManifest :: bool
  zw_manifest :: js

text \<open>The chunks of the manifest stream, cut off with an error once they exceed the limit.\<close>

fun manifest_chunks :: "nat \<Rightarrow> string \<Rightarrow> string list \<Rightarrow> string option \<Rightarrow> string + string" where
  "manifest_chunks bytes acc [] err = (case err of Some m \<Rightarrow> Inl m | None \<Rightarrow> Inr acc)"
| "manifest_chunks bytes acc (c # cs) err =
     (if bytes + length c > MAX_MANIFEST_BYTES
      then Inl (''manifest.json exceeds '' @ nat_text MAX_MANIFEST_BYTES @ '' bytes'')
      else manifest_chunks (bytes + length c) (acc @ c) cs err)"

definition readManifest :: "json_parser \<Rightarrow> zip_entry \<Rightarrow> js_error + js" where
  "readManifest parseJson entry =
     (if ze_uncompressedSize entry > MAX_MANIFEST_BYTES
      then Inl (newError (''manifest.json exceeds '' @ nat_text MAX_MANIFEST_BYTES @ '' bytes''))
      else case ze_stream entry of
        Inl m \<Rightarrow> Inl (newError (''Unable to read manifest.json: '' @ m))
      | Inr (chunks, err) \<Rightarrow>
          (case manifest_chunks 0 [] chunks err of
             Inl m \<Rightarrow> Inl (newError (''Unable to read manifest.json: '' @ m))
           | Inr text \<Rightarrow>
               (case parseJson text of
                  Inl m \<Rightarrow> Inl (newError (''manifest.json is invalid JSON: '' @ m))
                | Inr v \<Rightarrow> Inr v)))"

text \<open>The handler of one \<open>entry\<close> event.\<close>

definition validate_entry :: "json_parser \<Rightarrow> js \<Rightarrow> zip_entry \<Rightarrow> zip_walk \<Rightarrow> js_error + zip_walk" where
  "validate_entry parseJson entrypoint entry w =
     (case validateZipEntryPolicy (ze_fileName entry) entry of
        Inl e \<Rightarrow> Inl e
      | Inr name \<Rightarrow>
          let isDirectory = isZipEntryDirectory (ze_fileName entry);
              w1 = w\<lparr>zw_fileCount := zw_fileCount w + (if isDirectory then 0 else 1),
                     zw_uncompressedBytes := zw_uncompressedBytes w + ze_uncompressedSize entry\<rparr> in
          if zw_fileCount w1 > MAX_FILE_COUNT
          then Inl (newError (''Zip contains more than '' @ nat_text MAX_FILE_COUNT @ '' files''))
          else if zw_uncompressedBytes w1 > MAX_UNCOMPRESSED_BYTES
          then Inl (newError (''Zip uncompressed size exceeds '' @ nat_text MAX_UNCOMPRESSED_BYTES @ '' bytes''))
          else
            let w2 = w1\<lparr>zw_hasEntrypoint := zw_hasEntrypoint w1 \<or> JStr name = entrypoint,
                        zw_hasManifest := zw_hasManifest w1 \<or> name = ''manifest.json''\<rparr> in
            if isDirectory \<or> name \<noteq> ''manifest.json'' then Inr w2
            else case readManifest parseJson entry of
                   Inl e \<Rightarrow> Inl e
                 | Inr m \<Rightarrow> Inr (w2\<lparr>zw_manifest := m\<rparr>))"

fun validate_entries :: "json_parser \<Rightarrow> js \<Rightarrow> zip_entry list \<Rightarrow> zip_walk \<Rightarrow> js_error + zip_walk" where
  "validate_entries parseJson entrypoint [] w = Inr w"
| "validate_entries parseJson entrypoint (e # es) w =
     (case validate_entry parseJson entrypoint e w of
        Inl err \<Rightarrow> Inl err
      | Inr w' \<Rightarrow> validate_entries parseJson entrypoint es w')"

record zip_info =
  zi_fileCount :: nat
  zi_uncompressedBytes :: nat
  zi_manifest :: js

definition validateZipBuffer ::
  "archive \<Rightarrow> json_parser \<Rightarrow> string \<Rightarrow> js \<Rightarrow> js \<Rightarrow> js \<Rightarrow> js_error + zip_info" where
  "validateZipBuffer readArchive parseJson buffer entrypoint runtime wrapperVersion =
     (if buffer = [] then Inl (newError ''Uploaded artifact is empty'')
      else if length buffer > MAX_ZIP_BYTES
      then Inl (newError (''Zip exceeds max size of '' @ nat_text MAX_ZIP_BYTES @ '' bytes''))
      else case readArchive buffer of
        Inl m \<Rightarrow> Inl (newError (''Invalid zip file: '' @ m))
      | Inr (entries, err) \<Rightarrow>
          (case validate_entries parseJson entrypoint entries
                  \<lparr>zw_fileCount = 0, zw_uncompressedBytes = 0, zw_hasEntrypoint = False,
                   zw_hasManifest = False, zw_manifest = JUndefined\<rparr> of
             Inl e \<Rightarrow> Inl e
           | Inr w \<Rightarrow>
               (case err of
                  Some m \<Rightarrow> Inl (newError (''Zip validation failed: '' @ m))
                | None \<Rightarrow>
                    if \<not> zw_hasManifest w then Inl (newError ''Zip must contain manifest.json'')
                    else if \<not> zw_hasEntrypoint w
                    then Inl (newError (''Zip must contain entrypoint: '' @ js_String entrypoint))
                    else case validateManifestContract (zw_manifest w) entrypoint runtime wrapperVersion of
                           Some e \<Rightarrow> Inl e
                         | None \<Rightarrow> Inr \<lparr>zi_fileCount = zw_fileCount w,
                                        zi_uncompressedBytes = zw_uncompressedBytes w,
                                        zi_manifest = zw_manifest w\<rparr>)))"

section \<open>Extraction\<close>

datatype fs_node = Dir | File string

type_synonym fs = "string list \<Rightarrow> fs_node option"

record os =
  os_fs :: fs
  os_faults :: "bool list"

text \<open>A file system call: it may fail before it does anything, or with the message of its own check.\<close>

definition os_call :: "(fs \<Rightarrow> string + fs) \<Rightarrow> (os, unit) eff" where
  "os_call f s =
     (case os_faults s of
        True # fs \<Rightarrow> (Inl (newError ''EIO''), s\<lparr>os_faults := fs\<rparr>)
      | _ \<Rightarrow> (case f (os_fs s) of
                Inl m \<Rightarrow> (Inl (newError m), s\<lparr>os_faults := tl (os_faults s)\<rparr>)
              | Inr fs \<Rightarrow> (Inr (), s\<lparr>os_fs := fs, os_faults := tl (os_faults s)\<rparr>)))"

text \<open>\<open>fs.mkdtemp\<close> with the random name given, \<open>fs.mkdir\<close> with \<open>recursive\<close>, a write stream, \<open>fs.rm\<close> with \<open>recursive, force\<close>.\<close>

definition fs_mkdtemp :: "string list \<Rightarrow> fs \<Rightarrow> string + fs" where
  "fs_mkdtemp p fs =
     (if p \<noteq> [] \<and> butlast p \<noteq> [] \<and> fs (butlast p) \<noteq> Some Dir then Inl ''ENOENT''
      else if fs p \<noteq> None then Inl ''EEXIST'' else Inr (fs(p \<mapsto> Dir)))"

definition fs_mkdirp :: "string list \<Rightarrow> fs \<Rightarrow> string + fs" where
  "fs_mkdirp p fs =
     (if \<exists>q \<in> set (prefixes p). q \<noteq> [] \<and> fs q \<noteq> None \<and> fs q \<noteq> Some Dir then Inl ''ENOTDIR''
      else Inr (\<lambda>q. if q \<noteq> [] \<and> prefix q p then Some Dir else fs q))"

definition fs_write :: "string list \<Rightarrow> string \<Rightarrow> fs \<Rightarrow> string + fs" where
  "fs_write p content fs = (if fs p = Some Dir then Inl ''EISDIR'' else Inr (fs(p \<mapsto> File content)))"

definition fs_rm :: "string list \<Rightarrow> fs \<Rightarrow> string + fs" where
  "fs_rm p fs = Inr (\<lambda>q. if prefix p q then None else fs q)"

definition path_segments :: "string \<Rightarrow> string list" where
  "path_segments p = norm_segments False p"

definition safeJoin :: "string \<Rightarrow> string \<Rightarrow> string \<Rightarrow> js_error + string" where
  "safeJoin cwd rootDir relativePath =
     (let resolvedRoot = path_resolve cwd [rootDir];
          resolvedTarget = path_resolve cwd [resolvedRoot, relativePath] in
      if resolvedTarget \<noteq> resolvedRoot \<and> \<not> startsWith resolvedTarget (resolvedRoot @ ''/'')
      then Inl (newError (''unsafe extraction target: '' @ relativePath))
      else Inr resolvedTarget)"

text \<open>
  The handler of one \<open>entry\<close> event: the counters so far in, the new counters out. A throwing
  \<open>safeJoin\<close> would escape the handler; it is an exception of the walk here, and
  \<open>safeJoin_normalized\<close> below shows that it does not happen for the names that get there.
\<close>

definition extract_entry ::
  "string \<Rightarrow> string \<Rightarrow> nat \<Rightarrow> nat \<Rightarrow> zip_entry \<Rightarrow> nat \<times> nat \<Rightarrow> (os, nat \<times> nat) eff" where
  "extract_entry cwd extractDir maxFileCount maxUncompressedBytes entry = (\<lambda>(fileCount0, bytes0).
     case validateZipEntryPolicy (ze_fileName entry) entry of
       Inl e \<Rightarrow> throw e
     | Inr normalizedName \<Rightarrow>
         let isDirectory = isZipEntryDirectory (ze_fileName entry);
             fileCount = fileCount0 + (if isDirectory then 0 else 1);
             uncompressedBytes = bytes0 + ze_uncompressedSize entry in
         if fileCount > maxFileCount
         then throw (newError (''zip contains more than '' @ nat_text maxFileCount @ '' files''))
         else if uncompressedBytes > maxUncompressedBytes
         then throw (newError (''zip uncompressed size exceeds '' @ nat_text maxUncompressedBytes @ '' bytes''))
         else case safeJoin cwd extractDir normalizedName of
           Inl e \<Rightarrow> throw e
         | Inr targetPath \<Rightarrow>
             let target = path_segments targetPath in
             andThen
               (if isDirectory then os_call (fs_mkdirp target)
                else case ze_stream entry of
                  Inl m \<Rightarrow> throw (newError (''failed to read zip entry '' @ ze_fileName entry @ '': '' @ m))
                | Inr (chunks, err) \<Rightarrow>
                    andThen (os_call (fs_mkdirp (butlast target))) (\<lambda>_.
                    andThen (os_call (fs_write target (concat chunks))) (\<lambda>_.
                      case err of None \<Rightarrow> ret () | Some m \<Rightarrow> throw (newError m))))
               (\<lambda>_. ret (fileCount, uncompressedBytes)))"

fun extract_entries ::
  "string \<Rightarrow> string \<Rightarrow> nat \<Rightarrow> nat \<Rightarrow> zip_entry list \<Rightarrow> string option \<Rightarrow> nat \<times> nat \<Rightarrow> (os, nat \<times> nat) eff" where
  "extract_entries cwd extractDir maxFC maxUB [] err counts =
     (case err of None \<Rightarrow> ret counts | Some m \<Rightarrow> throw (newError (''zip extraction failed: '' @ m)))"
| "extract_entries cwd extractDir maxFC maxUB (e # es) err counts =
     andThen (extract_entry cwd extractDir maxFC maxUB e counts)
       (extract_entries cwd extractDir maxFC maxUB es err)"

definition extractZipEntries ::
  "archive \<Rightarrow> string \<Rightarrow> string \<Rightarrow> nat \<Rightarrow> nat \<Rightarrow> string \<Rightarrow> (os, nat \<times> nat) eff" where
  "extractZipEntries readArchive cwd extractDir maxFileCount maxUncompressedBytes buffer =
     (case readArchive buffer of
        Inl m \<Rightarrow> throw (newError (''invalid zip file: '' @ m))
      | Inr (entries, err) \<Rightarrow> extract_entries cwd extractDir maxFileCount maxUncompressedBytes entries err (0, 0))"

record extracted =
  ex_extractDir :: string
  ex_entrypointPath :: string
  ex_fileCount :: nat
  ex_uncompressedBytes :: nat

text \<open>\<open>fs.stat\<close> of the entrypoint and its two error messages.\<close>

definition stat_entrypoint :: "string \<Rightarrow> string list \<Rightarrow> (os, unit) eff" where
  "stat_entrypoint entrypoint p s =
     os_call (\<lambda>fs. case fs p of
        None \<Rightarrow> Inl (''entrypoint not found after extraction: '' @ entrypoint)
      | Some Dir \<Rightarrow> Inl (''entrypoint is not a file: '' @ entrypoint)
      | Some (File _) \<Rightarrow> Inr fs) s"

text \<open>\<open>extractDir\<close> is the directory \<open>mkdtemp\<close> creates under \<open>tempRoot\<close>.\<close>

definition safeZipExtract ::
  "archive \<Rightarrow> string \<Rightarrow> string \<Rightarrow> nat \<Rightarrow> nat \<Rightarrow> string \<Rightarrow> string \<Rightarrow> (os, extracted) eff" where
  "safeZipExtract readArchive cwd extractDir maxFileCount maxUncompressedBytes buffer entrypoint =
     (if buffer = [] then throw (newError ''zip buffer is required'')
      else case normalizeZipRelativePath entrypoint ''entrypoint'' of
        Inl e \<Rightarrow> throw e
      | Inr normalizedEntrypoint \<Rightarrow>
          andThen (os_call (fs_mkdtemp (path_segments extractDir))) (\<lambda>_.
          tryCatch
            (andThen (extractZipEntries readArchive cwd extractDir maxFileCount maxUncompressedBytes buffer)
              (\<lambda>(fileCount, uncompressedBytes).
                 case safeJoin cwd extractDir normalizedEntrypoint of
                   Inl e \<Rightarrow> throw e
                 | Inr entrypointPath \<Rightarrow>
                     andThen (stat_entrypoint entrypoint (path_segments entrypointPath)) (\<lambda>_.
                     ret \<lparr>ex_extractDir = extractDir, ex_entrypointPath = entrypointPath,
                          ex_fileCount = fileCount, ex_uncompressedBytes = uncompressedBytes\<rparr>)))
            (\<lambda>error. andThen (os_call (fs_rm (path_segments extractDir))) (\<lambda>_. throw error))))"

section \<open>Validation lemmas\<close>

definition entry_ok :: "zip_entry \<Rightarrow> bool" where
  "entry_ok e \<longleftrightarrow> (\<exists>n. validateZipEntryPolicy (ze_fileName e) e = Inr n)"

definition walk_ok :: "zip_walk \<Rightarrow> bool" where
  "walk_ok w \<longleftrightarrow> zw_fileCount w \<le> MAX_FILE_COUNT \<and> zw_uncompressedBytes w \<le> MAX_UNCOMPRESSED_BYTES"

definition files_of :: "zip_entry list \<Rightarrow> nat" where
  "files_of es = length (filter (\<lambda>e. \<not> isZipEntryDirectory (ze_fileName e)) es)"

lemma validate_entry_effect:
  assumes "validate_entry parseJson entrypoint e w = Inr w'"
  shows "\<exists>n. validateZipEntryPolicy (ze_fileName e) e = Inr n \<and> walk_ok w' \<and>
    zw_fileCount w' = zw_fileCount w + (if isZipEntryDirectory (ze_fileName e) then 0 else 1) \<and>
    zw_uncompressedBytes w' = zw_uncompressedBytes w + ze_uncompressedSize e \<and>
    (zw_hasEntrypoint w' \<longleftrightarrow> zw_hasEntrypoint w \<or> JStr n = entrypoint) \<and>
    (zw_hasManifest w' \<longleftrightarrow> zw_hasManifest w \<or> n = ''manifest.json'')"
  using assms
  by (auto simp: validate_entry_def walk_ok_def Let_def split: sum.splits if_splits)

lemma validate_entries_effect:
  assumes "validate_entries parseJson entrypoint es w = Inr w'" "walk_ok w"
  shows "walk_ok w' \<and> (\<forall>e \<in> set es. entry_ok e) \<and>
    zw_fileCount w' = zw_fileCount w + files_of es \<and>
    zw_uncompressedBytes w' = zw_uncompressedBytes w + sum_list (map ze_uncompressedSize es) \<and>
    (zw_hasEntrypoint w' \<longleftrightarrow> zw_hasEntrypoint w \<or>
       (\<exists>e \<in> set es. \<exists>n. validateZipEntryPolicy (ze_fileName e) e = Inr n \<and> JStr n = entrypoint))"
  using assms
proof (induction es arbitrary: w)
  case (Cons e es)
  from Cons.prems(1) obtain w1 where w1: "validate_entry parseJson entrypoint e w = Inr w1"
    and rest: "validate_entries parseJson entrypoint es w1 = Inr w'"
    by (auto split: sum.splits)
  obtain n where n: "validateZipEntryPolicy (ze_fileName e) e = Inr n" and eff: "walk_ok w1"
    "zw_fileCount w1 = zw_fileCount w + (if isZipEntryDirectory (ze_fileName e) then 0 else 1)"
    "zw_uncompressedBytes w1 = zw_uncompressedBytes w + ze_uncompressedSize e"
    "zw_hasEntrypoint w1 \<longleftrightarrow> zw_hasEntrypoint w \<or> JStr n = entrypoint"
    using validate_entry_effect [OF w1] by blast
  note ih = Cons.IH [OF rest eff(1)]
  from ih n eff show ?case by (simp add: files_of_def entry_ok_def)
qed (simp add: files_of_def)

lemma validateZipBuffer_cases:
  assumes "validateZipBuffer readArchive parseJson buffer entrypoint runtime wrapper = Inr info"
  obtains es w where "readArchive buffer = Inr (es, None)" "length buffer \<le> MAX_ZIP_BYTES"
    "validate_entries parseJson entrypoint es \<lparr>zw_fileCount = 0, zw_uncompressedBytes = 0,
       zw_hasEntrypoint = False, zw_hasManifest = False, zw_manifest = JUndefined\<rparr> = Inr w"
    "zw_hasEntrypoint w" "validateManifestContract (zw_manifest w) entrypoint runtime wrapper = None"
    "zi_fileCount info = zw_fileCount w" "zi_uncompressedBytes info = zw_uncompressedBytes w"
    "zi_manifest info = zw_manifest w"
  using assms
  by (auto simp: validateZipBuffer_def split: if_splits sum.splits option.splits)

lemma manifest_fields:
  assumes "validateManifestContract m entrypoint runtime wrapper = None"
  shows "js_prop m ''entrypoint'' = entrypoint" "runtime \<noteq> JUndefined \<Longrightarrow> js_prop m ''runtime'' = runtime"
    "wrapper \<noteq> JUndefined \<Longrightarrow> js_prop m ''wrapperVersion'' = wrapper"
  using assms
  by (auto simp: validateManifestContract_def assertManifestField_def split: js.splits option.splits if_splits)

section \<open>Extraction lemmas\<close>

lemma resolve_absolute:
  assumes "path_isAbsolute r"
  shows "path_resolve cwd [r] = ''/'' @ join_with ''/'' (norm_segments False r)"
proof -
  have "r \<noteq> []" using assms by (auto simp: path_isAbsolute_def)
  moreover have "norm_segments False (r @ ''/'') = norm_segments False r"
    by (simp add: norm_segments_def split_on_join2 [of "CHR ''/''" r "[]", simplified])
  ultimately show ?thesis using assms by (simp add: path_resolve_def)
qed

lemma segments_of_absolute:
  assumes "\<And>w. w \<in> set ws \<Longrightarrow> clean w"
  shows "path_segments (''/'' @ join_with ''/'' ws) = ws"
proof (cases "ws = []")
  case False
  have "split_on (CHR ''/'') (join_with ''/'' ws) = ws"
    using split_on_join [OF False, of "CHR ''/''"] assms by (auto simp: clean_def)
  then have "split_on (CHR ''/'') (''/'' @ join_with ''/'' ws) = [] # ws" by simp
  then show ?thesis using assms by (simp add: path_segments_def norm_segments_def foldl_clean)
qed (simp add: path_segments_def norm_segments_def)

text \<open>For a name the policy accepts, \<open>safeJoin\<close> never refuses and appends its segments to the root's.\<close>

lemma safeJoin_normalized:
  assumes "normalizeZipRelativePath value label = Inr n" "path_isAbsolute r" "path_segments r \<noteq> []"
  shows "safeJoin cwd r n = Inr (''/'' @ join_with ''/'' (path_segments r @ norm_segments True value))"
    "path_segments (''/'' @ join_with ''/'' (path_segments r @ norm_segments True value)) =
       path_segments r @ norm_segments True value"
proof -
  let ?rs = "path_segments r"
  obtain ns where clean: "\<And>w. w \<in> set ns \<Longrightarrow> clean w" and n:
    "n = join_with ''/'' ns \<and> ns \<noteq> [] \<or> n = join_with ''/'' ns @ ''/'' \<and> ns \<noteq> [] \<or> n = ''./'' \<and> ns = []"
    and ns: "ns = norm_segments True value"
    using normalized_name [OF assms(1)] by blast
  have rclean: "clean w" if "w \<in> set ?rs" for w
    using norm_segments_absolute that by (simp add: path_segments_def)
  have rr: "path_resolve cwd [r] = ''/'' @ join_with ''/'' ?rs"
    using resolve_absolute [OF assms(2)] by (simp add: path_segments_def)
  have "join_with ''/'' ns \<noteq> [] \<and> hd (join_with ''/'' ns) \<noteq> CHR ''/''" if nonempty: "ns \<noteq> []"
  proof -
    obtain w rest where w: "ns = w # rest" using nonempty by (cases ns) auto
    then have "clean w" using clean by simp
    then obtain c cs where "w = c # cs" "c \<noteq> CHR ''/''" by (cases w) (auto simp: clean_def)
    with w show ?thesis by (cases rest) auto
  qed
  then have nabs: "n \<noteq> []" "\<not> path_isAbsolute n"
    using n by (auto simp: path_isAbsolute_def neq_Nil_conv)
  have sp: "split_on (CHR ''/'') (''/'' @ join_with ''/'' ?rs) = [] # ?rs"
    using split_on_join [OF assms(3), of "CHR ''/''"] rclean by (auto simp: clean_def)
  have "norm_segments False ((''/'' @ join_with ''/'' ?rs) @ ''/'' @ n @ ''/'') = ?rs @ ns"
  proof -
    have "split_on (CHR ''/'') ((''/'' @ join_with ''/'' ?rs) @ ''/'' @ n @ ''/'') =
        ([] # ?rs) @ split_on (CHR ''/'') n @ [[]]"
      using split_on_join2 [of "CHR ''/''" "''/'' @ join_with ''/'' ?rs" "n @ ''/''"]
        split_on_join2 [of "CHR ''/''" n "[]"] sp by simp
    then show ?thesis
      using split_normalized [OF clean n, of False "rev ?rs"] rclean
      by (simp add: norm_segments_def foldl_clean)
  qed
  then have target: "path_resolve cwd [path_resolve cwd [r], n] = ''/'' @ join_with ''/'' (?rs @ ns)"
    using nabs rr by (simp add: path_resolve_def path_isAbsolute_def)
  have "startsWith (''/'' @ join_with ''/'' (?rs @ ns)) ((''/'' @ join_with ''/'' ?rs) @ ''/'')" if "ns \<noteq> []"
    using join_with_append [OF assms(3) that, of "''/''"] by (auto simp: startsWith_iff)
  with target rr show "safeJoin cwd r n = Inr (''/'' @ join_with ''/'' (?rs @ norm_segments True value))"
    by (cases "ns = []") (simp_all add: safeJoin_def ns [symmetric])
  show "path_segments (''/'' @ join_with ''/'' (?rs @ norm_segments True value)) = ?rs @ norm_segments True value"
    by (rule segments_of_absolute) (use rclean clean ns in auto)
qed

text \<open>
  Containment: outside \<open>D\<close> nothing changes, except that missing ancestors of \<open>D\<close> may be created;
  existing ancestors stay directories.
\<close>

definition stays_inside :: "string list \<Rightarrow> os \<Rightarrow> os \<Rightarrow> bool" where
  "stays_inside D s s' \<longleftrightarrow>
     (\<forall>p. \<not> prefix D p \<and> \<not> strict_prefix p D \<longrightarrow> os_fs s' p = os_fs s p) \<and>
     (\<forall>p. strict_prefix p D \<and> os_fs s p = Some Dir \<longrightarrow> os_fs s' p = Some Dir)"

lemma contained_refl: "reflp (stays_inside D)"
  by (simp add: reflp_def stays_inside_def)

lemma contained_trans: "transp (stays_inside D)"
  by (simp add: transp_def stays_inside_def)

lemma os_call_contained:
  assumes "\<And>fs fs'. f fs = Inr fs' \<Longrightarrow> (\<forall>p. \<not> prefix D p \<and> \<not> strict_prefix p D \<longrightarrow> fs' p = fs p) \<and>
     (\<forall>p. strict_prefix p D \<and> fs p = Some Dir \<longrightarrow> fs' p = Some Dir)"
  shows "keeps (stays_inside D) (os_call f)"
  unfolding keeps_def
proof
  fix s
  show "stays_inside D s (snd (os_call f s))"
    using assms [of "os_fs s"]
    by (cases "f (os_fs s)") (auto simp: os_call_def stays_inside_def split: list.splits bool.splits)
qed

lemma mkdirp_contained: "prefix D p \<or> p = D \<or> strict_prefix p D \<Longrightarrow> keeps (stays_inside D) (os_call (fs_mkdirp p))"
proof (rule os_call_contained, goal_cases)
  case (1 fs fs')
  then have fs': "fs' = (\<lambda>q. if q \<noteq> [] \<and> prefix q p then Some Dir else fs q)"
    by (auto simp: fs_mkdirp_def split: if_splits)
  have "prefix D q \<or> strict_prefix q D" if "prefix q p" for q
    using 1(1) that by (metis prefix_same_cases prefix_order.less_le prefix_order.order_trans)
  then show ?case by (auto simp: fs')
qed

lemma write_contained: "prefix D p \<Longrightarrow> keeps (stays_inside D) (os_call (fs_write p c))"
  by (rule os_call_contained) (auto simp: fs_write_def strict_prefix_def split: if_splits)

lemma mkdtemp_contained: "keeps (stays_inside D) (os_call (fs_mkdtemp D))"
  by (rule os_call_contained) (auto simp: fs_mkdtemp_def split: if_splits)

lemma rm_contained: "keeps (stays_inside D) (os_call (fs_rm D))"
  by (rule os_call_contained) (auto simp: fs_rm_def strict_prefix_def)

lemma stat_contained: "keeps (stays_inside D) (stat_entrypoint e p)"
proof -
  have "stat_entrypoint e p = os_call (\<lambda>fs. case fs p of
        None \<Rightarrow> Inl (''entrypoint not found after extraction: '' @ e)
      | Some Dir \<Rightarrow> Inl (''entrypoint is not a file: '' @ e)
      | Some (File _) \<Rightarrow> Inr fs)" by (rule ext) (simp add: stat_entrypoint_def)
  then show ?thesis
    by (simp only:, intro os_call_contained) (auto split: option.splits fs_node.splits)
qed

lemmas contained_rules = keeps_andThen keeps_tryCatch keeps_ret keeps_throw contained_refl contained_trans

lemma policy_name:
  assumes "validateZipEntryPolicy name e = Inr n"
  shows "normalizeZipRelativePath name ''zip entry'' = Inr n"
  using assms by (auto simp: validateZipEntryPolicy_def split: sum.splits if_splits)

lemma extract_entry_contained:
  assumes "path_isAbsolute dir" "path_segments dir \<noteq> []"
  shows "keeps (stays_inside (path_segments dir)) (extract_entry cwd dir maxFC maxUB e counts)"
proof (cases "validateZipEntryPolicy (ze_fileName e) e")
  case (Inl err)
  then show ?thesis by (cases counts) (simp add: extract_entry_def keeps_throw contained_refl)
next
  case (Inr n)
  let ?D = "path_segments dir" and ?ns = "norm_segments True (ze_fileName e)"
  note join = safeJoin_normalized(1) [OF policy_name [OF Inr] assms, of cwd] safeJoin_normalized(2) [OF policy_name [OF Inr] assms]
  have dirname: "prefix ?D (butlast (?D @ ?ns)) \<or> strict_prefix (butlast (?D @ ?ns)) ?D"
  proof (cases "?ns = []")
    case True
    then show ?thesis using assms(2) by (auto simp: strict_prefix_def prefixeq_butlast)
  next
    case False
    then show ?thesis by (simp add: butlast_append)
  qed
  obtain fc ub where c: "counts = (fc, ub)" by (cases counts)
  have mk: "keeps (stays_inside ?D) (os_call (fs_mkdirp (?D @ ?ns)))"
    by (rule mkdirp_contained) simp
  have wr: "keeps (stays_inside ?D)
     (case ze_stream e of
        Inl m \<Rightarrow> throw (newError (''failed to read zip entry '' @ ze_fileName e @ '': '' @ m))
      | Inr (chunks, err) \<Rightarrow>
          andThen (os_call (fs_mkdirp (butlast (?D @ ?ns)))) (\<lambda>_.
          andThen (os_call (fs_write (?D @ ?ns) (concat chunks))) (\<lambda>_.
            case err of None \<Rightarrow> ret () | Some m \<Rightarrow> throw (newError m))))"
    using dirname
    by (auto split: sum.splits option.splits intro!: contained_rules mkdirp_contained write_contained)
  show ?thesis
    unfolding c extract_entry_def using Inr join
    by (simp add: Let_def keeps_throw contained_refl keeps_andThen contained_trans keeps_ret mk wr [simplified])
qed

lemma extract_entries_contained:
  assumes "path_isAbsolute dir" "path_segments dir \<noteq> []"
  shows "keeps (stays_inside (path_segments dir)) (extract_entries cwd dir maxFC maxUB es err counts)"
proof (induction es arbitrary: counts)
  case Nil
  then show ?case by (cases err) (simp_all add: keeps_ret keeps_throw contained_refl del: ret_apply throw_apply)
next
  case (Cons e es)
  then show ?case by (simp only: extract_entries.simps) (intro contained_rules extract_entry_contained assms)
qed

lemma safeZipExtract_contained:
  assumes "path_isAbsolute dir" "path_segments dir \<noteq> []"
  shows "keeps (stays_inside (path_segments dir)) (safeZipExtract readArchive cwd dir maxFC maxUB buffer entrypoint)"
proof (cases "normalizeZipRelativePath entrypoint ''entrypoint''")
  case (Inl e)
  then show ?thesis by (simp add: safeZipExtract_def keeps_throw contained_refl)
next
  case (Inr n)
  note join = safeJoin_normalized(1) [OF Inr assms, of cwd]
  have z: "keeps (stays_inside (path_segments dir)) (extractZipEntries readArchive cwd dir maxFC maxUB buffer)"
    using extract_entries_contained [OF assms]
    by (auto simp: extractZipEntries_def intro!: contained_rules split: sum.splits)
  show ?thesis
    using Inr join
    by (auto simp: safeZipExtract_def intro!: contained_rules mkdtemp_contained rm_contained stat_contained z)
qed

text \<open>A failed extraction without failing file system calls removes what it wrote.\<close>

lemma os_call_ok:
  "os_faults s = [] \<Longrightarrow> os_call f s =
     (case f (os_fs s) of Inl m \<Rightarrow> (Inl (newError m), s) | Inr fs \<Rightarrow> (Inr (), s\<lparr>os_fs := fs\<rparr>))"
  by (simp add: os_call_def split: sum.splits)

definition no_faults :: "os \<Rightarrow> os \<Rightarrow> bool" where
  "no_faults s s' \<longleftrightarrow> (os_faults s = [] \<longrightarrow> os_faults s' = [])"

lemma no_faults_rules:
  "reflp no_faults" "transp no_faults" "keeps no_faults (os_call f)" "keeps no_faults (stat_entrypoint e p)"
  by (auto simp: reflp_def transp_def no_faults_def keeps_def stat_entrypoint_def os_call_def split: list.splits sum.splits)

lemma extraction_no_faults: "keeps no_faults (extractZipEntries readArchive cwd dir maxFC maxUB buffer)"
proof -
  note rules = keeps_andThen keeps_tryCatch keeps_ret keeps_throw no_faults_rules
  have one: "keeps no_faults (extract_entry cwd dir maxFC maxUB e counts)" for e counts
    by (cases counts) (auto simp: extract_entry_def Let_def split: sum.splits option.splits intro!: rules)
  have "keeps no_faults (extract_entries cwd dir maxFC maxUB es err counts)" for es err counts
  proof (induction es arbitrary: counts)
    case Nil
    then show ?case by (cases err) (simp_all add: keeps_ret keeps_throw no_faults_rules del: ret_apply throw_apply)
  next
    case (Cons e es)
    then show ?case by (simp only: extract_entries.simps) (intro rules one)
  qed
  then show ?thesis by (auto simp: extractZipEntries_def split: sum.splits intro!: rules)
qed

lemma failed_extraction_removes:
  assumes "os_faults s = []" "\<And>p. prefix (path_segments dir) p \<Longrightarrow> os_fs s p = None"
    "safeZipExtract readArchive cwd dir maxFC maxUB buffer entrypoint s = (Inl e, s')"
  shows "\<forall>p. prefix (path_segments dir) p \<longrightarrow> os_fs s' p = None"
proof (cases "normalizeZipRelativePath entrypoint ''entrypoint''")
  case (Inl err)
  with assms show ?thesis by (auto simp: safeZipExtract_def split: if_splits)
next
  case (Inr n)
  let ?D = "path_segments dir"
  let ?body = "andThen (extractZipEntries readArchive cwd dir maxFC maxUB buffer)
     (\<lambda>(fileCount, uncompressedBytes). case safeJoin cwd dir n of
        Inl e \<Rightarrow> throw e
      | Inr entrypointPath \<Rightarrow> andThen (stat_entrypoint entrypoint (path_segments entrypointPath)) (\<lambda>_.
          ret \<lparr>ex_extractDir = dir, ex_entrypointPath = entrypointPath,
               ex_fileCount = fileCount, ex_uncompressedBytes = uncompressedBytes\<rparr>))"
  let ?catch = "\<lambda>error. andThen (os_call (fs_rm ?D)) (\<lambda>_. throw error)"
  show ?thesis
  proof (cases "buffer = []")
    case True
    with assms show ?thesis by (simp add: safeZipExtract_def)
  next
    case False
    then have "andThen (os_call (fs_mkdtemp ?D)) (\<lambda>_. tryCatch ?body ?catch) s = (Inl e, s')"
      using assms(3) Inr by (simp add: safeZipExtract_def)
    then show ?thesis
    proof (cases rule: andThen_cases)
      case (throws err)
      then show ?thesis using assms(1,2) by (auto simp: os_call_ok split: sum.splits)
    next
      case (returns a s1)
      then have f1: "os_faults s1 = []" using assms(1) by (auto simp: os_call_ok split: sum.splits)
      have nf: "keeps no_faults ?body"
        using extraction_no_faults
        by (intro keeps_andThen no_faults_rules)
          (auto split: sum.splits intro!: keeps_andThen keeps_ret keeps_throw no_faults_rules)
      from returns(2) show ?thesis
      proof (cases rule: tryCatch_cases)
        case (throws err s2)
        have "os_faults s2 = []" using keepsD [OF nf throws(1)] f1 by (simp add: no_faults_def)
        with throws(2) show ?thesis by (auto simp: andThen_def os_call_ok fs_rm_def)
      qed simp
    qed
  qed
qed

section \<open>Sample data\<close>

definition sample_entry :: "string \<Rightarrow> string \<Rightarrow> zip_entry" where
  "sample_entry name content = \<lparr>ze_fileName = name, ze_externalFileAttributes = 0,
     ze_uncompressedSize = length content, ze_stream = Inr ([content], None)\<rparr>"

text \<open>One archive with a job and its manifest, every other buffer one that tries to leave the directory.\<close>

definition sample_archive :: archive where
  "sample_archive buffer =
     (if buffer = ''good'' then Inr ([sample_entry ''job.js'' ''x'', sample_entry ''manifest.json'' ''m''], None)
      else Inr ([sample_entry ''job.js'' ''x'', sample_entry ''../../etc/passwd'' ''y''], None))"

definition sample_parse :: json_parser where
  "sample_parse t = Inr (JObj [(''entrypoint'', JStr ''job.js''), (''runtime'', JStr ''javascript''), (''wrapperVersion'', JStr ''1'')])"

definition sample_os :: os where
  "sample_os = \<lparr>os_fs = (\<lambda>p. if p = [] \<or> p = [''tmp''] then Some Dir else None), os_faults = []\<rparr>"

lemmas path_eval = norm_segment_def norm_segments_def path_isAbsolute_def path_normalize_def
  normalizeZipRelativePath_def blank_def js_space_def endsWith_def Let_def

lemma sample_names:
  "normalizeZipRelativePath ''job.js'' l = Inr ''job.js''"
  "normalizeZipRelativePath ''manifest.json'' l = Inr ''manifest.json''"
  "isl (normalizeZipRelativePath ''../../etc/passwd'' l)"
  by (simp_all add: path_eval)

lemma sample_policy:
  "validateZipEntryPolicy ''job.js'' (sample_entry ''job.js'' c) = Inr ''job.js''"
  "validateZipEntryPolicy ''manifest.json'' (sample_entry ''manifest.json'' c) = Inr ''manifest.json''"
  by (simp_all add: validateZipEntryPolicy_def sample_names isDeniedPath_def isZipEntrySymlink_def
      sample_entry_def DENIED_FILENAMES_def DENIED_DIRECTORY_NAMES_def Let_def endsWith_def)

lemma sample_zip_valid:
  "\<exists>info. validateZipBuffer sample_archive sample_parse ''good'' (JStr ''job.js'') JUndefined JUndefined = Inr info"
  "\<exists>info. validateZipBuffer sample_archive sample_parse ''good'' (JStr ''job.js'') (JStr ''javascript'') (JStr ''1'') = Inr info"
proof -
  have names: "ze_fileName (sample_entry n c) = n" "ze_uncompressedSize (sample_entry n c) = length c"
    "ze_stream (sample_entry n c) = Inr ([c], None)" for n c by (simp_all add: sample_entry_def)
  have dirs: "\<not> isZipEntryDirectory ''job.js''" "\<not> isZipEntryDirectory ''manifest.json''"
    by (simp_all add: isZipEntryDirectory_def endsWith_def)
  show "\<exists>info. validateZipBuffer sample_archive sample_parse ''good'' (JStr ''job.js'') JUndefined JUndefined = Inr info"
    "\<exists>info. validateZipBuffer sample_archive sample_parse ''good'' (JStr ''job.js'') (JStr ''javascript'') (JStr ''1'') = Inr info"
    by (simp_all add: validateZipBuffer_def sample_archive_def validate_entry_def names sample_policy dirs Let_def
        readManifest_def sample_parse_def validateManifestContract_def assertManifestField_def
        MAX_ZIP_BYTES_def MAX_FILE_COUNT_def MAX_UNCOMPRESSED_BYTES_def MAX_MANIFEST_BYTES_def)
qed

section \<open>Properties\<close>



text \<open>
  C8. Extraction never leaves its directory: whatever the archive holds, whatever entrypoint is asked
  for and whichever file system calls fail, every path outside the extraction directory has after
  the call the node it had before.
\<close>

theorem safeZipExtract_inside:
  assumes "path_isAbsolute dir" and "path_segments dir \<noteq> []"
    and "\<And>q. strict_prefix q (path_segments dir) \<Longrightarrow> os_fs s q = Some Dir"
    and "safeZipExtract readArchive cwd dir maxFC maxUB buffer entrypoint s = (r, s')"
    and "\<not> prefix (path_segments dir) p"
  shows "os_fs s' p = os_fs s p"
  using keepsD [OF safeZipExtract_contained [OF assms(1,2)] assms(4)] assms(3,5)
  by (cases "strict_prefix p (path_segments dir)") (auto simp: stays_inside_def)

text \<open>The hostile archive does not touch \<open>/etc/passwd\<close>.\<close>

theorem safeZipExtract_inside_witness:
  "os_fs (snd (safeZipExtract sample_archive ''/'' ''/tmp/iga-job-1'' 200 1000 ''evil'' ''job.js'' sample_os))
     [''etc'', ''passwd''] = None"
proof -
  have segs: "path_segments ''/tmp/iga-job-1'' = [''tmp'', ''iga-job-1'']"
    by (simp add: path_segments_def norm_segments_def norm_segment_def)
  obtain r s' where run: "safeZipExtract sample_archive ''/'' ''/tmp/iga-job-1'' 200 1000 ''evil'' ''job.js'' sample_os = (r, s')"
    by fastforce
  have "os_fs s' [''etc'', ''passwd''] = os_fs sample_os [''etc'', ''passwd'']"
  proof (rule safeZipExtract_inside [OF _ _ _ run])
    show "path_isAbsolute ''/tmp/iga-job-1''" by (simp add: path_isAbsolute_def)
    show "os_fs sample_os q = Some Dir" if "strict_prefix q (path_segments ''/tmp/iga-job-1'')" for q
      using that unfolding segs by (auto simp: sample_os_def strict_prefix_def prefix_Cons)
  qed (simp_all add: segs)
  then show ?thesis using run by (simp add: sample_os_def)
qed

text \<open>
  A rejected archive leaves nothing behind: when extraction throws and the file system itself did
  not fail, the file system is exactly as before.
\<close>

lemma safeZipExtract_cleans_up:
  assumes "path_isAbsolute dir" and "path_segments dir \<noteq> []"
    and "\<And>q. strict_prefix q (path_segments dir) \<Longrightarrow> os_fs s q = Some Dir"
    and "\<And>q. prefix (path_segments dir) q \<Longrightarrow> os_fs s q = None" and "os_faults s = []"
    and "safeZipExtract readArchive cwd dir maxFC maxUB buffer entrypoint s = (Inl e, s')"
  shows "os_fs s' = os_fs s"
proof
  fix p
  show "os_fs s' p = os_fs s p"
  proof (cases "prefix (path_segments dir) p")
    case True
    with failed_extraction_removes [OF assms(5,4,6)] assms(4) show ?thesis by simp
  next
    case False
    then show ?thesis
      using keepsD [OF safeZipExtract_contained [OF assms(1,2)] assms(6)] assms(3)
      by (cases "strict_prefix p (path_segments dir)") (auto simp: stays_inside_def)
  qed
qed

text \<open>The hostile archive is rejected at its second entry, after the first was written.\<close>

text \<open>
  The symlink test reads the file type of the Unix mode in the upper half of the external
  attributes: the sign extension of JavaScript's shift does not change its answer.
\<close>

lemma isZipEntrySymlink_mode:
  "isZipEntrySymlink e \<longleftrightarrow>
     drop_bit 16 (ze_externalFileAttributes e) AND 0xF000 = 0xA000 \<or>
     (drop_bit 16 (ze_externalFileAttributes e) AND 0xF000 = 0 \<and> \<not> bit (ze_externalFileAttributes e) 4 \<and>
      endsWith (ze_fileName e) ''.lnk'')"
proof -
  have "w AND 0x10 = 0 \<longleftrightarrow> \<not> bit w 4" for w :: "32 word"
    using and_exp_eq_0_iff_not_bit [of w 4] by simp
  then show ?thesis by (simp add: isZipEntrySymlink_def Let_def unix_mode_unsigned)
qed

end
