(* ===== verification/Worker_Run.thy ===== *)
theory Worker_Run
  imports Local_Run_Store Retry_Classifier Zip_Artifact
begin

text \<open>
  \<open>WorkerRunService\<close> of \<open>src/src/services/workerRunService.js\<close> over the run store interface. Its
  collaborators are parameters of the record \<open>worker_env\<close>: the definitions index, the object store,
  the hash, the ZIP library, the parameter resolver, the runtime executor and the isolated launcher.
  Clock readings and UUIDs are drawn from \<open>we_now\<close> and \<open>we_uuid\<close>, counted by \<open>wk_step\<close>. Other
  processes work on the tables before every store call: \<open>we_others\<close> is any function.
\<close>

section \<open>Environment and state\<close>

record execution =
  xe_definition :: js
  xe_artifact :: js

record 'db worker_env =
  we_store :: "'db run_store"
  we_others :: "nat \<Rightarrow> 'db \<Rightarrow> 'db"
  we_now :: "nat \<Rightarrow> instant"
  we_uuid :: "nat \<Rightarrow> string"
  we_esGet :: "string \<Rightarrow> js_error + js"
  we_download :: "string \<Rightarrow> string \<Rightarrow> string \<Rightarrow> js_error + string"
  we_sha256 :: "string \<Rightarrow> string"
  we_archive :: archive
  we_parseJson :: json_parser
  we_resolveParameters :: "js \<Rightarrow> js_error + js"
  we_execute :: "run_doc \<Rightarrow> execution \<Rightarrow> string \<Rightarrow> js \<Rightarrow> js_error + js"
  we_launcher :: "(run_doc \<Rightarrow> execution \<Rightarrow> js \<Rightarrow> js_error + js) option"
  we_isolated :: bool
  we_maxLocalConcurrency :: nat
  we_auditEnabled :: bool
  we_auditFails :: "js \<Rightarrow> bool"
  we_auditActor :: string

record 'db worker =
  wk_db :: 'db
  wk_audit :: "js list"
  wk_localRunning :: nat
  wk_step :: nat

text \<open>The constructor; the initial step counter is the environment's.\<close>

definition newWorkerRunService :: "'db worker_env \<Rightarrow> 'db \<Rightarrow> js_error + 'db worker" where
  "newWorkerRunService env db =
     (if we_isolated env \<and> we_launcher env = None
      then Inl (newError ''isolatedRuntimeLauncher is required when executionMode is isolated'')
      else Inr \<lparr>wk_db = db, wk_audit = [], wk_localRunning = 0, wk_step = 0\<rparr>)"

text \<open>A call of the run store, a clock reading, a random UUID, and a call that may throw but keeps the state.\<close>

definition store_call :: "'db worker_env \<Rightarrow> ('db, 'a) eff \<Rightarrow> ('db worker, 'a) eff" where
  "store_call env m = (\<lambda>w.
     let (r, d) = m (we_others env (wk_step w) (wk_db w)) in (r, w\<lparr>wk_db := d, wk_step := Suc (wk_step w)\<rparr>))"

definition now :: "'db worker_env \<Rightarrow> ('db worker, instant) eff" where
  "now env = (\<lambda>w. (Inr (we_now env (wk_step w)), w\<lparr>wk_step := Suc (wk_step w)\<rparr>))"

definition randomUUID :: "'db worker_env \<Rightarrow> ('db worker, string) eff" where
  "randomUUID env = (\<lambda>w. (Inr (we_uuid env (wk_step w)), w\<lparr>wk_step := Suc (wk_step w)\<rparr>))"

definition outcome :: "js_error + 'a \<Rightarrow> ('s, 'a) eff" where
  "outcome r = (case r of Inl e \<Rightarrow> throw e | Inr a \<Rightarrow> ret a)"

definition iso :: "instant \<Rightarrow> js" where
  "iso t = JStr (toISOString t)"

definition js_version :: "int option \<Rightarrow> js" where
  "js_version v = (case v of None \<Rightarrow> JNull | Some n \<Rightarrow> JInt n)"

section \<open>Pure helpers\<close>

definition executionMetadataError :: "string \<Rightarrow> string \<Rightarrow> js \<Rightarrow> js_error" where
  "executionMetadataError code message retryable =
     (newError message)\<lparr>e_code := JStr code,
       e_retryable := (case retryable of JBool b \<Rightarrow> JBool b | _ \<Rightarrow> JUndefined)\<rparr>"

definition skippedResult :: "string \<Rightarrow> string \<Rightarrow> js" where
  "skippedResult runId st =
     JObj [(''status'', JStr ''skipped''), (''runId'', JStr runId), (''state'', JStr st),
           (''message'', JStr (''Run is '' @ st @ ''; worker execution was not started''))]"

definition execution_fields :: "string list" where
  "execution_fields = [''status'', ''runId'', ''runtime'', ''runtimeVersion'', ''entrypoint'', ''exitCode'',
     ''signal'', ''timedOut'', ''timeoutSeconds'', ''stdout'', ''stderr'', ''stdoutTruncated'',
     ''stderrTruncated'', ''output'', ''startedAt'', ''endedAt'']"

definition normalizeExecutionResult :: "js \<Rightarrow> js" where
  "normalizeExecutionResult result = JObj (map (\<lambda>k. (k, js_prop result k)) execution_fields)"

definition serializeError :: "js_error \<Rightarrow> classification option \<Rightarrow> js" where
  "serializeError error retryClassification =
     (let execution = normalizeExecutionResult (js_or (e_execution error) (JObj []));
          hasExecution = (\<exists>k \<in> set execution_fields. js_prop execution k \<noteq> JUndefined) in
      JObj ([(''code'', e_code error), (''message'', JStr (e_message error))] @
            (if hasExecution then [(''execution'', execution)] else []) @
            (case retryClassification of Some c \<Rightarrow> [(''retry'', js_of_classification c)] | None \<Rightarrow> [])))"

definition runtimeCompletionError :: "js \<Rightarrow> js \<Rightarrow> js_error" where
  "runtimeCompletionError completion normalizedResult =
     (let err = js_prop completion ''error'';
          code = js_or (js_prop err ''code'')
                   (JStr (if truthy (js_prop completion ''timedOut'') then ''RUNTIME_PROCESS_TIMED_OUT''
                          else ''RUNTIME_PROCESS_EXITED_NON_ZERO''));
          message = js_or (js_or (js_prop err ''message'') (js_prop completion ''stderr''))
                      (JStr (''Runtime exited with code '' @ js_String (js_prop completion ''exitCode'')));
          r = js_prop completion ''retryable'' in
      (newError (js_String message))\<lparr>e_code := code, e_execution := normalizedResult,
         e_retryable := (case r of JBool b \<Rightarrow> JBool b | _ \<Rightarrow> JUndefined)\<rparr>)"

text \<open>\<open>parseGcsUri\<close>; the value comes from a truthy metadata field.\<close>

definition uriInvalid :: "string \<Rightarrow> js_error" where
  "uriInvalid uri = executionMetadataError ''ARTIFACT_URI_INVALID'' (''invalid GCS artifact URI: '' @ uri) JUndefined"

definition parseGcsUri :: "js \<Rightarrow> js_error + string \<times> string" where
  "parseGcsUri uri =
     (case uri of
        JStr u \<Rightarrow>
          if u = [] \<or> \<not> startsWith u ''gs://'' then Inl (uriInvalid u)
          else let withoutScheme = drop 5 u;
                   bucket = takeWhile (\<lambda>c. c \<noteq> CHR ''/'') withoutScheme;
                   object = drop (Suc (length bucket)) withoutScheme in
            if bucket = [] \<or> CHR ''/'' \<notin> set withoutScheme \<or> object = [] then Inl (uriInvalid u)
            else Inr (bucket, object)
      | _ \<Rightarrow> Inl (if truthy uri then newError ''uri.startsWith is not a function'' else uriInvalid (js_String uri)))"

text \<open>\<open>getDefinition\<close>: a missing document is \<open>null\<close>.\<close>

definition getDefinition :: "'db worker_env \<Rightarrow> string \<Rightarrow> js_error + js" where
  "getDefinition env definitionId =
     (case we_esGet env definitionId of
        Inr d \<Rightarrow> Inr d
      | Inl e \<Rightarrow> if e_meta_statusCode e = JInt 404 \<or> e_statusCode e = JInt 404 then Inr JNull else Inl e)"

definition definition_fields :: "string list" where
  "definition_fields = [''definitionId'', ''version'', ''runtime'', ''runtimeVersion'', ''wrapperVersion'',
     ''entrypoint'', ''timeoutSeconds'']"

definition missingArtifact :: "js \<Rightarrow> bool" where
  "missingArtifact a \<longleftrightarrow> \<not> truthy (js_prop a ''uri'') \<or> \<not> truthy (js_prop a ''sha256'') \<or> \<not> truthy (js_prop a ''generation'')"

text \<open>The checks both branches of \<open>buildExecutionMetadata\<close> make, in their order.\<close>

definition metadata_checks :: "run_doc \<Rightarrow> js \<Rightarrow> js \<Rightarrow> js \<Rightarrow> js \<Rightarrow> js \<Rightarrow> js_error option" where
  "metadata_checks run def enabled st version artifact =
     (let i = rn_definitionId run in
      if \<not> truthy def
      then Some (executionMetadataError ''DEFINITION_NOT_FOUND'' (''job definition '' @ i @ '' was not found'') JUndefined)
      else if enabled \<noteq> JBool True \<or> st \<noteq> JStr ''ACTIVE''
      then Some (executionMetadataError ''DEFINITION_NOT_ACTIVE'' (''job definition '' @ i @ '' is not active'') JUndefined)
      else if version \<noteq> js_version (rn_definitionVersion run)
      then Some (executionMetadataError ''DEFINITION_VERSION_MISMATCH''
             (''run requires definition version '' @ js_String (js_version (rn_definitionVersion run)) @
              '', but current version is '' @ js_String version) JUndefined)
      else if missingArtifact artifact
      then Some (executionMetadataError ''DEFINITION_ARTIFACT_MISSING''
             (''job definition '' @ i @ '' is missing approved artifact metadata'') JUndefined)
      else None)"

definition buildExecutionMetadata :: "'db worker_env \<Rightarrow> run_doc \<Rightarrow> js_error + execution" where
  "buildExecutionMetadata env run =
     (if rn_definitionId run = []
      then Inl (executionMetadataError ''RUN_DEFINITION_MISSING'' ''run definitionId is required'' JUndefined)
      else if truthy (rn_executionMetadata run) then
        (let snapshot = rn_executionMetadata run; def = js_prop snapshot ''definition''; a = js_prop snapshot ''artifact'' in
         case metadata_checks run def (js_prop snapshot ''definitionEnabled'') (js_prop snapshot ''definitionState'')
                (js_prop def ''version'') a of
           Some e \<Rightarrow> Inl e
         | None \<Rightarrow> Inr \<lparr>xe_definition = def,
                        xe_artifact = js_set a ''generation'' (JStr (js_String (js_prop a ''generation'')))\<rparr>)
      else case getDefinition env (rn_definitionId run) of
        Inl e \<Rightarrow> Inl e
      | Inr d \<Rightarrow>
          (let z = js_prop d ''jobZip'' in
           case metadata_checks run d (js_prop d ''enabled'') (js_prop d ''state'') (js_prop d ''version'') z of
             Some e \<Rightarrow> Inl e
           | None \<Rightarrow> Inr \<lparr>xe_definition = JObj (map (\<lambda>k. (k, js_prop d k)) definition_fields),
                          xe_artifact = JObj [(''uri'', js_prop z ''uri''), (''sha256'', js_prop z ''sha256''),
                                              (''generation'', JStr (js_String (js_prop z ''generation'')))]\<rparr>))"

record verification =
  ve_sha256 :: string
  ve_generation :: js
  ve_fileCount :: nat
  ve_uncompressedBytes :: nat
  ve_buffer :: string

definition verifyApprovedArtifact :: "'db worker_env \<Rightarrow> execution \<Rightarrow> js_error + verification" where
  "verifyApprovedArtifact env x =
     (let uri = js_prop (xe_artifact x) ''uri''; generation = js_prop (xe_artifact x) ''generation'' in
      case parseGcsUri uri of
        Inl e \<Rightarrow> Inl e
      | Inr (bucketName, objectName) \<Rightarrow>
          (case we_download env bucketName objectName (js_String generation) of
             Inl e \<Rightarrow> Inl (executionMetadataError ''ARTIFACT_DOWNLOAD_FAILED''
                            (''approved artifact download failed for '' @ js_String uri @ '': '' @ e_message e) JUndefined)
           | Inr buffer \<Rightarrow>
               if JStr (we_sha256 env buffer) \<noteq> js_prop (xe_artifact x) ''sha256''
               then Inl (executionMetadataError ''ARTIFACT_SHA256_MISMATCH''
                          (''approved artifact sha256 mismatch for '' @ js_String uri) JUndefined)
               else case validateZipBuffer (we_archive env) (we_parseJson env) buffer
                           (js_prop (xe_definition x) ''entrypoint'') (js_prop (xe_definition x) ''runtime'')
                           (js_prop (xe_definition x) ''wrapperVersion'') of
                      Inl e \<Rightarrow> Inl (executionMetadataError ''ARTIFACT_ZIP_INVALID'' (e_message e) (JBool False))
                    | Inr info \<Rightarrow> Inr \<lparr>ve_sha256 = we_sha256 env buffer, ve_generation = generation,
                         ve_fileCount = zi_fileCount info, ve_uncompressedBytes = zi_uncompressedBytes info,
                         ve_buffer = buffer\<rparr>))"

definition buildRuntimeContext :: "run_doc \<Rightarrow> execution \<Rightarrow> js \<Rightarrow> js" where
  "buildRuntimeContext run x params =
     JObj [(''runId'', JStr (rn_runId run)), (''definition'', xe_definition x),
           (''instance'', JObj [(''instanceId'', JStr (rn_instanceId run))]),
           (''scheduledFireTime'', iso (rn_scheduledFireTime run)),
           (''attempt'', js_version (rn_attempt run)), (''params'', params)]"

section \<open>Audit events\<close>

record audit_extra =
  ax_run :: "run_doc option"
  ax_definition :: js
  ax_createdAt :: "instant option"
  ax_error :: "js_error option"
  ax_retry :: "classification option"
  ax_details :: js

definition plain :: audit_extra where
  "plain = \<lparr>ax_run = None, ax_definition = JUndefined, ax_createdAt = None, ax_error = None, ax_retry = None,
            ax_details = JObj []\<rparr>"

definition buildWorkerAuditEvent ::
  "'db worker_env \<Rightarrow> string \<Rightarrow> string \<Rightarrow> string \<Rightarrow> audit_extra \<Rightarrow> ('db worker, js) eff" where
  "buildWorkerAuditEvent env eventType outc runId x =
     andThen (randomUUID env) (\<lambda>eventId.
     andThen (case ax_createdAt x of Some t \<Rightarrow> ret t | None \<Rightarrow> now env) (\<lambda>createdAt.
     ret (JObj (
       [(''eventId'', JStr eventId), (''eventType'', JStr eventType), (''outcome'', JStr outc),
        (''actor'', JStr (we_auditActor env)), (''runId'', JStr runId), (''createdAt'', iso createdAt),
        (''details'', ax_details x)] @
       (case ax_run x of Some run \<Rightarrow> [(''jobDefinitionId'', JStr (rn_definitionId run)),
                                     (''jobInstanceId'', JStr (rn_instanceId run))] | None \<Rightarrow> []) @
       (if truthy (ax_definition x)
        then map (\<lambda>k. (k, js_prop (ax_definition x) k)) [''runtime'', ''runtimeVersion'', ''entrypoint''] else []) @
       (case ax_error x of Some e \<Rightarrow> [(''errorCode'', e_code e), (''errorMessage'', JStr (e_message e))] | None \<Rightarrow> []) @
       (case ax_retry x of Some c \<Rightarrow> [(''retryable'', JBool (cl_retryable c)),
            (''retryClassification'', JStr (cl_classification c)), (''retryReason'', JStr (cl_reason c))] | None \<Rightarrow> [])))))"

text \<open>A failing write of an event is logged and ignored.\<close>

definition emitAuditEvent :: "'db worker_env \<Rightarrow> js \<Rightarrow> ('db worker, unit) eff" where
  "emitAuditEvent env event = (\<lambda>w.
     (Inr (), if we_auditEnabled env \<and> \<not> we_auditFails env event then w\<lparr>wk_audit := wk_audit w @ [event]\<rparr> else w))"

definition audit :: "'db worker_env \<Rightarrow> string \<Rightarrow> string \<Rightarrow> string \<Rightarrow> audit_extra \<Rightarrow> ('db worker, unit) eff" where
  "audit env eventType outc runId x =
     andThen (buildWorkerAuditEvent env eventType outc runId x) (emitAuditEvent env)"

section \<open>The service\<close>

definition worker_markFailed ::
  "'db worker_env \<Rightarrow> string \<Rightarrow> instant \<Rightarrow> js_error \<Rightarrow> classification \<Rightarrow> string option \<Rightarrow> ('db worker, bool) eff" where
  "worker_markFailed env runId endedAt error retryClassification dispatchId =
     store_call env (rs_markFailed (we_store env) runId endedAt
       (serializeError error (Some retryClassification)) JUndefined dispatchId)"

definition worker_markSucceeded ::
  "'db worker_env \<Rightarrow> string \<Rightarrow> instant \<Rightarrow> js \<Rightarrow> string option \<Rightarrow> ('db worker, bool) eff" where
  "worker_markSucceeded env runId endedAt res dispatchId =
     store_call env (rs_markSucceeded (we_store env) runId endedAt res JUndefined dispatchId)"

text \<open>\<open>claimQueuedRun\<close> returns the run, the start time and the claim: \<open>Inl\<close> the state of a run that was not claimed.\<close>

definition runNotFound :: js_error where
  "runNotFound = (newError ''run not found'')\<lparr>e_statusCode := JInt 404\<rparr>"

definition runIdRequired :: js_error where
  "runIdRequired = (newError ''runId is required'')\<lparr>e_statusCode := JInt 400\<rparr>"

definition claimQueuedRun :: "'db worker_env \<Rightarrow> string \<Rightarrow> ('db worker, string + run_doc \<times> instant) eff" where
  "claimQueuedRun env runId =
     (if runId = [] then throw runIdRequired
      else andThen (audit env ''worker.run.received'' ''received'' runId plain) (\<lambda>_.
        andThen (store_call env (rs_getRun (we_store env) runId)) (\<lambda>found. case found of
          None \<Rightarrow>
            andThen (audit env ''worker.execution.failed'' ''failure'' runId
              (plain\<lparr>ax_error := Some runNotFound, ax_retry := Some (classifyWorkerError runNotFound)\<rparr>)) (\<lambda>_. throw runNotFound)
        | Some run \<Rightarrow>
            if rn_state run \<noteq> QUEUED then
              andThen (audit env ''worker.claim.skipped'' ''skipped'' runId
                (plain\<lparr>ax_run := Some run, ax_details := JObj [(''state'', JStr (state_text (rn_state run))),
                   (''reason'', JStr ''run_not_queued'')]\<rparr>)) (\<lambda>_. ret (Inl (state_text (rn_state run))))
            else
              andThen (now env) (\<lambda>startedAt.
              andThen (audit env ''worker.claim.attempted'' ''attempted'' runId
                (plain\<lparr>ax_run := Some run, ax_createdAt := Some startedAt,
                   ax_details := JObj [(''startedAt'', iso startedAt)]\<rparr>)) (\<lambda>_.
              andThen (randomUUID env) (\<lambda>uuid.
              andThen (store_call env (rs_claimRun (we_store env) uuid runId startedAt JUndefined)) (\<lambda>claim. case claim of
                Claimed dispatchId \<Rightarrow>
                  (let claimedRun = run\<lparr>rn_dispatchId := dispatchId\<rparr>;
                       x = plain\<lparr>ax_run := Some claimedRun, ax_createdAt := Some startedAt,
                                 ax_details := JObj [(''startedAt'', iso startedAt)]\<rparr> in
                   andThen (audit env ''worker.claim.succeeded'' ''claimed'' runId x) (\<lambda>_.
                   andThen (audit env ''WORKER_RUN_STARTED'' ''success'' runId x) (\<lambda>_.
                   ret (Inr (claimedRun, startedAt)))))
              | _ \<Rightarrow>
                  andThen (store_call env (rs_getRun (we_store env) runId)) (\<lambda>latest.
                    let st = (case latest of Some l \<Rightarrow> state_text (rn_state l) | None \<Rightarrow> ''UNKNOWN'');
                        reason = (if claim = MissingRun then ''run_missing_during_claim'' else ''claim_not_acquired'') in
                    andThen (audit env ''worker.claim.skipped'' ''skipped'' runId
                      (plain\<lparr>ax_run := Some (case latest of Some l \<Rightarrow> l | None \<Rightarrow> run), ax_createdAt := Some startedAt,
                         ax_details := JObj [(''state'', JStr st), (''reason'', JStr reason)]\<rparr>)) (\<lambda>_.
                    ret (Inl st))))))))))"

definition artifact_details :: "execution \<Rightarrow> verification \<Rightarrow> js" where
  "artifact_details x v = JObj [(''uri'', js_prop (xe_artifact x) ''uri''), (''sha256'', JStr (ve_sha256 v)),
     (''generation'', ve_generation v), (''fileCount'', JInt (int (ve_fileCount v))),
     (''uncompressedBytes'', JInt (int (ve_uncompressedBytes v)))]"

text \<open>
  The body of \<open>_runClaimedLocally\<close> inside its \<open>try\<close>: the result object, or an exception. Its tail,
  from the result of the executor on, is \<open>finish_run\<close>.
\<close>

definition runtime_info :: "execution \<Rightarrow> (string \<times> js) list" where
  "runtime_info x = map (\<lambda>k. (k, js_prop (xe_definition x) k)) [''runtime'', ''runtimeVersion'', ''entrypoint'']"

definition run_extra :: "run_doc \<Rightarrow> execution \<Rightarrow> instant \<Rightarrow> js \<Rightarrow> audit_extra" where
  "run_extra run x createdAt details =
     plain\<lparr>ax_run := Some run, ax_definition := xe_definition x, ax_createdAt := Some createdAt, ax_details := details\<rparr>"

definition finish_run :: "'db worker_env \<Rightarrow> run_doc \<Rightarrow> execution \<Rightarrow> verification \<Rightarrow> instant \<Rightarrow> js \<Rightarrow> ('db worker, js) eff" where
  "finish_run env run x v startedAt res =
     andThen (now env) (\<lambda>endedAt.
     let runId = rn_runId run; normalizedResult = normalizeExecutionResult res in
     andThen (worker_markSucceeded env runId endedAt normalizedResult (rn_dispatchId run)) (\<lambda>updated.
     if \<not> updated then ret (skippedResult runId ''CANCELLED'')
     else
       andThen (audit env ''worker.execution.succeeded'' ''success'' runId
         (run_extra run x endedAt (JObj ([(''startedAt'', iso startedAt), (''endedAt'', iso endedAt)] @ runtime_info x @
            [(''artifact'', artifact_details x v)])))) (\<lambda>_.
       ret (JObj [(''status'', JStr ''completed''), (''runId'', JStr runId), (''state'', JStr ''SUCCEEDED''),
            (''startedAt'', iso startedAt), (''endedAt'', iso endedAt), (''result'', normalizedResult)]))))"

definition run_pipeline :: "'db worker_env \<Rightarrow> run_doc \<Rightarrow> instant \<Rightarrow> ('db worker, js) eff" where
  "run_pipeline env run startedAt =
     andThen (outcome (buildExecutionMetadata env run)) (\<lambda>x.
     andThen (audit env ''worker.metadata.loaded'' ''loaded'' (rn_runId run)
       (run_extra run x startedAt (JObj (runtime_info x)))) (\<lambda>_.
     andThen (outcome (verifyApprovedArtifact env x)) (\<lambda>v.
     andThen (audit env ''worker.artifact.verified'' ''verified'' (rn_runId run)
       (run_extra run x startedAt (JObj [(''artifact'', artifact_details x v)]))) (\<lambda>_.
     andThen (audit env ''worker.execution.started'' ''started'' (rn_runId run)
       (run_extra run x startedAt (JObj []))) (\<lambda>_.
     andThen (outcome (we_resolveParameters env (js_or (rn_params run) (JObj [])))) (\<lambda>params.
     andThen (outcome (we_execute env run x (ve_buffer v) (buildRuntimeContext run x params))) (\<lambda>res.
     finish_run env run x v startedAt res)))))))"

text \<open>The \<open>catch\<close> block shared by local and dispatched runs: record the failure and rethrow.\<close>

definition fail_run :: "'db worker_env \<Rightarrow> string \<Rightarrow> run_doc \<Rightarrow> instant \<Rightarrow> js_error \<Rightarrow> ('db worker, js) eff" where
  "fail_run env runId run startedAt error =
     andThen (now env) (\<lambda>endedAt.
     let c = classifyWorkerError error in
     andThen (worker_markFailed env runId endedAt error c (rn_dispatchId run)) (\<lambda>_.
     andThen (audit env ''worker.execution.failed'' ''failure'' runId
       (plain\<lparr>ax_run := Some run, ax_createdAt := Some endedAt, ax_error := Some error, ax_retry := Some c,
              ax_details := JObj [(''startedAt'', iso startedAt), (''endedAt'', iso endedAt)]\<rparr>)) (\<lambda>_.
     throw error)))"

definition runClaimedLocally :: "'db worker_env \<Rightarrow> run_doc \<Rightarrow> instant \<Rightarrow> ('db worker, js) eff" where
  "runClaimedLocally env run startedAt =
     tryCatch (run_pipeline env run startedAt) (fail_run env (rn_runId run) run startedAt)"

definition executeClaimedRun :: "'db worker_env \<Rightarrow> string \<Rightarrow> string option \<Rightarrow> ('db worker, js) eff" where
  "executeClaimedRun env runId dispatchId =
     andThen (now env) (\<lambda>startedAt.
     andThen (store_call env (rs_getRun (we_store env) runId)) (\<lambda>fetched. case fetched of
       None \<Rightarrow> ret (skippedResult runId ''UNKNOWN'')
     | Some run \<Rightarrow> runClaimedLocally env (run\<lparr>rn_dispatchId := dispatchId\<rparr>) startedAt))"

definition executeRunLocallyInternal :: "'db worker_env \<Rightarrow> string \<Rightarrow> ('db worker, js) eff" where
  "executeRunLocallyInternal env runId =
     andThen (claimQueuedRun env runId) (\<lambda>claim. case claim of
       Inl st \<Rightarrow> ret (skippedResult runId (str_or st ''UNKNOWN''))
     | Inr (run, startedAt) \<Rightarrow> runClaimedLocally env run startedAt)"

text \<open>The concurrency guard and its \<open>finally\<close> block.\<close>

definition executeRunLocally :: "'db worker_env \<Rightarrow> string \<Rightarrow> ('db worker, js) eff" where
  "executeRunLocally env runId = (\<lambda>w.
     if wk_localRunning w \<ge> we_maxLocalConcurrency env
     then (Inl (executionMetadataError ''WORKER_LOCAL_CONCURRENCY_EXCEEDED''
                  ''local worker concurrency limit exceeded'' (JBool True)), w)
     else let (r, w') = executeRunLocallyInternal env runId (w\<lparr>wk_localRunning := wk_localRunning w + 1\<rparr>)
          in (r, w'\<lparr>wk_localRunning := wk_localRunning w' - 1\<rparr>))"

definition dispatch_pipeline :: "'db worker_env \<Rightarrow> (run_doc \<Rightarrow> execution \<Rightarrow> js \<Rightarrow> js_error + js) \<Rightarrow> string \<Rightarrow> run_doc \<Rightarrow> instant \<Rightarrow> ('db worker, js) eff" where
  "dispatch_pipeline env launch runId run startedAt =
     andThen (outcome (buildExecutionMetadata env run)) (\<lambda>x.
     andThen (outcome (launch run x (buildRuntimeContext run x (js_or (rn_params run) (JObj []))))) (\<lambda>runtimeExecution.
     andThen (store_call env (rs_recordRuntimeExecution (we_store env) runId runtimeExecution startedAt JUndefined (rn_dispatchId run))) (\<lambda>_.
     andThen (audit env ''worker.execution.dispatched'' ''dispatched'' runId
       (plain\<lparr>ax_run := Some run, ax_definition := xe_definition x, ax_createdAt := Some startedAt,
              ax_details := JObj [(''runtimeExecution'', runtimeExecution)]\<rparr>)) (\<lambda>_.
     ret (JObj [(''status'', JStr ''dispatched''), (''runId'', JStr runId), (''state'', JStr ''RUNNING''),
          (''startedAt'', iso startedAt), (''runtimeExecution'', runtimeExecution)])))))"

definition dispatchRun :: "'db worker_env \<Rightarrow> string \<Rightarrow> ('db worker, js) eff" where
  "dispatchRun env runId =
     (case we_launcher env of
        None \<Rightarrow> throw (executionMetadataError ''RUNTIME_ISOLATION_REQUIRED''
                  ''isolated runtime launcher is required for dispatch mode'' (JBool False))
      | Some launch \<Rightarrow>
          andThen (claimQueuedRun env runId) (\<lambda>claim. case claim of
            Inl st \<Rightarrow> ret (skippedResult runId (str_or st ''UNKNOWN''))
          | Inr (run, startedAt) \<Rightarrow>
              tryCatch (dispatch_pipeline env launch runId run startedAt) (fail_run env runId run startedAt)))"

definition executeRun :: "'db worker_env \<Rightarrow> string \<Rightarrow> ('db worker, js) eff" where
  "executeRun env runId = (if we_isolated env then dispatchRun env runId else executeRunLocally env runId)"

text \<open>
  \<open>completeRun\<close>: the callback of an isolated runtime. \<open>reportedEnd\<close> is the parsed \<open>completion.endedAt\<close>.
  The completion writes carry no token.
\<close>

definition completion_succeeded :: "js \<Rightarrow> bool" where
  "completion_succeeded completion \<longleftrightarrow> \<not> truthy (js_prop completion ''error'') \<and>
     (js_prop completion ''exitCode'' = JInt 0 \<or> js_prop completion ''status'' = JStr ''completed'' \<or>
      js_prop completion ''status'' = JStr ''succeeded'')"

definition completeRun :: "'db worker_env \<Rightarrow> string \<Rightarrow> js \<Rightarrow> instant option \<Rightarrow> ('db worker, js) eff" where
  "completeRun env runId completion reportedEnd =
     (if runId = [] then throw runIdRequired
      else if js_prop completion ''exitCode'' = JUndefined \<and> js_prop completion ''status'' = JUndefined
      then throw ((newError ''completion exitCode or status is required'')\<lparr>e_statusCode := JInt 400\<rparr>)
      else andThen (store_call env (rs_getRun (we_store env) runId)) (\<lambda>found. case found of
        None \<Rightarrow> throw runNotFound
      | Some run \<Rightarrow>
          if rn_state run \<noteq> RUNNING then
            andThen (audit env ''worker.completion.skipped'' ''skipped'' runId
              (plain\<lparr>ax_run := Some run, ax_details := JObj [(''state'', JStr (state_text (rn_state run))),
                 (''reason'', JStr ''run_not_running'')]\<rparr>)) (\<lambda>_.
            ret (skippedResult runId (state_text (rn_state run))))
          else
            andThen (case reportedEnd of Some t \<Rightarrow> ret t | None \<Rightarrow> now env) (\<lambda>endedAt.
            let succeeded = completion_succeeded completion;
                normalizedResult = normalizeExecutionResult (js_set (js_set (js_set completion
                  ''status'' (JStr (if succeeded then ''completed'' else ''failed'')))
                  ''runId'' (JStr runId)) ''endedAt'' (iso endedAt));
                x = plain\<lparr>ax_run := Some run, ax_createdAt := Some endedAt,
                          ax_details := JObj [(''endedAt'', iso endedAt), (''result'', normalizedResult)]\<rparr> in
            if succeeded then
              andThen (worker_markSucceeded env runId endedAt normalizedResult None) (\<lambda>updated.
              if \<not> updated then ret (skippedResult runId ''UNKNOWN'')
              else andThen (audit env ''worker.execution.completed'' ''success'' runId x) (\<lambda>_.
                ret (JObj [(''status'', JStr ''completed''), (''runId'', JStr runId), (''state'', JStr ''SUCCEEDED''),
                     (''endedAt'', iso endedAt), (''result'', normalizedResult)])))
            else
              let error = runtimeCompletionError completion normalizedResult; c = classifyWorkerError error in
              andThen (worker_markFailed env runId endedAt error c None) (\<lambda>updated.
              if \<not> updated then ret (skippedResult runId ''UNKNOWN'')
              else andThen (audit env ''worker.execution.completed'' ''failure'' runId
                     (x\<lparr>ax_error := Some error, ax_retry := Some c\<rparr>)) (\<lambda>_.
                ret (JObj [(''status'', JStr ''failed''), (''runId'', JStr runId), (''state'', JStr ''FAILED''),
                     (''endedAt'', iso endedAt), (''error'', serializeError error (Some c))]))))))"

section \<open>Lemmas\<close>

lemma audit_returns: "fst (audit env a b c x w) = Inr ()"
  by (simp add: audit_def buildWorkerAuditEvent_def andThen_def randomUUID_def now_def emitAuditEvent_def split: option.splits)

lemma audit_frame [simp]:
  "wk_db (snd (audit env a b c x w)) = wk_db w"
  "wk_localRunning (snd (audit env a b c x w)) = wk_localRunning w"
  by (simp_all add: audit_def buildWorkerAuditEvent_def andThen_def randomUUID_def now_def emitAuditEvent_def split: option.splits)

lemma andThen_audit [simp]: "andThen (audit env a b c x) k w = k () (snd (audit env a b c x w))"
  using audit_returns [of env a b c x w] by (cases "audit env a b c x w") (simp add: andThen_def)

lemma andThen_now [simp]: "andThen (now env) k w = k (we_now env (wk_step w)) (w\<lparr>wk_step := Suc (wk_step w)\<rparr>)"
  by (simp add: andThen_def now_def)

lemma andThen_uuid [simp]: "andThen (randomUUID env) k w = k (we_uuid env (wk_step w)) (w\<lparr>wk_step := Suc (wk_step w)\<rparr>)"
  by (simp add: andThen_def randomUUID_def)

lemma andThen_outcome [simp]:
  "andThen (outcome (Inl e)) k = throw e" "andThen (outcome (Inr a)) k = k a"
  by (simp_all add: outcome_def)

lemma andThen_store:
  "andThen (store_call env m) k w =
     (case m (we_others env (wk_step w) (wk_db w)) of
        (Inl e, d) \<Rightarrow> (Inl e, w\<lparr>wk_db := d, wk_step := Suc (wk_step w)\<rparr>)
      | (Inr a, d) \<Rightarrow> k a (w\<lparr>wk_db := d, wk_step := Suc (wk_step w)\<rparr>))"
  by (simp add: andThen_def store_call_def split: prod.splits sum.splits)

text \<open>What \<open>completeRun\<close> writes for a report.\<close>

definition completion_result :: "string \<Rightarrow> js \<Rightarrow> instant \<Rightarrow> js" where
  "completion_result i c t = normalizeExecutionResult (js_set (js_set (js_set c
     ''status'' (JStr (if completion_succeeded c then ''completed'' else ''failed'')))
     ''runId'' (JStr i)) ''endedAt'' (iso t))"

definition completion_error :: "string \<Rightarrow> js \<Rightarrow> instant \<Rightarrow> js" where
  "completion_error i c t =
     (let e = runtimeCompletionError c (completion_result i c t) in serializeError e (Some (classifyWorkerError e)))"

lemma parseGcsUri_Inr:
  assumes "parseGcsUri uri = Inr (b, ob)"
  shows "uri = JStr (''gs://'' @ b @ ''/'' @ ob) \<and> b \<noteq> [] \<and> ob \<noteq> [] \<and> CHR ''/'' \<notin> set b"
proof -
  obtain u where u: "uri = JStr u" "startsWith u ''gs://''" "b = takeWhile (\<lambda>c. c \<noteq> CHR ''/'') (drop 5 u)"
    "ob = drop (Suc (length b)) (drop 5 u)" "b \<noteq> []" "CHR ''/'' \<in> set (drop 5 u)" "ob \<noteq> []"
    using assms by (auto simp: parseGcsUri_def Let_def split: js.splits if_splits)
  let ?p = "\<lambda>c. c \<noteq> CHR ''/''"
  have "dropWhile ?p (drop 5 u) \<noteq> []" using u(6) by (simp add: dropWhile_eq_Nil_conv)
  then obtain c rest where cr: "dropWhile ?p (drop 5 u) = c # rest" by (cases "dropWhile ?p (drop 5 u)") auto
  then have "c = CHR ''/''" using hd_dropWhile [of ?p "drop 5 u"] by auto
  then have split: "drop 5 u = b @ ''/'' @ rest" using cr u(3) takeWhile_dropWhile_id [of ?p "drop 5 u"] by simp
  have "CHR ''/'' \<notin> set b" using u(3) set_takeWhileD by fastforce
  moreover have "ob = rest" unfolding u(4) by (simp only: split) simp
  moreover obtain t where "u = ''gs://'' @ t" using u(2) by (auto simp: startsWith_iff)
  ultimately show ?thesis using u split by auto
qed

text \<open>What the steps of a claimed run before its completion write come to.\<close>

definition local_outcome :: "'db worker_env \<Rightarrow> run_doc \<Rightarrow> js_error + js" where
  "local_outcome env run =
     (case buildExecutionMetadata env run of
        Inl e \<Rightarrow> Inl e
      | Inr x \<Rightarrow>
          (case verifyApprovedArtifact env x of
             Inl e \<Rightarrow> Inl e
           | Inr v \<Rightarrow>
               (case we_resolveParameters env (js_or (rn_params run) (JObj [])) of
                  Inl e \<Rightarrow> Inl e
                | Inr params \<Rightarrow> we_execute env run x (ve_buffer v) (buildRuntimeContext run x params))))"

lemma pipeline_fails:
  assumes "local_outcome env run = Inl e"
  shows "\<exists>w'. run_pipeline env run t w = (Inl e, w') \<and> wk_db w' = wk_db w \<and> wk_localRunning w' = wk_localRunning w"
  using assms by (auto simp: local_outcome_def run_pipeline_def Let_def split: sum.splits)

lemma pipeline_finishes:
  assumes "local_outcome env run = Inr res"
  shows "\<exists>x v w1. run_pipeline env run t w = finish_run env run x v t res w1 \<and> wk_db w1 = wk_db w \<and>
    wk_localRunning w1 = wk_localRunning w"
proof -
  obtain x v ps where x: "buildExecutionMetadata env run = Inr x" and v: "verifyApprovedArtifact env x = Inr v"
    and ps: "we_resolveParameters env (js_or (rn_params run) (JObj [])) = Inr ps"
    and ex: "we_execute env run x (ve_buffer v) (buildRuntimeContext run x ps) = Inr res"
    using assms by (auto simp: local_outcome_def split: sum.splits)
  show ?thesis
    by (intro exI [of _ x] exI [of _ v]) (auto simp: run_pipeline_def x v ps ex)
qed

lemma finish_run_cases:
  "(case rs_markSucceeded (we_store env) (rn_runId run) (we_now env (wk_step w)) (normalizeExecutionResult res) JUndefined (rn_dispatchId run)
            (we_others env (Suc (wk_step w)) (wk_db w)) of
       (Inl e, d) \<Rightarrow> \<exists>w'. finish_run env run x v t res w = (Inl e, w') \<and> wk_db w' = d \<and> wk_localRunning w' = wk_localRunning w
     | (Inr True, d) \<Rightarrow> \<exists>a w'. finish_run env run x v t res w = (Inr a, w') \<and> wk_db w' = d \<and>
         wk_localRunning w' = wk_localRunning w \<and> js_prop a ''status'' = JStr ''completed'' \<and>
         js_prop a ''result'' = normalizeExecutionResult res
     | (Inr False, d) \<Rightarrow> \<exists>w'. finish_run env run x v t res w = (Inr (skippedResult (rn_runId run) ''CANCELLED''), w') \<and>
         wk_db w' = d \<and> wk_localRunning w' = wk_localRunning w)"
  by (auto simp: finish_run_def worker_markSucceeded_def andThen_store Let_def split: prod.splits sum.splits bool.splits)

lemma fail_run_cases:
  "(case rs_markFailed (we_store env) i (we_now env (wk_step w)) (serializeError e (Some (classifyWorkerError e))) JUndefined (rn_dispatchId run)
            (we_others env (Suc (wk_step w)) (wk_db w)) of
       (Inl e', d) \<Rightarrow> \<exists>w'. fail_run env i run t e w = (Inl e', w') \<and> wk_db w' = d \<and> wk_localRunning w' = wk_localRunning w
     | (Inr b, d) \<Rightarrow> \<exists>w'. fail_run env i run t e w = (Inl e, w') \<and> wk_db w' = d \<and> wk_localRunning w' = wk_localRunning w)"
  by (auto simp: fail_run_def worker_markFailed_def andThen_store Let_def split: prod.splits sum.splits)

text \<open>The counter of running executions.\<close>

definition same_running :: "'db worker \<Rightarrow> 'db worker \<Rightarrow> bool" where
  "same_running w w' \<longleftrightarrow> wk_localRunning w' = wk_localRunning w"

lemma same_running_rules:
  "reflp same_running" "transp same_running" "keeps same_running (audit env a b c x)" "keeps same_running (now env)"
  "keeps same_running (randomUUID env)" "keeps same_running (store_call env m)"
  by (auto simp: reflp_def transp_def same_running_def keeps_def now_def randomUUID_def store_call_def split: prod.splits)

lemma keeps_outcome: "reflp R \<Longrightarrow> keeps R (outcome r)"
  by (cases r) (simp_all add: outcome_def keeps_ret keeps_throw)

lemmas worker_rules = keeps_andThen keeps_tryCatch keeps_ret keeps_throw keeps_outcome

lemma claim_same_running: "keeps same_running (claimQueuedRun env i)"
  unfolding claimQueuedRun_def Let_def
  by (auto split: option.splits claim.splits intro!: worker_rules same_running_rules)

lemma local_same_running: "keeps same_running (runClaimedLocally env run t)"
  unfolding runClaimedLocally_def run_pipeline_def finish_run_def fail_run_def worker_markSucceeded_def
    worker_markFailed_def Let_def
  by (auto intro!: worker_rules same_running_rules)

lemma internal_same_running: "keeps same_running (executeRunLocallyInternal env i)"
  unfolding executeRunLocallyInternal_def
  by (auto split: sum.splits intro!: worker_rules same_running_rules claim_same_running local_same_running)

text \<open>Claimed runs on a lawful store, with nobody else at work.\<close>

context run_store_laws
begin

lemma executeClaimed_succeeds:
  assumes "we_store env = S" "\<And>k d. we_others env k d = d" "inv (wk_db w)" "up (wk_db w)"
    "view (wk_db w) i = Some r" "jr_state r = RUNNING" "fence d r"
    "local_outcome env ((rowToDocument r)\<lparr>rn_dispatchId := d\<rparr>) = Inr res"
  shows "\<exists>a w' t. executeClaimedRun env i d w = (Inr a, w') \<and> js_prop a ''status'' = JStr ''completed'' \<and>
    view (wk_db w') = (view (wk_db w))(i \<mapsto> succeeded_set t (normalizeExecutionResult res) JUndefined r)"
proof -
  let ?run = "(rowToDocument r)\<lparr>rn_dispatchId := d\<rparr>"
  have id: "rn_runId ?run = i" using view_key [OF assms(3,5)] by (simp add: rowToDocument_def)
  let ?w0 = "w\<lparr>wk_step := Suc (Suc (wk_step w))\<rparr>"
  have start: "executeClaimedRun env i d w = runClaimedLocally env ?run (we_now env (wk_step w)) ?w0"
    using assms(1-5) by (simp add: executeClaimedRun_def andThen_store get_law)
  obtain x v w1 where p: "run_pipeline env ?run (we_now env (wk_step w)) ?w0 = finish_run env ?run x v (we_now env (wk_step w)) res w1"
    and db: "wk_db w1 = wk_db w"
    using pipeline_finishes [OF assms(8), of "we_now env (wk_step w)" ?w0] by auto
  obtain d' where d': "rs_markSucceeded S i (we_now env (wk_step w1)) (normalizeExecutionResult res) JUndefined d (wk_db w) = (Inr True, d')"
    "view d' = (view (wk_db w))(i \<mapsto> succeeded_set (we_now env (wk_step w1)) (normalizeExecutionResult res) JUndefined r)"
    using succeed_law [OF assms(3-7), of JUndefined] by fastforce
  obtain a w' where "finish_run env ?run x v (we_now env (wk_step w)) res w1 = (Inr a, w')" "wk_db w' = d'"
    "js_prop a ''status'' = JStr ''completed''"
    using finish_run_cases [where env = env and run = ?run and w = w1 and res = res and x = x and v = v and t = "we_now env (wk_step w)"] d'(1) assms(1,2) db id by auto
  with p start d'(2) show ?thesis by (auto simp: runClaimedLocally_def tryCatch_def)
qed

lemma executeClaimed_fails:
  assumes "we_store env = S" "\<And>k d. we_others env k d = d" "inv (wk_db w)" "up (wk_db w)"
    "view (wk_db w) i = Some r" "jr_state r = RUNNING" "fence d r"
    "local_outcome env ((rowToDocument r)\<lparr>rn_dispatchId := d\<rparr>) = Inl e"
  shows "\<exists>w' t. executeClaimedRun env i d w = (Inl e, w') \<and>
    view (wk_db w') = (view (wk_db w))(i \<mapsto> failed_set t (serializeError e (Some (classifyWorkerError e))) JUndefined r)"
proof -
  let ?run = "(rowToDocument r)\<lparr>rn_dispatchId := d\<rparr>"
  have id: "rn_runId ?run = i" using view_key [OF assms(3,5)] by (simp add: rowToDocument_def)
  let ?w0 = "w\<lparr>wk_step := Suc (Suc (wk_step w))\<rparr>"
  let ?err = "serializeError e (Some (classifyWorkerError e))"
  have start: "executeClaimedRun env i d w = runClaimedLocally env ?run (we_now env (wk_step w)) ?w0"
    using assms(1-5) by (simp add: executeClaimedRun_def andThen_store get_law)
  obtain w1 where p: "run_pipeline env ?run (we_now env (wk_step w)) ?w0 = (Inl e, w1)" and db: "wk_db w1 = wk_db w"
    using pipeline_fails [OF assms(8), of "we_now env (wk_step w)" ?w0] by auto
  obtain d' where d': "rs_markFailed S i (we_now env (wk_step w1)) ?err JUndefined d (wk_db w) = (Inr True, d')"
    "view d' = (view (wk_db w))(i \<mapsto> failed_set (we_now env (wk_step w1)) ?err JUndefined r)"
    using fail_law [OF assms(3-7), of JUndefined] by fastforce
  obtain w' where "fail_run env i ?run (we_now env (wk_step w)) e w1 = (Inl e, w')" "wk_db w' = d'"
    using fail_run_cases [where env = env and i = i and w = w1 and e = e and run = ?run and t = "we_now env (wk_step w)"] d'(1) assms(1,2) db by auto
  with p start d'(2) id show ?thesis by (auto simp: runClaimedLocally_def tryCatch_def)
qed

lemma complete_missing:
  assumes "we_store env = S" "\<And>k d. we_others env k d = d" "inv (wk_db w)" "up (wk_db w)" "i \<noteq> []"
    "js_prop c ''exitCode'' \<noteq> JUndefined \<or> js_prop c ''status'' \<noteq> JUndefined" "view (wk_db w) i = None"
  shows "\<exists>w'. completeRun env i c e w = (Inl runNotFound, w') \<and> wk_db w' = wk_db w"
  using assms by (auto simp: completeRun_def andThen_store get_law)

lemma complete_skipped:
  assumes "we_store env = S" "\<And>k d. we_others env k d = d" "inv (wk_db w)" "up (wk_db w)" "i \<noteq> []"
    "js_prop c ''exitCode'' \<noteq> JUndefined \<or> js_prop c ''status'' \<noteq> JUndefined" "view (wk_db w) i = Some r" "jr_state r \<noteq> RUNNING"
  shows "\<exists>w'. completeRun env i c e w = (Inr (skippedResult i (state_text (jr_state r))), w') \<and> wk_db w' = wk_db w"
  using assms by (auto simp: completeRun_def andThen_store get_law rowToDocument_def)

lemma complete_running:
  assumes "we_store env = S" "\<And>k d. we_others env k d = d" "inv (wk_db w)" "up (wk_db w)" "i \<noteq> []"
    "js_prop c ''exitCode'' \<noteq> JUndefined \<or> js_prop c ''status'' \<noteq> JUndefined" "view (wk_db w) i = Some r" "jr_state r = RUNNING"
  shows "\<exists>a w'. completeRun env i c (Some t) w = (Inr a, w') \<and>
    js_prop a ''state'' = JStr (if completion_succeeded c then ''SUCCEEDED'' else ''FAILED'') \<and>
    view (wk_db w') = (view (wk_db w))(i \<mapsto> if completion_succeeded c
      then succeeded_set t (completion_result i c t) JUndefined r
      else failed_set t (completion_error i c t) JUndefined r)"
proof -
  have f: "fence None r" by (simp add: fence_def)
  obtain d1 where d1: "rs_markSucceeded S i t (completion_result i c t) JUndefined None (wk_db w) = (Inr True, d1)"
    "view d1 = (view (wk_db w))(i \<mapsto> succeeded_set t (completion_result i c t) JUndefined r)"
    using succeed_law [OF assms(3,4,7,8) f, of JUndefined] by fastforce
  obtain d2 where d2: "rs_markFailed S i t (completion_error i c t) JUndefined None (wk_db w) = (Inr True, d2)"
    "view d2 = (view (wk_db w))(i \<mapsto> failed_set t (completion_error i c t) JUndefined r)"
    using fail_law [OF assms(3,4,7,8) f, of JUndefined] by fastforce
  show ?thesis
    using assms d1 d2
    by (auto simp: completeRun_def andThen_store get_law rowToDocument_def completion_result_def completion_error_def
        worker_markSucceeded_def worker_markFailed_def Let_def)
qed

end

text \<open>
  A worker that presents the token of an earlier attempt. \<open>I\<close> is any set of states in which the run
  carries another token and that the other processes do not leave; then the worker's own calls
  change nothing and every state of the tables is one the others produced.
\<close>

definition others_reach :: "'db worker_env \<Rightarrow> 'db \<Rightarrow> 'db \<Rightarrow> bool" where
  "others_reach env = (\<lambda>s t. \<exists>k. t = we_others env k s)\<^sup>*\<^sup>*"

definition ghost_rel :: "'db worker_env \<Rightarrow> ('db \<Rightarrow> bool) \<Rightarrow> 'db worker \<Rightarrow> 'db worker \<Rightarrow> bool" where
  "ghost_rel env I w w' \<longleftrightarrow> (I (wk_db w) \<longrightarrow> others_reach env (wk_db w) (wk_db w') \<and> I (wk_db w'))"

lemma others_reach_step: "others_reach env (we_others env k s) t \<Longrightarrow> others_reach env s t"
  unfolding others_reach_def by (rule converse_rtranclp_into_rtranclp) auto

lemma ghost_rel_rules:
  "reflp (ghost_rel env I)" "transp (ghost_rel env I)" "keeps (ghost_rel env I) (audit env a b c x)"
  "keeps (ghost_rel env I) (now env)"
proof -
  show "transp (ghost_rel env I)"
  proof (rule transpI)
    fix x y z assume "ghost_rel env I x y" "ghost_rel env I y z"
    then show "ghost_rel env I x z"
      by (auto simp: ghost_rel_def others_reach_def intro: rtranclp_trans)
  qed
qed (simp_all add: reflp_def keeps_def ghost_rel_def others_reach_def now_def)

lemma ghost_store_call:
  fixes env :: "'a worker_env"
  assumes "\<And>s k. I s \<Longrightarrow> I (we_others env k s)" "\<And>s. I s \<Longrightarrow> m s = (r, s)"
  shows "keeps (ghost_rel env I) (store_call env m)"
  unfolding keeps_def
proof
  fix w :: "'a worker"
  let ?s = "we_others env (wk_step w) (wk_db w)"
  show "ghost_rel env I w (snd (store_call env m w))"
  proof (cases "I (wk_db w)")
    case True
    then have "m ?s = (r, ?s)" "I ?s" using assms by blast+
    moreover have "others_reach env (wk_db w) ?s"
      unfolding others_reach_def by (rule r_into_rtranclp) blast
    ultimately show ?thesis by (simp add: ghost_rel_def store_call_def)
  qed (simp add: ghost_rel_def)
qed

context fenced_run_store
begin

lemma ghost_run:
  assumes "we_store env = S" "\<And>s. I s \<Longrightarrow> inv s \<and> up s \<and> (\<exists>r. view s i = Some r \<and> \<not> fence d r)"
    "\<And>s k. I s \<Longrightarrow> I (we_others env k s)" "I (wk_db w)"
  shows "others_reach env (wk_db w) (wk_db (snd (executeClaimedRun env i d w)))"
proof -
  let ?s1 = "we_others env (Suc (wk_step w)) (wk_db w)"
  have I1: "I ?s1" by (rule assms(3) [OF assms(4)])
  obtain r where r: "view ?s1 i = Some r" and inv1: "inv ?s1" "up ?s1" using assms(2) [OF I1] by blast
  let ?run = "(rowToDocument r)\<lparr>rn_dispatchId := d\<rparr>"
  have id: "rn_runId ?run = i" "rn_dispatchId ?run = d" using view_key [OF inv1(1) r] by (simp_all add: rowToDocument_def)
  have "rs_markSucceeded S i t res st d s = (Inr False, s)" "rs_markFailed S i t res st d s = (Inr False, s)"
    if "I s" for s t res st
    using assms(2) [OF that] succeed_fenced_law fail_fenced_law by blast+
  then have marks: "keeps (ghost_rel env I) (store_call env (rs_markSucceeded S i t res st d))"
    "keeps (ghost_rel env I) (store_call env (rs_markFailed S i t res st d))" for t res st
    by (auto intro: ghost_store_call [where I = I, OF assms(3)])
  have keep: "keeps (ghost_rel env I) (runClaimedLocally env ?run t)" for t
    unfolding runClaimedLocally_def run_pipeline_def finish_run_def fail_run_def worker_markSucceeded_def
      worker_markFailed_def Let_def assms(1) id
    by (auto intro!: worker_rules ghost_rel_rules marks)
  let ?w1 = "w\<lparr>wk_db := ?s1, wk_step := Suc (Suc (wk_step w))\<rparr>"
  have "executeClaimedRun env i d w = runClaimedLocally env ?run (we_now env (wk_step w)) ?w1"
    using assms(1) r inv1 by (simp add: executeClaimedRun_def andThen_store get_law)
  moreover have "ghost_rel env I ?w1 (snd (runClaimedLocally env ?run (we_now env (wk_step w)) ?w1))"
    using keep unfolding keeps_def by blast
  ultimately have "others_reach env ?s1 (wk_db (snd (executeClaimedRun env i d w)))"
    using I1 by (simp add: ghost_rel_def)
  then show ?thesis by (rule others_reach_step)
qed

end

section \<open>Sample data\<close>

definition sample_definition :: js where
  "sample_definition = JObj [(''definitionId'', JStr ''def''), (''version'', JInt 1), (''enabled'', JBool True),
     (''state'', JStr ''ACTIVE''), (''entrypoint'', JStr ''job.js''), (''memoryMb'', JInt 512),
     (''jobZip'', JObj [(''uri'', JStr ''gs://b/o''), (''sha256'', JStr ''h''), (''generation'', JStr ''7'')])]"

definition sample_env :: "pg worker_env" where
  "sample_env = \<lparr>we_store = RunStore, we_others = (\<lambda>_ d. d), we_now = (\<lambda>k. k), we_uuid = (\<lambda>_. ''uuid''),
     we_esGet = (\<lambda>_. Inr sample_definition), we_download = (\<lambda>_ _ _. Inr ''good''), we_sha256 = (\<lambda>_. ''h''),
     we_archive = sample_archive, we_parseJson = sample_parse, we_resolveParameters = Inr,
     we_execute = (\<lambda>_ _ _ _. Inr (JObj [(''exitCode'', JInt 0)])), we_launcher = None, we_isolated = False,
     we_maxLocalConcurrency = 1, we_auditEnabled = True, we_auditFails = (\<lambda>_. False), we_auditActor = ''worker''\<rparr>"

definition running_pg :: pg where
  "running_pg = \<lparr>pg_db = \<lparr>job_runs = [blank_run ''a'' 2 RUNNING (Some ''new'')], job_instances = []\<rparr>, pg_faults = []\<rparr>"

definition sample_worker :: "pg worker" where
  "sample_worker = \<lparr>wk_db = running_pg, wk_audit = [], wk_localRunning = 0, wk_step = 0\<rparr>"

lemma running_pg_ok: "pg_inv running_pg" "pg_up running_pg"
  "find_run ''a'' (pg_db running_pg) = Some (blank_run ''a'' 2 RUNNING (Some ''new''))"
  by (simp_all add: running_pg_def keys_ok_def find_run_def blank_run_def)

definition sample_execution :: execution where
  "sample_execution = \<lparr>xe_definition = JObj (map (\<lambda>k. (k, js_prop sample_definition k)) definition_fields),
     xe_artifact = JObj [(''uri'', JStr ''gs://b/o''), (''sha256'', JStr ''h''), (''generation'', JStr ''7'')]\<rparr>"

lemma sample_metadata:
  "buildExecutionMetadata sample_env ((rowToDocument (blank_run ''a'' 2 RUNNING (Some ''new'')))\<lparr>rn_dispatchId := d\<rparr>) =
     Inr sample_execution"
  by (simp add: buildExecutionMetadata_def rowToDocument_def blank_run_def sample_env_def getDefinition_def
      sample_definition_def metadata_checks_def missingArtifact_def sample_execution_def js_version_def Let_def)

lemma sample_verified: "\<exists>v. verifyApprovedArtifact sample_env sample_execution = Inr v"
  using sample_zip_valid
  by (auto simp: verifyApprovedArtifact_def sample_execution_def sample_env_def parseGcsUri_def
      sample_definition_def definition_fields_def)

lemma sample_local_outcome:
  "local_outcome sample_env ((rowToDocument (blank_run ''a'' 2 RUNNING (Some ''new'')))\<lparr>rn_dispatchId := d\<rparr>) =
     Inr (JObj [(''exitCode'', JInt 0)])"
  using sample_verified by (auto simp: local_outcome_def sample_metadata) (simp add: sample_env_def)

section \<open>Properties\<close>

text \<open>
  C4. A claimed run whose token is current ends in exactly one of two ways. If metadata, artifact,
  parameters and executor all succeed, the row becomes \<open>SUCCEEDED\<close> with the normalised result and
  the caller is told \<open>completed\<close>; otherwise the row becomes \<open>FAILED\<close> with the first error and its
  retry verdict, and that error is rethrown. No other row changes.
\<close>

theorem executeClaimedRun_outcome:
  assumes "we_store env = RunStore" and "\<And>k d. we_others env k d = d"
    and "keys_ok (pg_db (wk_db w))" and "pg_faults (wk_db w) = []"
    and "find_run i (pg_db (wk_db w)) = Some r" and "jr_state r = RUNNING" and "fence d r"
  shows "case local_outcome env ((rowToDocument r)\<lparr>rn_dispatchId := d\<rparr>) of
      Inr res \<Rightarrow> \<exists>a w' t. executeClaimedRun env i d w = (Inr a, w') \<and> js_prop a ''status'' = JStr ''completed'' \<and>
        (\<lambda>j. find_run j (pg_db (wk_db w'))) = (\<lambda>j. find_run j (pg_db (wk_db w)))
          (i \<mapsto> succeeded_set t (normalizeExecutionResult res) JUndefined r)
    | Inl e \<Rightarrow> \<exists>w' t. executeClaimedRun env i d w = (Inl e, w') \<and>
        (\<lambda>j. find_run j (pg_db (wk_db w'))) = (\<lambda>j. find_run j (pg_db (wk_db w)))
          (i \<mapsto> failed_set t (serializeError e (Some (classifyWorkerError e))) JUndefined r)"
  using pgs.executeClaimed_succeeds [OF assms] pgs.executeClaimed_fails [OF assms] by (simp split: sum.split)

theorem executeClaimedRun_outcome_witness:
  "\<exists>a w'. executeClaimedRun sample_env ''a'' (Some ''new'') sample_worker = (Inr a, w') \<and>
     js_prop a ''status'' = JStr ''completed''"
proof -
  let ?r = "blank_run ''a'' 2 RUNNING (Some ''new'')"
  have "we_store sample_env = RunStore" "\<And>k d. we_others sample_env k d = d" "wk_db sample_worker = running_pg"
    "jr_state ?r = RUNNING" "fence (Some ''new'') ?r"
    by (simp_all add: sample_env_def sample_worker_def blank_run_def fence_def)
  from executeClaimedRun_outcome [OF this(1,2) _ _ _ this(4,5), where w = sample_worker and i = "''a''"] this(3) running_pg_ok
  show ?thesis by (auto simp: sample_local_outcome)
qed

text \<open>
  C7. A ghost worker is harmless: a worker that runs an attempt whose token the row no longer carries
  changes nothing in the tables, whatever its job did, as long as the run stays under another token
  while other processes work between its calls.
\<close>

theorem ghost_worker_harmless:
  assumes "we_store env = RunStore"
    and "\<And>s. I s \<Longrightarrow> keys_ok (pg_db s) \<and> pg_faults s = [] \<and> (\<exists>r. find_run i (pg_db s) = Some r \<and> \<not> fence d r)"
    and "\<And>s k. I s \<Longrightarrow> I (we_others env k s)" and "I (wk_db w)"
  shows "others_reach env (wk_db w) (wk_db (snd (executeClaimedRun env i d w)))"
  by (rule pgs.ghost_run [OF assms])

theorem ghost_worker_harmless_witness:
  "wk_db (snd (executeClaimedRun sample_env ''a'' (Some ''old'') sample_worker)) = running_pg"
proof -
  have step: "(\<lambda>s t. \<exists>k. t = we_others sample_env k s) = (=)" by (auto simp: sample_env_def fun_eq_iff)
  have "others_reach sample_env (wk_db sample_worker)
    (wk_db (snd (executeClaimedRun sample_env ''a'' (Some ''old'') sample_worker)))"
  proof (rule ghost_worker_harmless [where I = "\<lambda>s. s = running_pg"])
    show "keys_ok (pg_db s) \<and> pg_faults s = [] \<and> (\<exists>r. find_run ''a'' (pg_db s) = Some r \<and> \<not> fence (Some ''old'') r)"
      if "s = running_pg" for s
      using running_pg_ok that by (simp add: fence_def) (simp add: blank_run_def)
  qed (simp_all add: sample_env_def sample_worker_def)
  moreover have "y = x" if "(=)\<^sup>*\<^sup>* x y" for x y :: pg
    using that by induct auto
  ultimately show ?thesis unfolding others_reach_def step by (simp add: sample_worker_def)
qed

text \<open>
  The concurrency guard: with \<open>maxLocalConcurrency\<close> executions running, a local run is refused
  before it is claimed and nothing changes; otherwise it runs with the counter raised by one, and the
  counter is restored whether it returned or threw.
\<close>

lemma executeRunLocally_capacity:
  "if we_maxLocalConcurrency env \<le> wk_localRunning w
   then \<exists>e. executeRunLocally env i w = (Inl e, w) \<and> e_code e = JStr ''WORKER_LOCAL_CONCURRENCY_EXCEEDED'' \<and> e_retryable e = JBool True
   else \<exists>w'. executeRunLocallyInternal env i (w\<lparr>wk_localRunning := Suc (wk_localRunning w)\<rparr>) =
          (fst (executeRunLocally env i w), w') \<and>
        wk_db w' = wk_db (snd (executeRunLocally env i w)) \<and>
        wk_localRunning w' \<le> we_maxLocalConcurrency env \<and>
        wk_localRunning (snd (executeRunLocally env i w)) = wk_localRunning w"
proof (cases "we_maxLocalConcurrency env \<le> wk_localRunning w")
  case False
  let ?w = "w\<lparr>wk_localRunning := Suc (wk_localRunning w)\<rparr>"
  obtain a w' where r: "executeRunLocallyInternal env i ?w = (a, w')" by fastforce
  have "wk_localRunning w' = Suc (wk_localRunning w)"
    using internal_same_running [of env i, THEN keepsD, OF r] by (simp add: same_running_def)
  with False r show ?thesis by (simp add: executeRunLocally_def)
qed (simp add: executeRunLocally_def executionMetadataError_def)

text \<open>
  An approved artifact that passes verification was downloaded from the bucket and object its
  \<open>gs://\<close> URI names, has exactly the approved SHA-256, and is a ZIP the policy accepts for the
  definition's entrypoint, runtime and wrapper version.
\<close>

lemma verifyApprovedArtifact_sound:
  assumes "verifyApprovedArtifact env x = Inr v"
  shows "(\<exists>b ob. js_prop (xe_artifact x) ''uri'' = JStr (''gs://'' @ b @ ''/'' @ ob) \<and> b \<noteq> [] \<and> ob \<noteq> [] \<and> CHR ''/'' \<notin> set b \<and>
      we_download env b ob (js_String (js_prop (xe_artifact x) ''generation'')) = Inr (ve_buffer v)) \<and>
    js_prop (xe_artifact x) ''sha256'' = JStr (we_sha256 env (ve_buffer v)) \<and>
    (\<exists>info. validateZipBuffer (we_archive env) (we_parseJson env) (ve_buffer v) (js_prop (xe_definition x) ''entrypoint'')
      (js_prop (xe_definition x) ''runtime'') (js_prop (xe_definition x) ''wrapperVersion'') = Inr info)"
proof -
  obtain b ob buf info where u: "parseGcsUri (js_prop (xe_artifact x) ''uri'') = Inr (b, ob)"
    and d: "we_download env b ob (js_String (js_prop (xe_artifact x) ''generation'')) = Inr buf"
    and h: "JStr (we_sha256 env buf) = js_prop (xe_artifact x) ''sha256''" and v: "ve_buffer v = buf"
    and z: "validateZipBuffer (we_archive env) (we_parseJson env) buf (js_prop (xe_definition x) ''entrypoint'')
      (js_prop (xe_definition x) ''runtime'') (js_prop (xe_definition x) ''wrapperVersion'') = Inr info"
    using assms by (auto simp: verifyApprovedArtifact_def Let_def split: sum.splits if_splits)
  show ?thesis
  proof (intro conjI)
    show "\<exists>b ob. js_prop (xe_artifact x) ''uri'' = JStr (''gs://'' @ b @ ''/'' @ ob) \<and> b \<noteq> [] \<and> ob \<noteq> [] \<and> CHR ''/'' \<notin> set b \<and>
      we_download env b ob (js_String (js_prop (xe_artifact x) ''generation'')) = Inr (ve_buffer v)"
      using parseGcsUri_Inr [OF u] d v by blast
  qed (use h v z in auto)
qed

text \<open>
  C34. The completion callback of an isolated runtime. A missing run is a 404 and a run that is not
  \<open>RUNNING\<close> is skipped, both without a write; a running run is finalised as the report says, with
  the result or with the error and its retry verdict. The callback presents no token, so it
  finalises the attempt that is running now, whichever attempt sent the report.
\<close>

theorem completeRun_effect:
  assumes "we_store env = RunStore" and "\<And>k d. we_others env k d = d"
    and "keys_ok (pg_db (wk_db w))" and "pg_faults (wk_db w) = []" and "i \<noteq> []"
    and "js_prop c ''exitCode'' \<noteq> JUndefined \<or> js_prop c ''status'' \<noteq> JUndefined"
  shows "case find_run i (pg_db (wk_db w)) of
      None \<Rightarrow> \<exists>w'. completeRun env i c (Some t) w = (Inl runNotFound, w') \<and> wk_db w' = wk_db w
    | Some r \<Rightarrow> if jr_state r \<noteq> RUNNING
        then \<exists>w'. completeRun env i c (Some t) w = (Inr (skippedResult i (state_text (jr_state r))), w') \<and> wk_db w' = wk_db w
        else \<exists>a w'. completeRun env i c (Some t) w = (Inr a, w') \<and>
          js_prop a ''state'' = JStr (if completion_succeeded c then ''SUCCEEDED'' else ''FAILED'') \<and>
          (\<lambda>j. find_run j (pg_db (wk_db w'))) = (\<lambda>j. find_run j (pg_db (wk_db w)))
            (i \<mapsto> if completion_succeeded c
                   then succeeded_set t (completion_result i c t) JUndefined r
                   else failed_set t (completion_error i c t) JUndefined r)"
proof (cases "find_run i (pg_db (wk_db w))")
  case None then show ?thesis using pgs.complete_missing [OF assms] by simp
next
  case (Some r)
  show ?thesis
  proof (cases "jr_state r = RUNNING")
    case True with Some show ?thesis using pgs.complete_running [OF assms Some True, of t] by simp
  next
    case False with Some show ?thesis using pgs.complete_skipped [OF assms Some False] by simp
  qed
qed

theorem completeRun_effect_witness:
  "\<exists>a w'. completeRun sample_env ''a'' (JObj [(''exitCode'', JInt 0)]) (Some 9) sample_worker = (Inr a, w') \<and>
     js_prop a ''state'' = JStr ''SUCCEEDED''"
proof -
  have "we_store sample_env = RunStore" "\<And>k d. we_others sample_env k d = d" "wk_db sample_worker = running_pg"
    by (simp_all add: sample_env_def sample_worker_def)
  from completeRun_effect [OF this(1,2), where w = sample_worker and i = "''a''" and c = "JObj [(''exitCode'', JInt 0)]" and t = 9]
    this(3) running_pg_ok
  show ?thesis by (auto simp: completion_succeeded_def blank_run_def split: if_splits)
qed

end
