(* ===== verification/Runtime_Executor.thy ===== *)
theory Runtime_Executor
  imports Worker_Run
begin

text \<open>
  \<open>JobRuntimeExecutor\<close> of \<open>src/src/services/jobRuntimeExecutor.js\<close>. The request checks are pure
  functions; a spawned child is a state machine over the events Node delivers (output chunks,
  timers, \<open>error\<close>, \<open>close\<close>), and the executor with its table of active runs is a step relation over
  several children. \<open>execute\<close> runs over the file system of \<open>Zip_Artifact\<close>.
\<close>

section \<open>Configuration\<close>

definition DEFAULT_ALLOWED_RUNTIMES :: "(string \<times> string list) list" where
  "DEFAULT_ALLOWED_RUNTIMES = [(''javascript'', [''nodejs22'', ''22'']), (''python'', [''python311'', ''python312''])]"

definition RESULT_PREFIX :: string where
  "RESULT_PREFIX = ''IGA_RESULT_JSON:''"

definition PYTHON_DEFAULT_BINS :: "(string \<times> string) list" where
  "PYTHON_DEFAULT_BINS = [(''python311'', ''python3.11''), (''python312'', ''python3.12'')]"

definition PYTHON_BIN_ENV_OVERRIDES :: "(string \<times> string) list" where
  "PYTHON_BIN_ENV_OVERRIDES = [(''python311'', ''PYTHON311_BIN''), (''python312'', ''PYTHON312_BIN'')]"

record executor =
  jx_allowedRuntimes :: "(string \<times> string list) list"
  jx_defaultTimeoutSeconds :: jsnum
  jx_maxTimeoutSeconds :: jsnum
  jx_defaultMemoryLimitMb :: jsnum
  jx_maxMemoryLimitMb :: jsnum
  jx_maxStdoutBytes :: nat
  jx_maxStderrBytes :: nat
  jx_maxResultOutputBytes :: jsnum
  jx_requireRuntimeIsolation :: bool

text \<open>\<open>process.env\<close>, and \<open>Number(process.env.X || n)\<close>.\<close>

type_synonym process_env = "string \<Rightarrow> string option"

definition env_number :: "process_env \<Rightarrow> string \<Rightarrow> int \<Rightarrow> jsnum" where
  "env_number penv key n =
     (case penv key of Some v \<Rightarrow> if v = [] then Fin (of_int n) else number_of_text v | None \<Rightarrow> Fin (of_int n))"

definition newJobRuntimeExecutor :: "process_env \<Rightarrow> executor" where
  "newJobRuntimeExecutor penv =
     \<lparr>jx_allowedRuntimes = DEFAULT_ALLOWED_RUNTIMES, jx_defaultTimeoutSeconds = Fin 300,
      jx_maxTimeoutSeconds = env_number penv ''WORKER_MAX_TIMEOUT_SECONDS'' 1800, jx_defaultMemoryLimitMb = Fin 256,
      jx_maxMemoryLimitMb = env_number penv ''WORKER_MAX_MEMORY_MB'' 512, jx_maxStdoutBytes = 64 * 1024,
      jx_maxStderrBytes = 64 * 1024,
      jx_maxResultOutputBytes = env_number penv ''WORKER_MAX_RESULT_OUTPUT_BYTES'' (64 * 1024),
      jx_requireRuntimeIsolation = (penv ''WORKER_REQUIRE_RUNTIME_ISOLATION'' \<noteq> Some ''false'')\<rparr>"

section \<open>Checks and limits\<close>

definition validationError :: "string \<Rightarrow> string \<Rightarrow> js_error" where
  "validationError code message = (newError message)\<lparr>e_code := JStr code, e_retryable := JBool False\<rparr>"

definition executionError :: "string \<Rightarrow> string \<Rightarrow> bool \<Rightarrow> js_error" where
  "executionError code message retryable = (newError message)\<lparr>e_code := JStr code, e_retryable := JBool retryable\<rparr>"

definition appendWithLimit :: "string \<Rightarrow> string \<Rightarrow> nat \<Rightarrow> string \<times> bool" where
  "appendWithLimit current chunk maxBytes =
     (let combined = current @ chunk in
      if byteLength combined \<le> maxBytes then (combined, False) else (take maxBytes combined, True))"

definition effective_limit :: "jsnum \<Rightarrow> jsnum \<Rightarrow> js \<Rightarrow> jsnum" where
  "effective_limit dflt maximum v =
     (case js_Number (js_or v (JNum dflt)) of
        Fin q \<Rightarrow> if q \<le> 0 then dflt else js_min (Fin q) maximum
      | _ \<Rightarrow> dflt)"

definition effectiveTimeoutSeconds :: "executor \<Rightarrow> js \<Rightarrow> jsnum" where
  "effectiveTimeoutSeconds cfg = effective_limit (jx_defaultTimeoutSeconds cfg) (jx_maxTimeoutSeconds cfg)"

definition effectiveMemoryLimitMb :: "executor \<Rightarrow> js \<Rightarrow> jsnum" where
  "effectiveMemoryLimitMb cfg = effective_limit (jx_defaultMemoryLimitMb cfg) (jx_maxMemoryLimitMb cfg)"

text \<open>\<open>stdout.split(/\r?\n/)\<close>.\<close>

definition strip_cr :: "string \<Rightarrow> string" where
  "strip_cr w = (if endsWith w [CHR 0x0D] then butlast w else w)"

definition split_lines :: "string \<Rightarrow> string list" where
  "split_lines s = (let ls = split_on (CHR 0x0A) s in map strip_cr (butlast ls) @ [last ls])"

definition exceeds :: "nat \<Rightarrow> jsnum \<Rightarrow> bool" where
  "exceeds n m = (case m of Fin q \<Rightarrow> of_nat n > q | NegInf \<Rightarrow> True | _ \<Rightarrow> False)"

definition parseResult :: "executor \<Rightarrow> json_parser \<Rightarrow> string \<Rightarrow> js_error + js" where
  "parseResult cfg parseJson stdout =
     (case find (\<lambda>line. startsWith line RESULT_PREFIX) (split_lines stdout) of
        None \<Rightarrow> Inr JNull
      | Some line \<Rightarrow>
          let payload = drop (length RESULT_PREFIX) line in
          if exceeds (byteLength payload) (jx_maxResultOutputBytes cfg)
          then Inl (executionError ''RUNTIME_RESULT_OUTPUT_TOO_LARGE''
                 (''runtime result output exceeds '' @ js_String (JNum (jx_maxResultOutputBytes cfg)) @ '' bytes'') False)
          else case parseJson payload of
            Inl m \<Rightarrow> Inl (executionError ''RUNTIME_RESULT_JSON_INVALID'' m False)
          | Inr v \<Rightarrow> Inr v)"

definition validateRuntime :: "executor \<Rightarrow> js \<Rightarrow> js \<Rightarrow> js_error option" where
  "validateRuntime cfg runtime runtimeVersion =
     (case (case runtime of JStr r \<Rightarrow> map_of (jx_allowedRuntimes cfg) r | _ \<Rightarrow> None) of
        None \<Rightarrow> Some (validationError ''RUNTIME_UNSUPPORTED'' (''unsupported runtime: '' @ js_String runtime))
      | Some versions \<Rightarrow>
          if (case runtimeVersion of JStr v \<Rightarrow> v \<in> set versions | _ \<Rightarrow> False) then None
          else Some (validationError ''RUNTIME_VERSION_UNSUPPORTED''
                 (''unsupported runtimeVersion for '' @ js_String runtime @ '': '' @ js_String runtimeVersion)))"

definition validateEntrypoint :: "js \<Rightarrow> js_error + string" where
  "validateEntrypoint entrypoint =
     (case entrypoint of
        JStr (c # cs) \<Rightarrow>
          let e = c # cs in
          if path_isAbsolute e then Inl (validationError ''RUNTIME_ENTRYPOINT_INVALID'' ''entrypoint must be relative'')
          else let normalized = path_normalize (map (\<lambda>d. if d = CHR 0x5C then CHR ''/'' else d) e) in
            if normalized = ''.'' \<or> startsWith normalized ''../'' \<or> normalized = ''..''
            then Inl (validationError ''RUNTIME_ENTRYPOINT_INVALID'' ''entrypoint must not traverse outside the artifact root'')
            else Inr normalized
      | _ \<Rightarrow> Inl (validationError ''RUNTIME_ENTRYPOINT_REQUIRED'' ''entrypoint is required''))"

text \<open>The buffer has been resolved when the request is validated.\<close>

definition validateExecuteRequest :: "executor \<Rightarrow> string \<Rightarrow> execution \<Rightarrow> js_error + string" where
  "validateExecuteRequest cfg runId x =
     (if runId = [] then Inl (validationError ''RUNTIME_RUN_ID_REQUIRED'' ''runId is required'')
      else if \<not> truthy (xe_definition x)
      then Inl (validationError ''RUNTIME_DEFINITION_REQUIRED'' ''execution definition is required'')
      else case validateRuntime cfg (js_prop (xe_definition x) ''runtime'') (js_prop (xe_definition x) ''runtimeVersion'') of
        Some e \<Rightarrow> Inl e
      | None \<Rightarrow> validateEntrypoint (js_prop (xe_definition x) ''entrypoint''))"

definition validateRuntimeIsolation :: "executor \<Rightarrow> js_error option" where
  "validateRuntimeIsolation cfg =
     (if jx_requireRuntimeIsolation cfg
      then Some (validationError ''RUNTIME_ISOLATION_REQUIRED''
        (''runtime isolation is required before executing untrusted job artifacts; set '' @
         ''WORKER_REQUIRE_RUNTIME_ISOLATION=false in environments where the container provides isolation''))
      else None)"

text \<open>\<open>parseGcsUri\<close>: the regular expression \<open>^gs://([^/]+)/(.+)$\<close>, whose dot matches no line terminator.\<close>

definition executor_parseGcsUri :: "string \<Rightarrow> js_error + string \<times> string" where
  "executor_parseGcsUri uri =
     (let rest = drop 5 uri; bucket = takeWhile (\<lambda>c. c \<noteq> CHR ''/'') rest; object = drop (Suc (length bucket)) rest in
      if startsWith uri ''gs://'' \<and> bucket \<noteq> [] \<and> object \<noteq> [] \<and> CHR 0x0A \<notin> set object \<and> CHR 0x0D \<notin> set object
      then Inr (bucket, object)
      else Inl (validationError ''RUNTIME_ARTIFACT_URI_INVALID'' (''invalid GCS URI: '' @ uri)))"

text \<open>\<open>resolveArtifactBuffer\<close>; the argument is \<open>None\<close> when it is not a Buffer.\<close>

definition resolveArtifactBuffer ::
  "(string \<Rightarrow> string \<Rightarrow> string \<Rightarrow> js_error + string) \<Rightarrow> (string \<Rightarrow> string) \<Rightarrow> execution \<Rightarrow> string option \<Rightarrow> js_error + string" where
  "resolveArtifactBuffer download sha256 x artifactBuffer =
     (case artifactBuffer of
        Some b \<Rightarrow> Inr b
      | None \<Rightarrow>
          let uri = js_prop (xe_artifact x) ''uri''; expected = js_prop (xe_artifact x) ''sha256'';
              generation = js_prop (xe_artifact x) ''generation'' in
          if \<not> truthy uri \<or> \<not> truthy expected \<or> \<not> truthy generation
          then Inl (validationError ''RUNTIME_ARTIFACT_BUFFER_REQUIRED''
                 ''artifactBuffer must be a Buffer, or execution.artifact.{uri,sha256,generation} must be present for GCS download'')
          else case executor_parseGcsUri (js_String uri) of
            Inl e \<Rightarrow> Inl e
          | Inr (bucket, object) \<Rightarrow>
              (case download bucket object (js_String generation) of
                 Inl e \<Rightarrow> Inl (executionError ''RUNTIME_ARTIFACT_DOWNLOAD_FAILED''
                               (''artifact download failed for '' @ js_String uri @ '': '' @ e_message e) True)
               | Inr buffer \<Rightarrow>
                   if JStr (sha256 buffer) \<noteq> expected
                   then Inl (executionError ''RUNTIME_ARTIFACT_SHA256_MISMATCH''
                          (''artifact sha256 mismatch for '' @ js_String uri @ '': expected '' @ js_String expected @
                           '', got '' @ sha256 buffer) False)
                   else Inr buffer))"

definition resolvePythonBinary :: "process_env \<Rightarrow> string \<Rightarrow> js_error + string" where
  "resolvePythonBinary penv version =
     (case map_of PYTHON_DEFAULT_BINS version of
        None \<Rightarrow> Inl (validationError ''RUNTIME_VERSION_UNSUPPORTED'' (''unsupported Python version: '' @ version))
      | Some bin \<Rightarrow>
          (case Option.bind (map_of PYTHON_BIN_ENV_OVERRIDES version) penv of
             Some override \<Rightarrow> if override \<noteq> [] then Inr override else Inr bin
           | None \<Rightarrow> Inr bin))"

definition times_1024 :: "jsnum \<Rightarrow> jsnum" where
  "times_1024 n = (case n of Fin q \<Rightarrow> Fin (q * 1024) | _ \<Rightarrow> n)"

definition resolveSpawnCommand ::
  "process_env \<Rightarrow> string \<Rightarrow> string \<Rightarrow> string \<Rightarrow> string \<Rightarrow> jsnum \<Rightarrow> js_error + string \<times> string list" where
  "resolveSpawnCommand penv execPath runtime runtimeVersion entrypointPath memoryLimitMb =
     (if runtime = ''python'' then
        (case resolvePythonBinary penv runtimeVersion of
           Inl e \<Rightarrow> Inl e
         | Inr pythonBin \<Rightarrow>
             Inr (''bash'', [''-c'', ''ulimit -v '' @ js_String (JNum (times_1024 memoryLimitMb)) @ ''; exec \"$0\" \"$@\"'',
                             pythonBin, entrypointPath]))
      else Inr (execPath, [''--max-old-space-size='' @ js_String (JNum memoryLimitMb), entrypointPath]))"

section \<open>A child process\<close>

datatype child_event =
    Stdout string
  | Stderr string
  | TimeoutFires
  | ForceKillFires
  | CancelKillFires
  | ChildError string
  | ChildClose js js

text \<open>
  The variables of one \<open>_spawnEntrypoint\<close> call. \<open>pr_timeout\<close> and \<open>pr_forceKill\<close> say whether the timer
  is armed, \<open>pr_cancelKills\<close> counts the timers \<open>cancel\<close> started, \<open>pr_signals\<close> are the signals sent to
  the process group, and \<open>pr_result\<close> is what the promise was settled with.
\<close>

record proc =
  pr_stdout :: string
  pr_stderr :: string
  pr_stdoutTruncated :: bool
  pr_stderrTruncated :: bool
  pr_timedOut :: bool
  pr_settled :: bool
  pr_timeout :: bool
  pr_forceKill :: bool
  pr_cancelKills :: nat
  pr_signals :: "string list"
  pr_result :: "(js_error + js) option"

definition startProc :: proc where
  "startProc = \<lparr>pr_stdout = [], pr_stderr = [], pr_stdoutTruncated = False, pr_stderrTruncated = False,
     pr_timedOut = False, pr_settled = False, pr_timeout = True, pr_forceKill = False, pr_cancelKills = 0,
     pr_signals = [], pr_result = None\<rparr>"

record proc_info =
  pi_runId :: string
  pi_definition :: js
  pi_startedAt :: instant

definition settle :: "js_error + js \<Rightarrow> proc \<Rightarrow> proc" where
  "settle r p = p\<lparr>pr_settled := True, pr_timeout := False, pr_forceKill := False, pr_result := Some r\<rparr>"

definition close_result :: "executor \<Rightarrow> proc_info \<Rightarrow> instant \<Rightarrow> js \<Rightarrow> js \<Rightarrow> js \<Rightarrow> proc \<Rightarrow> js" where
  "close_result cfg info endedAt exitCode signal parsedResult p =
     JObj [(''status'', JStr (if exitCode = JInt 0 \<and> \<not> pr_timedOut p then ''completed'' else ''failed'')),
           (''runId'', JStr (pi_runId info)), (''runtime'', js_prop (pi_definition info) ''runtime''),
           (''runtimeVersion'', js_prop (pi_definition info) ''runtimeVersion''),
           (''entrypoint'', js_prop (pi_definition info) ''entrypoint''), (''exitCode'', exitCode), (''signal'', signal),
           (''timedOut'', JBool (pr_timedOut p)),
           (''timeoutSeconds'', JNum (effectiveTimeoutSeconds cfg (js_prop (pi_definition info) ''timeoutSeconds''))),
           (''memoryLimitMb'', JNum (effectiveMemoryLimitMb cfg (js_prop (pi_definition info) ''memoryMb''))),
           (''stdout'', JStr (pr_stdout p)), (''stderr'', JStr (pr_stderr p)),
           (''stdoutTruncated'', JBool (pr_stdoutTruncated p)), (''stderrTruncated'', JBool (pr_stderrTruncated p)),
           (''output'', parsedResult), (''startedAt'', iso (pi_startedAt info)), (''endedAt'', iso endedAt)]"

text \<open>What the \<open>close\<close> handler settles the promise with.\<close>

definition close_outcome :: "executor \<Rightarrow> json_parser \<Rightarrow> proc_info \<Rightarrow> instant \<Rightarrow> js \<Rightarrow> js \<Rightarrow> proc \<Rightarrow> js_error + js" where
  "close_outcome cfg parseJson info endedAt exitCode signal p =
     (case parseResult cfg parseJson (pr_stdout p) of
        Inl e \<Rightarrow> Inl e
      | Inr parsedResult \<Rightarrow>
          let res = close_result cfg info endedAt exitCode signal parsedResult p in
          if pr_timedOut p
          then Inl ((executionError ''RUNTIME_PROCESS_TIMED_OUT'' (''job process exceeded timeout of '' @
                 js_String (JNum (effectiveTimeoutSeconds cfg (js_prop (pi_definition info) ''timeoutSeconds''))) @
                 '' seconds'') True)\<lparr>e_execution := res\<rparr>)
          else if exitCode \<noteq> JInt 0
          then Inl ((executionError ''RUNTIME_PROCESS_EXITED_NON_ZERO''
                 (''job process exited with code '' @ js_String exitCode) True)\<lparr>e_execution := res\<rparr>)
          else Inr res)"

fun on_event :: "executor \<Rightarrow> json_parser \<Rightarrow> proc_info \<Rightarrow> instant \<Rightarrow> child_event \<Rightarrow> proc \<Rightarrow> proc" where
  "on_event cfg parseJson info t (Stdout chunk) p =
     (let (v, tr) = appendWithLimit (pr_stdout p) chunk (jx_maxStdoutBytes cfg) in
      p\<lparr>pr_stdout := v, pr_stdoutTruncated := pr_stdoutTruncated p \<or> tr\<rparr>)"
| "on_event cfg parseJson info t (Stderr chunk) p =
     (let (v, tr) = appendWithLimit (pr_stderr p) chunk (jx_maxStderrBytes cfg) in
      p\<lparr>pr_stderr := v, pr_stderrTruncated := pr_stderrTruncated p \<or> tr\<rparr>)"
| "on_event cfg parseJson info t TimeoutFires p =
     (if pr_timeout p
      then p\<lparr>pr_timeout := False, pr_timedOut := True, pr_signals := pr_signals p @ [''SIGTERM''], pr_forceKill := True\<rparr>
      else p)"
| "on_event cfg parseJson info t ForceKillFires p =
     (if pr_forceKill p then p\<lparr>pr_forceKill := False, pr_signals := pr_signals p @ [''SIGKILL'']\<rparr> else p)"
| "on_event cfg parseJson info t CancelKillFires p =
     (if pr_cancelKills p > 0
      then p\<lparr>pr_cancelKills := pr_cancelKills p - 1, pr_signals := pr_signals p @ [''SIGKILL'']\<rparr> else p)"
| "on_event cfg parseJson info t (ChildError m) p =
     (if pr_settled p then p else settle (Inl (executionError ''RUNTIME_PROCESS_FAILED'' m True)) p)"
| "on_event cfg parseJson info t (ChildClose exitCode signal) p =
     (if pr_settled p then p else settle (close_outcome cfg parseJson info t exitCode signal p) p)"

text \<open>The executor's children, in the order of their start, and \<open>_activeByRunId\<close>.\<close>

record host =
  hs_procs :: "(proc_info \<times> proc) list"
  hs_active :: "string \<Rightarrow> nat option"

definition host_spawn :: "proc_info \<Rightarrow> host \<Rightarrow> host" where
  "host_spawn info h =
     h\<lparr>hs_procs := hs_procs h @ [(info, startProc)], hs_active := (hs_active h)(pi_runId info \<mapsto> length (hs_procs h))\<rparr>"

text \<open>An event of child \<open>k\<close>; the event that settles it deletes the entry of its run.\<close>

definition host_event :: "executor \<Rightarrow> json_parser \<Rightarrow> instant \<Rightarrow> nat \<Rightarrow> child_event \<Rightarrow> host \<Rightarrow> host" where
  "host_event cfg parseJson t k ev h =
     (let (info, p) = hs_procs h ! k; p' = on_event cfg parseJson info t ev p in
      h\<lparr>hs_procs := (hs_procs h)[k := (info, p')],
        hs_active := (if \<not> pr_settled p \<and> pr_settled p' then (hs_active h)(pi_runId info := None) else hs_active h)\<rparr>)"

definition cancel :: "string \<Rightarrow> host \<Rightarrow> js \<times> host" where
  "cancel runId h =
     (case hs_active h runId of
        None \<Rightarrow> (JObj [(''status'', JStr ''not_found'')], h)
      | Some k \<Rightarrow>
          let (info, p) = hs_procs h ! k in
          (JObj [(''status'', JStr ''killed'')],
           h\<lparr>hs_procs := (hs_procs h)[k := (info, p\<lparr>pr_signals := pr_signals p @ [''SIGTERM''],
                                                  pr_cancelKills := Suc (pr_cancelKills p)\<rparr>)]\<rparr>))"

inductive host_step :: "executor \<Rightarrow> json_parser \<Rightarrow> host \<Rightarrow> host \<Rightarrow> bool" for cfg parseJson where
  host_spawns: "host_step cfg parseJson h (host_spawn info h)"
| host_delivers: "k < length (hs_procs h) \<Longrightarrow> host_step cfg parseJson h (host_event cfg parseJson t k ev h)"
| host_cancels: "cancel runId h = (a, h') \<Longrightarrow> host_step cfg parseJson h h'"

definition idle_host :: host where
  "idle_host = \<lparr>hs_procs = [], hs_active = (\<lambda>_. None)\<rparr>"

section \<open>The execution\<close>

text \<open>\<open>JSON.stringify(v, null, gap)\<close>; the nesting level is the last argument.\<close>

definition hex_digit :: "nat \<Rightarrow> char" where
  "hex_digit n = ''0123456789abcdef'' ! n"

definition json_escape :: "char \<Rightarrow> string" where
  "json_escape c =
     (if c = CHR 0x22 then [CHR 0x5C, CHR 0x22] else if c = CHR 0x5C then [CHR 0x5C, CHR 0x5C]
      else if c = CHR 0x08 then [CHR 0x5C, CHR ''b''] else if c = CHR 0x0C then [CHR 0x5C, CHR ''f'']
      else if c = CHR 0x0A then [CHR 0x5C, CHR ''n''] else if c = CHR 0x0D then [CHR 0x5C, CHR ''r'']
      else if c = CHR 0x09 then [CHR 0x5C, CHR ''t'']
      else if of_char c < (32 :: nat)
      then [CHR 0x5C] @ ''u00'' @ [hex_digit (of_char c div 16), hex_digit (of_char c mod 16)]
      else [c])"

definition json_quote :: "string \<Rightarrow> string" where
  "json_quote s = [CHR 0x22] @ concat (map json_escape s) @ [CHR 0x22]"

definition json_wrap :: "nat \<Rightarrow> nat \<Rightarrow> string \<Rightarrow> string \<Rightarrow> string list \<Rightarrow> string" where
  "json_wrap gap level opening closing items =
     (if items = [] then opening @ closing
      else if gap = 0 then opening @ join_with '','' items @ closing
      else let indent = (\<lambda>n. CHR 0x0A # replicate (n * gap) (CHR '' '')) in
        opening @ indent (Suc level) @ join_with ('','' @ indent (Suc level)) items @ indent level @ closing)"

primrec json_text :: "nat \<Rightarrow> js \<Rightarrow> nat \<Rightarrow> string" where
  "json_text gap JUndefined = (\<lambda>level. ''null'')"
| "json_text gap JNull = (\<lambda>level. ''null'')"
| "json_text gap (JBool b) = (\<lambda>level. if b then ''true'' else ''false'')"
| "json_text gap (JNum n) = (\<lambda>level. case n of Fin q \<Rightarrow> num_text q | _ \<Rightarrow> ''null'')"
| "json_text gap (JStr s) = (\<lambda>level. json_quote s)"
| "json_text gap (JArr xs) = (\<lambda>level. json_wrap gap level ''['' '']'' (map (\<lambda>f. f (Suc level)) (map (json_text gap) xs)))"
| "json_text gap (JObj kvs) = (\<lambda>level. json_wrap gap level ''{'' ''}''
     (map (\<lambda>(kv, k, f). json_quote k @ (if gap = 0 then '':'' else '': '') @ f (Suc level))
        (filter (\<lambda>(kv, k, f). snd kv \<noteq> JUndefined) (zip kvs (map (map_prod id (json_text gap)) kvs)))))"

text \<open>
  The surroundings of a call: \<open>xc_dir\<close> is the directory \<open>mkdtemp\<close> names, \<open>xc_sdkPath\<close> and \<open>xc_sdk\<close> the
  path and content of the SDK copied beside a JavaScript job. \<open>xc_child\<close> is the child: from the
  request and the file system it gives the events before the last one, the last one (a spawn error,
  or an exit code and a signal), and the file system it leaves.
\<close>

record spawn_request =
  sp_command :: string
  sp_args :: "string list"
  sp_cwd :: string
  sp_env :: "(string \<times> string) list"

record exec_env =
  xc_download :: "string \<Rightarrow> string \<Rightarrow> string \<Rightarrow> js_error + string"
  xc_sha256 :: "string \<Rightarrow> string"
  xc_archive :: archive
  xc_parseJson :: json_parser
  xc_processEnv :: process_env
  xc_execPath :: string
  xc_pythonSdkPath :: string
  xc_sdk :: string
  xc_cwd :: string
  xc_dir :: string
  xc_child :: "spawn_request \<Rightarrow> fs \<Rightarrow> child_event list \<times> (string + js \<times> js) \<times> fs"
  xc_startedAt :: instant
  xc_endedAt :: instant

definition last_event :: "string + js \<times> js \<Rightarrow> child_event" where
  "last_event l = (case l of Inl m \<Rightarrow> ChildError m | Inr (exitCode, signal) \<Rightarrow> ChildClose exitCode signal)"

definition run_child :: "executor \<Rightarrow> exec_env \<Rightarrow> proc_info \<Rightarrow> child_event list \<Rightarrow> proc" where
  "run_child cfg env info evs = fold (on_event cfg (xc_parseJson env) info (xc_endedAt env)) evs startProc"

definition spawnEntrypoint :: "executor \<Rightarrow> exec_env \<Rightarrow> spawn_request \<Rightarrow> string \<Rightarrow> execution \<Rightarrow> (os, js) eff" where
  "spawnEntrypoint cfg env request runId x = (\<lambda>s.
     let (evs, l, fs) = xc_child env request (os_fs s);
         info = \<lparr>pi_runId = runId, pi_definition = xe_definition x, pi_startedAt = xc_startedAt env\<rparr>;
         s' = s\<lparr>os_fs := fs\<rparr> in
     case pr_result (run_child cfg env info (evs @ [last_event l])) of
       Some r \<Rightarrow> (r, s')
     | None \<Rightarrow> (Inl (newError ''pending''), s'))"

definition env_entry :: "string \<Rightarrow> string option \<Rightarrow> (string \<times> string) list" where
  "env_entry key v = (case v of Some t \<Rightarrow> if t = [] then [] else [(key, t)] | None \<Rightarrow> [])"

definition child_env :: "exec_env \<Rightarrow> string \<Rightarrow> string \<Rightarrow> string option \<Rightarrow> (string \<times> string) list" where
  "child_env env runId contextFile dispatchId =
     [(''IGA_SCHEDULER_RUN_ID'', runId), (''IGA_SCHEDULER_CONTEXT_FILE'', contextFile)] @
     env_entry ''IGA_BROKER_URL'' (xc_processEnv env ''RUNTIME_BROKER_URL'') @
     env_entry ''IGA_SCHEDULER_DISPATCH_ID'' dispatchId"

definition executeNodeEntrypoint ::
  "executor \<Rightarrow> exec_env \<Rightarrow> string \<Rightarrow> string option \<Rightarrow> execution \<Rightarrow> extracted \<Rightarrow> string \<Rightarrow> (os, js) eff" where
  "executeNodeEntrypoint cfg env runId dispatchId x ex contextFile =
     (case resolveSpawnCommand (xc_processEnv env) (xc_execPath env) ''javascript''
             (js_String (js_prop (xe_definition x) ''runtimeVersion'')) (ex_entrypointPath ex)
             (effectiveMemoryLimitMb cfg (js_prop (xe_definition x) ''memoryMb'')) of
        Inl e \<Rightarrow> throw e
      | Inr (command, args) \<Rightarrow>
          spawnEntrypoint cfg env \<lparr>sp_command = command, sp_args = args, sp_cwd = ex_extractDir ex,
            sp_env = (''NODE_ENV'', ''production'') # child_env env runId contextFile dispatchId\<rparr> runId x)"

definition executePythonEntrypoint ::
  "executor \<Rightarrow> exec_env \<Rightarrow> string \<Rightarrow> string option \<Rightarrow> execution \<Rightarrow> extracted \<Rightarrow> string \<Rightarrow> (os, js) eff" where
  "executePythonEntrypoint cfg env runId dispatchId x ex contextFile =
     (case resolveSpawnCommand (xc_processEnv env) (xc_execPath env) ''python''
             (js_String (js_prop (xe_definition x) ''runtimeVersion'')) (ex_entrypointPath ex)
             (effectiveMemoryLimitMb cfg (js_prop (xe_definition x) ''memoryMb'')) of
        Inl e \<Rightarrow> throw e
      | Inr (command, args) \<Rightarrow>
          let existing = (case xc_processEnv env ''PYTHONPATH'' of Some p \<Rightarrow> p | None \<Rightarrow> []);
              pythonPath = (if existing \<noteq> [] then xc_pythonSdkPath env @ '':'' @ existing else xc_pythonSdkPath env) in
          spawnEntrypoint cfg env \<lparr>sp_command = command, sp_args = args, sp_cwd = ex_extractDir ex,
            sp_env = take 2 (child_env env runId contextFile dispatchId) @ [(''PYTHONPATH'', pythonPath)] @
                     drop 2 (child_env env runId contextFile dispatchId)\<rparr> runId x)"

definition writeContextFile :: "string \<Rightarrow> js \<Rightarrow> (os, string) eff" where
  "writeContextFile extractDir context =
     (let dir = path_segments extractDir @ [''.iga''] in
      andThen (os_call (fs_mkdirp dir)) (\<lambda>_.
      andThen (os_call (fs_write (dir @ [''context.json'']) (json_text 2 context 0))) (\<lambda>_.
      ret (extractDir @ ''/.iga/context.json''))))"

text \<open>The body of the \<open>try\<close> block of \<open>execute\<close>.\<close>

definition execute_extracted ::
  "executor \<Rightarrow> exec_env \<Rightarrow> string \<Rightarrow> string option \<Rightarrow> execution \<Rightarrow> js \<Rightarrow> extracted \<Rightarrow> (os, js) eff" where
  "execute_extracted cfg env runId dispatchId x context ex =
     andThen (writeContextFile (ex_extractDir ex) (js_or context (JObj []))) (\<lambda>contextFile.
     if js_prop (xe_definition x) ''runtime'' = JStr ''python''
     then executePythonEntrypoint cfg env runId dispatchId x ex contextFile
     else andThen (os_call (fs_write (path_segments (ex_extractDir ex) @ [''scheduler-sdk.js'']) (xc_sdk env))) (\<lambda>_.
          executeNodeEntrypoint cfg env runId dispatchId x ex contextFile))"

definition execute ::
  "executor \<Rightarrow> exec_env \<Rightarrow> string \<Rightarrow> string option \<Rightarrow> execution \<Rightarrow> string option \<Rightarrow> js \<Rightarrow> (os, js) eff" where
  "execute cfg env runId dispatchId x artifactBuffer context =
     (case resolveArtifactBuffer (xc_download env) (xc_sha256 env) x artifactBuffer of
        Inl e \<Rightarrow> throw e
      | Inr buffer \<Rightarrow>
          (case validateExecuteRequest cfg runId x of
             Inl e \<Rightarrow> throw e
           | Inr entrypoint \<Rightarrow>
               (case validateRuntimeIsolation cfg of
                  Some e \<Rightarrow> throw e
                | None \<Rightarrow>
                    andThen (safeZipExtract (xc_archive env) (xc_cwd env) (xc_dir env) 200 (50 * 1024 * 1024) buffer entrypoint) (\<lambda>ex.
                    tryFinally (execute_extracted cfg env runId dispatchId x context ex)
                      (os_call (fs_rm (path_segments (ex_extractDir ex))))))))"

section \<open>Captured output\<close>

lemma capture_step:
  assumes "v = take n full" "tr \<longleftrightarrow> byteLength full > n"
  shows "fst (appendWithLimit v chunk n) = take n (full @ chunk)"
    "(tr \<or> snd (appendWithLimit v chunk n)) \<longleftrightarrow> byteLength (full @ chunk) > n"
proof -
  have len: "length s \<le> n" if "byteLength s \<le> n" for s
    using byteLength_bounds(1) [of s] that by linarith
  consider "byteLength full \<le> n" | "byteLength full > n" "length full < n" | "length full \<ge> n" "byteLength full > n" by linarith
  then show "fst (appendWithLimit v chunk n) = take n (full @ chunk)"
  proof cases
    case 1
    then show ?thesis using assms(1) len [of full] len [of "full @ chunk"] by (auto simp: appendWithLimit_def Let_def)
  next
    case 2
    then show ?thesis using assms(1) by (auto simp: appendWithLimit_def Let_def)
  next
    case 3
    have "byteLength (take n full @ chunk) \<le> n \<Longrightarrow> chunk = []"
      using 3(1) byteLength_bounds(1) [of "take n full @ chunk"] by (cases chunk) auto
    then show ?thesis using assms(1) 3 by (auto simp: appendWithLimit_def Let_def)
  qed
  show "(tr \<or> snd (appendWithLimit v chunk n)) \<longleftrightarrow> byteLength (full @ chunk) > n"
    using assms len [of full] by (auto simp: appendWithLimit_def Let_def)
qed

fun stdout_of :: "child_event \<Rightarrow> string" where
  "stdout_of (Stdout c) = c"
| "stdout_of _ = []"

fun stderr_of :: "child_event \<Rightarrow> string" where
  "stderr_of (Stderr c) = c"
| "stderr_of _ = []"

definition captured :: "executor \<Rightarrow> string \<Rightarrow> string \<Rightarrow> proc \<Rightarrow> bool" where
  "captured cfg full errs p \<longleftrightarrow>
     pr_stdout p = take (jx_maxStdoutBytes cfg) full \<and>
     (pr_stdoutTruncated p \<longleftrightarrow> byteLength full > jx_maxStdoutBytes cfg) \<and>
     pr_stderr p = take (jx_maxStderrBytes cfg) errs \<and>
     (pr_stderrTruncated p \<longleftrightarrow> byteLength errs > jx_maxStderrBytes cfg)"

lemma captured_event:
  assumes "captured cfg full errs p"
  shows "captured cfg (full @ stdout_of ev) (errs @ stderr_of ev) (on_event cfg parse info t ev p)"
proof -
  note out = capture_step [of "pr_stdout p" "jx_maxStdoutBytes cfg" full "pr_stdoutTruncated p"]
  note err = capture_step [of "pr_stderr p" "jx_maxStderrBytes cfg" errs "pr_stderrTruncated p"]
  show ?thesis
  proof (cases ev)
    case (Stdout c)
    then show ?thesis using assms out [of c]
      by (cases "appendWithLimit (pr_stdout p) c (jx_maxStdoutBytes cfg)") (simp add: captured_def)
  next
    case (Stderr c)
    then show ?thesis using assms err [of c]
      by (cases "appendWithLimit (pr_stderr p) c (jx_maxStderrBytes cfg)") (simp add: captured_def)
  qed (use assms in \<open>simp_all add: captured_def settle_def\<close>)
qed

lemma captured_fold:
  "captured cfg full errs p \<Longrightarrow>
   captured cfg (full @ concat (map stdout_of evs)) (errs @ concat (map stderr_of evs)) (fold (on_event cfg parse info t) evs p)"
proof (induction evs arbitrary: p full errs)
  case (Cons ev evs)
  from Cons.IH [OF captured_event [OF Cons.prems, of ev]] show ?case by simp
qed simp

section \<open>Children and the table of active runs\<close>

text \<open>The invariant of a child, and of the executor.\<close>

definition proc_ok :: "proc \<Rightarrow> bool" where
  "proc_ok p \<longleftrightarrow> (pr_settled p \<longleftrightarrow> pr_result p \<noteq> None) \<and> \<not> (pr_settled p \<and> (pr_timeout p \<or> pr_forceKill p)) \<and>
     (pr_settled p \<or> pr_timedOut p \<or> pr_timeout p) \<and> (pr_forceKill p \<longrightarrow> pr_timedOut p) \<and>
     (pr_timedOut p \<longrightarrow> ''SIGTERM'' \<in> set (pr_signals p))"

definition host_ok :: "host \<Rightarrow> bool" where
  "host_ok h \<longleftrightarrow> list_all (proc_ok \<circ> snd) (hs_procs h) \<and>
     (\<forall>i k. hs_active h i = Some k \<longrightarrow>
        k < length (hs_procs h) \<and> pi_runId (fst (hs_procs h ! k)) = i \<and> \<not> pr_settled (snd (hs_procs h ! k)))"

lemma list_all_update: "list_all P xs \<Longrightarrow> P y \<Longrightarrow> list_all P (xs[k := y])"
  by (auto simp: list_all_iff dest!: set_update_subset_insert [THEN subsetD])

lemma proc_ok_start: "proc_ok startProc"
  by (simp add: proc_ok_def startProc_def)

lemma proc_ok_event: "proc_ok p \<Longrightarrow> proc_ok (on_event cfg parse info t ev p)"
  by (cases ev) (auto simp: proc_ok_def settle_def split: prod.splits)

lemma settled_event:
  "pr_settled (on_event cfg parse info t ev p) \<longleftrightarrow> pr_settled p \<or> (\<exists>m. ev = ChildError m) \<or> (\<exists>x y. ev = ChildClose x y)"
  by (cases ev) (auto simp: settle_def split: prod.splits)

lemma result_event: "pr_settled p \<Longrightarrow> pr_result (on_event cfg parse info t ev p) = pr_result p"
  by (cases ev) (auto split: prod.splits)

lemma host_ok_spawn: "host_ok h \<Longrightarrow> host_ok (host_spawn info h)"
  using proc_ok_start by (auto simp: host_ok_def host_spawn_def nth_append less_Suc_eq) (simp add: startProc_def)

lemma host_ok_event:
  assumes "host_ok h" "k < length (hs_procs h)"
  shows "host_ok (host_event cfg parse t k ev h)"
proof -
  obtain info p where kp: "hs_procs h ! k = (info, p)" by fastforce
  have "proc_ok p" using assms kp unfolding host_ok_def by (auto simp: list_all_length dest!: spec [of _ k])
  then have ok: "proc_ok (on_event cfg parse info t ev p)" by (rule proc_ok_event)
  have procs: "list_all (proc_ok \<circ> snd) ((hs_procs h)[k := (info, on_event cfg parse info t ev p)])"
    using assms(1) ok by (simp add: host_ok_def list_all_update)
  have act: "hs_active h i = Some j \<Longrightarrow> j < length (hs_procs h) \<and> pi_runId (fst (hs_procs h ! j)) = i \<and>
     \<not> pr_settled (snd (hs_procs h ! j))" for i j
    using assms(1) by (simp add: host_ok_def)
  show ?thesis
    unfolding host_ok_def host_event_def kp Let_def prod.case
  proof (intro conjI allI impI, goal_cases)
    case (2 i j) then show ?case using act [of i j] by (auto split: if_splits)
  next
    case (3 i j) then show ?case using act [of i j] kp by (cases "j = k") (auto split: if_splits)
  next
    case (4 i j) then show ?case using act [of i j] kp by (cases "j = k") (auto split: if_splits)
  qed (use procs in simp)
qed

lemma host_ok_cancel:
  assumes "host_ok h" "cancel i h = (a, h')"
  shows "host_ok h'"
proof (cases "hs_active h i")
  case None
  with assms show ?thesis by (simp add: cancel_def)
next
  case (Some k)
  obtain info p where kp: "hs_procs h ! k = (info, p)" by fastforce
  let ?p = "p\<lparr>pr_signals := pr_signals p @ [''SIGTERM''], pr_cancelKills := Suc (pr_cancelKills p)\<rparr>"
  have h': "h' = h\<lparr>hs_procs := (hs_procs h)[k := (info, ?p)]\<rparr>" using assms(2) Some kp by (simp add: cancel_def)
  have k: "k < length (hs_procs h)" using assms(1) Some by (simp add: host_ok_def)
  have "proc_ok p" using assms(1) kp k unfolding host_ok_def by (auto simp: list_all_length dest!: spec [of _ k])
  then have "proc_ok ?p" by (auto simp: proc_ok_def)
  then have procs: "list_all (proc_ok \<circ> snd) ((hs_procs h)[k := (info, ?p)])"
    using assms(1) by (simp add: host_ok_def list_all_update)
  have act: "hs_active h j = Some l \<Longrightarrow> l < length (hs_procs h) \<and> pi_runId (fst (hs_procs h ! l)) = j \<and>
     \<not> pr_settled (snd (hs_procs h ! l))" for j l
    using assms(1) by (simp add: host_ok_def)
  show ?thesis
    unfolding host_ok_def h'
  proof (intro conjI allI impI, goal_cases)
    case (2 j l) then show ?case using act [of j l] by simp
  next
    case (3 j l) then show ?case using act [of j l] kp by (cases "l = k") simp_all
  next
    case (4 j l) then show ?case using act [of j l] kp by (cases "l = k") simp_all
  qed (use procs in simp)
qed

lemma host_ok_step: "host_step cfg parse h h' \<Longrightarrow> host_ok h \<Longrightarrow> host_ok h'"
  by (induction rule: host_step.induct) (auto intro: host_ok_spawn host_ok_event host_ok_cancel)

lemma host_ok_reachable: "(host_step cfg parse)\<^sup>*\<^sup>* idle_host h \<Longrightarrow> host_ok h"
proof (induction rule: rtranclp_induct)
  case base
  then show ?case by (simp add: host_ok_def idle_host_def)
qed (rule host_ok_step)

text \<open>Nothing a step does changes a settled outcome.\<close>

definition outcome_of :: "host \<Rightarrow> nat \<Rightarrow> (js_error + js) option" where
  "outcome_of h k = (if k < length (hs_procs h) then pr_result (snd (hs_procs h ! k)) else None)"

lemma outcome_step:
  assumes "host_step cfg parse h h'" "host_ok h" "outcome_of h k = Some r"
  shows "outcome_of h' k = Some r"
  using assms
proof (induction rule: host_step.induct)
  case (host_spawns h info)
  then show ?case by (simp add: outcome_of_def host_spawn_def nth_append split: if_splits)
next
  case (host_delivers j h t ev)
  obtain info p where jp: "hs_procs h ! j = (info, p)" by fastforce
  have "proc_ok p" using host_delivers(1,2) jp unfolding host_ok_def by (auto simp: list_all_length dest!: spec [of _ j])
  then have "pr_result p = Some r \<Longrightarrow> pr_result (on_event cfg parse info t ev p) = Some r"
    by (metis option.distinct(1) proc_ok_def result_event)
  with host_delivers jp show ?case
    by (cases "k = j") (simp_all add: outcome_of_def host_event_def Let_def split: if_splits)
next
  case (host_cancels i h a h')
  show ?case
  proof (cases "hs_active h i")
    case None with host_cancels show ?thesis by (simp add: cancel_def)
  next
    case (Some j)
    with host_cancels show ?thesis
      by (cases "j = k"; cases "hs_procs h ! j") (auto simp: outcome_of_def cancel_def split: if_splits)
  qed
qed

lemma outcome_reachable:
  assumes "(host_step cfg parse)\<^sup>*\<^sup>* h h'" "host_ok h" "outcome_of h k = Some r"
  shows "host_ok h' \<and> outcome_of h' k = Some r"
  using assms by (induction rule: rtranclp_induct) (auto intro: host_ok_step outcome_step)

text \<open>A child whose last event is \<open>error\<close> or \<open>close\<close> settles.\<close>

lemma run_child_settles: "\<exists>r. pr_result (run_child cfg env info (evs @ [last_event l])) = Some r"
proof -
  have "proc_ok (fold (on_event cfg parse info t) evs p)" if "proc_ok p" for p parse t
    using that by (induction evs arbitrary: p) (auto intro: proc_ok_event)
  then have "proc_ok (run_child cfg env info (evs @ [last_event l]))"
    by (simp add: run_child_def proc_ok_start proc_ok_event)
  moreover have "pr_settled (run_child cfg env info (evs @ [last_event l]))"
    by (auto simp: run_child_def settled_event last_event_def split: sum.splits)
  ultimately show ?thesis by (auto simp: proc_ok_def)
qed

text \<open>
  \<open>_activeByRunId\<close> is keyed by the run alone: when the child of an older attempt closes, the entry of
  the newer attempt goes and \<open>cancel\<close> does not find it.
\<close>

lemma cancel_misses_reclaimed_run:
  assumes "pi_runId old = i" "pi_runId new = i"
  shows "fst (cancel i (host_event cfg parseJson t 0 (ChildError m) (host_spawn new (host_spawn old idle_host)))) =
    JObj [(''status'', JStr ''not_found'')]"
  using assms by (simp add: cancel_def host_event_def host_spawn_def idle_host_def startProc_def settle_def Let_def)

text \<open>The kill timer \<open>cancel\<close> starts is not cleared when the child closes: it signals the group of a finished child.\<close>

lemma cancel_kill_after_close:
  "pr_signals (run_child cfg env info [ChildClose (JInt 0) JNull, CancelKillFires]) = [] \<and>
   (let h = snd (cancel (pi_runId info) (host_spawn info idle_host));
        h' = host_event cfg parseJson t 0 CancelKillFires (host_event cfg parseJson t 0 (ChildError m) h) in
    pr_settled (snd (hs_procs h' ! 0)) \<and> pr_signals (snd (hs_procs h' ! 0)) = [''SIGTERM'', ''SIGKILL''])"
  by (simp add: run_child_def cancel_def host_event_def host_spawn_def idle_host_def startProc_def settle_def Let_def)

section \<open>The file system during an execution\<close>

text \<open>A child confined to \<open>D\<close>: the platform's sandbox keeps every node outside as it was.\<close>

definition confined :: "exec_env \<Rightarrow> string list \<Rightarrow> bool" where
  "confined env D \<longleftrightarrow> (\<forall>request fs evs l fs' p. xc_child env request fs = (evs, l, fs') \<and> \<not> prefix D p \<longrightarrow> fs' p = fs p)"

lemma spawn_contained:
  assumes "confined env D"
  shows "keeps (stays_inside D) (spawnEntrypoint cfg env request runId x)"
  unfolding keeps_def
proof
  fix s :: os
  obtain evs l fs' where c: "xc_child env request (os_fs s) = (evs, l, fs')" by (metis prod_cases3)
  have "\<not> prefix D p \<Longrightarrow> fs' p = os_fs s p" for p using assms c unfolding confined_def by blast
  moreover have "os_fs (snd (spawnEntrypoint cfg env request runId x s)) = fs'"
    using c by (simp add: spawnEntrypoint_def Let_def split: option.splits)
  ultimately show "stays_inside D s (snd (spawnEntrypoint cfg env request runId x s))"
    by (auto simp: stays_inside_def dest: prefix_order.less_le_not_le [THEN iffD1])
qed

lemma spawn_no_faults: "keeps no_faults (spawnEntrypoint cfg env request runId x)"
  by (auto simp: keeps_def no_faults_def spawnEntrypoint_def Let_def split: prod.splits option.splits)

lemma execute_extracted_contained:
  assumes "confined env (path_segments (ex_extractDir ex))"
  shows "keeps (stays_inside (path_segments (ex_extractDir ex))) (execute_extracted cfg env runId dispatchId x context ex)"
  unfolding execute_extracted_def writeContextFile_def executePythonEntrypoint_def executeNodeEntrypoint_def Let_def
  by (auto split: sum.splits intro!: contained_rules mkdirp_contained write_contained spawn_contained assms)

lemma execute_extracted_no_faults: "keeps no_faults (execute_extracted cfg env runId dispatchId x context ex)"
  unfolding execute_extracted_def writeContextFile_def executePythonEntrypoint_def executeNodeEntrypoint_def Let_def
  by (auto split: sum.splits intro!: keeps_andThen keeps_ret keeps_throw no_faults_rules spawn_no_faults)

lemma safeZipExtract_no_faults: "keeps no_faults (safeZipExtract readArchive cwd dir maxFC maxUB buffer entrypoint)"
  unfolding safeZipExtract_def
  by (auto split: sum.splits prod.splits intro!: keeps_andThen keeps_tryCatch keeps_ret keeps_throw no_faults_rules extraction_no_faults)

lemma safeZipExtract_dir:
  "safeZipExtract readArchive cwd dir maxFC maxUB buffer entrypoint s = (Inr ex, s') \<Longrightarrow> ex_extractDir ex = dir"
  by (auto simp: safeZipExtract_def andThen_def tryCatch_def split: sum.splits prod.splits if_splits)

lemma execute_cases:
  assumes "execute cfg env runId dispatchId x b context s = (r, s')"
  obtains (refused) e where "r = Inl e" "s' = s"
        | (ran) buffer entrypoint where
            "resolveArtifactBuffer (xc_download env) (xc_sha256 env) x b = Inr buffer"
            "validateExecuteRequest cfg runId x = Inr entrypoint" "\<not> jx_requireRuntimeIsolation cfg"
            "andThen (safeZipExtract (xc_archive env) (xc_cwd env) (xc_dir env) 200 (50 * 1024 * 1024) buffer entrypoint) (\<lambda>ex.
               tryFinally (execute_extracted cfg env runId dispatchId x context ex)
                 (os_call (fs_rm (path_segments (ex_extractDir ex))))) s = (r, s')"
  using assms by (auto simp: execute_def validateRuntimeIsolation_def split: sum.splits if_splits)

lemma execute_contained:
  assumes "path_isAbsolute (xc_dir env)" "path_segments (xc_dir env) \<noteq> []" "confined env (path_segments (xc_dir env))"
    "execute cfg env runId dispatchId x b context s = (r, s')"
  shows "stays_inside (path_segments (xc_dir env)) s s'"
  using assms(4)
proof (cases rule: execute_cases)
  case (refused e)
  then show ?thesis using contained_refl by (simp add: reflpD)
next
  case (ran buffer entrypoint)
  note zip = safeZipExtract_contained [OF assms(1,2)]
  from ran(4) show ?thesis
  proof (cases rule: andThen_cases)
    case (throws e)
    then show ?thesis using keepsD [OF zip] by blast
  next
    case (returns ex s1)
    have dir: "ex_extractDir ex = xc_dir env" using safeZipExtract_dir [OF returns(1)] .
    have "keeps (stays_inside (path_segments (xc_dir env)))
       (tryFinally (execute_extracted cfg env runId dispatchId x context ex) (os_call (fs_rm (path_segments (ex_extractDir ex)))))"
      using execute_extracted_contained [of env ex] assms(3) dir
      by (simp add: keeps_tryFinally contained_trans rm_contained)
    then show ?thesis
      using keepsD [OF zip returns(1)] returns(2) contained_trans by (metis keepsD transpD)
  qed
qed

lemma execute_removes:
  assumes "os_faults s = []" "\<And>q. prefix (path_segments (xc_dir env)) q \<Longrightarrow> os_fs s q = None"
    "execute cfg env runId dispatchId x b context s = (r, s')" "prefix (path_segments (xc_dir env)) p"
  shows "os_fs s' p = None"
  using assms(3)
proof (cases rule: execute_cases)
  case (ran buffer entrypoint)
  from ran(4) show ?thesis
  proof (cases rule: andThen_cases)
    case (throws e)
    then show ?thesis using failed_extraction_removes [OF assms(1,2)] assms(4) by blast
  next
    case (returns ex s1)
    have dir: "ex_extractDir ex = xc_dir env" using safeZipExtract_dir [OF returns(1)] .
    have f1: "os_faults s1 = []"
      using keepsD [OF safeZipExtract_no_faults returns(1)] assms(1) by (simp add: no_faults_def)
    obtain r2 s2 where x2: "execute_extracted cfg env runId dispatchId x context ex s1 = (r2, s2)" by fastforce
    have "os_faults s2 = []"
      using keepsD [OF execute_extracted_no_faults x2] f1 by (simp add: no_faults_def)
    then show ?thesis using returns(2) x2 dir assms(4) by (auto simp: tryFinally_def os_call_ok fs_rm_def)
  qed
qed (use assms in simp)

section \<open>Sample data\<close>

definition sample_definition22 :: js where
  "sample_definition22 = JObj [(''runtime'', JStr ''javascript''), (''runtimeVersion'', JStr ''nodejs22''), (''entrypoint'', JStr ''job.js'')]"

definition sample_cfg :: executor where
  "sample_cfg = newJobRuntimeExecutor (\<lambda>k. if k = ''WORKER_REQUIRE_RUNTIME_ISOLATION'' then Some ''false'' else None)"

text \<open>A child that prints, writes a file into its directory and exits.\<close>

definition sample_exec :: exec_env where
  "sample_exec = \<lparr>xc_download = (\<lambda>_ _ _. Inr ''good''), xc_sha256 = (\<lambda>_. ''h''), xc_archive = sample_archive,
     xc_parseJson = sample_parse, xc_processEnv = (\<lambda>_. None), xc_execPath = ''node'', xc_pythonSdkPath = ''/sdk'',
     xc_sdk = ''sdk'', xc_cwd = ''/'', xc_dir = ''/tmp/iga-job-1'',
     xc_child = (\<lambda>_ fs. ([Stdout ''hi''], Inr (JInt 0, JNull), fs([''tmp'', ''iga-job-1'', ''out''] \<mapsto> File ''o''))),
     xc_startedAt = 5, xc_endedAt = 6\<rparr>"

section \<open>Properties\<close>






end
