(* ===== verification/Iga_Gateway.thy ===== *)
theory Iga_Gateway
  imports Runtime_Executor
begin

text \<open>
  The way of a job's request to the IGA service: the bearer-token middlewares
  (\<open>src/src/middleware/internalAuth.js\<close>, \<open>src/src/middleware/publicAuth.js\<close>), the proxy
  (\<open>src/src/services/runtimeIgaProxyService.js\<close>), the HTTP client (\<open>src/src/iga/igaClient.js\<close>) and the
  OAuth token cache (\<open>src/src/iga/tokenManager.js\<close>). Token verification, \<open>fetch\<close> and \<open>JSON.parse\<close> are
  parameters; the requests sent to the IGA service are part of the state.
\<close>

section \<open>Bearer tokens\<close>

definition lower_char :: "char \<Rightarrow> char" where
  "lower_char c = (case map_of (zip ''ABCDEFGHIJKLMNOPQRSTUVWXYZ'' ''abcdefghijklmnopqrstuvwxyz'') c of Some d \<Rightarrow> d | None \<Rightarrow> c)"

definition line_terminator :: "char \<Rightarrow> bool" where
  "line_terminator c \<longleftrightarrow> c = CHR 0x0A \<or> c = CHR 0x0D"

text \<open>The pattern \<open>^Bearer\s+(.+)$\<close>, ignoring case; white space alone is given back to the token.\<close>

definition bearer_token :: "string \<Rightarrow> string option" where
  "bearer_token h =
     (let rest = drop 6 h; w = takeWhile js_space rest; t = dropWhile js_space rest in
      if map lower_char (take 6 h) \<noteq> ''bearer'' \<or> w = [] then None
      else if t \<noteq> [] then (if list_ex line_terminator t then None else Some t)
      else if length w \<ge> 2 \<and> \<not> line_terminator (last w) then Some [last w]
      else None)"

datatype auth_result = Next js js | Deny nat string

text \<open>\<open>internalAuth\<close>: \<open>Next\<close> carries the principal and the claims. Reading a property of \<open>null\<close> throws.\<close>

definition internalAuth :: "string \<Rightarrow> string \<Rightarrow> (string \<Rightarrow> js_error + js) \<Rightarrow> string option \<Rightarrow> auth_result" where
  "internalAuth expectedAudience expectedEmail verifyToken authorization =
     (case bearer_token (case authorization of Some h \<Rightarrow> h | None \<Rightarrow> []) of
        None \<Rightarrow> Deny 401 ''missing bearer token''
      | Some token \<Rightarrow>
          (case verifyToken token of
             Inl e \<Rightarrow> Deny 401 ''invalid bearer token''
           | Inr claims \<Rightarrow>
               if nullish claims then Deny 401 ''invalid bearer token''
               else if js_prop claims ''aud'' \<noteq> JStr expectedAudience then Deny 403 ''invalid token audience''
               else let email = js_or (js_prop claims ''email'') (js_prop claims ''sub'') in
                 if email \<noteq> JStr expectedEmail then Deny 403 ''invalid token principal''
                 else Next email claims))"

definition createInternalAuthMiddleware ::
  "string option \<Rightarrow> string option \<Rightarrow> (string \<Rightarrow> js_error + js) \<Rightarrow> js_error + (string option \<Rightarrow> auth_result)" where
  "createInternalAuthMiddleware audience email verifyToken =
     (if \<not> truthy_str audience then Inl (newError ''WORKER_OIDC_AUDIENCE or WORKER_BASE_URL is required'')
      else if \<not> truthy_str email then Inl (newError ''WORKER_INVOKER_SERVICE_ACCOUNT_EMAIL is required'')
      else Inr (internalAuth (the audience) (the email) verifyToken))"

definition token_scopes :: "js \<Rightarrow> js list option" where
  "token_scopes scope =
     (case js_or scope (JStr []) of
        JArr xs \<Rightarrow> Some xs
      | JStr s \<Rightarrow> Some (map JStr (filter (\<lambda>w. w \<noteq> []) (split_on (CHR '' '') s)))
      | _ \<Rightarrow> None)"

definition publicAuth :: "string option \<Rightarrow> (string \<Rightarrow> js_error + js) \<Rightarrow> string option \<Rightarrow> auth_result" where
  "publicAuth requiredScope verifyToken authorization =
     (case bearer_token (case authorization of Some h \<Rightarrow> h | None \<Rightarrow> []) of
        None \<Rightarrow> Deny 401 ''missing bearer token''
      | Some token \<Rightarrow>
          (case verifyToken token of
             Inl e \<Rightarrow> Deny 401 ''invalid bearer token''
           | Inr claims \<Rightarrow>
               let clientId = js_or (js_or (js_prop claims ''client_id'') (js_prop claims ''azp'')) (js_prop claims ''sub'') in
               if nullish claims then Deny 401 ''invalid bearer token''
               else if truthy_str requiredScope then
                 (case token_scopes (js_prop claims ''scope'') of
                    None \<Rightarrow> Deny 401 ''invalid bearer token''
                  | Some scopes \<Rightarrow>
                      if JStr (the requiredScope) \<notin> set scopes then Deny 403 ''insufficient scope'' else Next clientId claims)
               else Next clientId claims))"

section \<open>The token cache\<close>

record token =
  tk_accessToken :: js
  tk_tokenType :: js
  tk_expiresAtMs :: rat

record http_response =
  hr_status :: nat
  hr_text :: string

definition hr_ok :: "http_response \<Rightarrow> bool" where
  "hr_ok r \<longleftrightarrow> 200 \<le> hr_status r \<and> hr_status r \<le> 299"

record iga_call =
  ic_method :: string
  ic_url :: string
  ic_token :: js
  ic_body :: js

text \<open>
  The surroundings: \<open>ge_fetchToken\<close> is the POST of the client credentials to the token endpoint, given
  by the attempt; \<open>ge_fetchIga\<close> sends a call. The clock is read by the step.
\<close>

record 'db gateway_env =
  ge_store :: "'db run_store"
  ge_fetchToken :: "nat \<Rightarrow> js_error + http_response"
  ge_fetchIga :: "nat \<Rightarrow> iga_call \<Rightarrow> js_error + http_response"
  ge_parseJson :: json_parser
  ge_now :: "nat \<Rightarrow> instant"
  ge_uuid :: "nat \<Rightarrow> string"
  ge_refreshSkewMs :: rat
  ge_baseUrl :: string
  ge_enabled :: bool
  ge_maxRequestBytes :: nat
  ge_maxResponseBytes :: nat
  ge_auditEnabled :: bool
  ge_auditFails :: "js \<Rightarrow> bool"
  ge_auditActor :: string

record 'db gateway =
  gw_db :: 'db
  gw_cached :: "token option"
  gw_calls :: "iga_call list"
  gw_audit :: "js list"
  gw_step :: nat

definition gw_now :: "'db gateway_env \<Rightarrow> ('db gateway, instant) eff" where
  "gw_now env = (\<lambda>g. (Inr (ge_now env (gw_step g)), g\<lparr>gw_step := Suc (gw_step g)\<rparr>))"

definition fetchToken :: "'db gateway_env \<Rightarrow> ('db gateway, token) eff" where
  "fetchToken env = (\<lambda>g.
     let g' = g\<lparr>gw_step := Suc (gw_step g)\<rparr> in
     case ge_fetchToken env (gw_step g) of
       Inl e \<Rightarrow> (Inl e, g')
     | Inr response \<Rightarrow>
         if \<not> hr_ok response
         then (Inl (newError (''OAuth token request failed: HTTP '' @ nat_text (hr_status response) @ '' '' @ hr_text response)), g')
         else (case ge_parseJson env (hr_text response) of
           Inl m \<Rightarrow> (Inl (newError m), g')
         | Inr json \<Rightarrow>
             if json = JNull then (Inl (newError ''Cannot read properties of null (reading 'access_token')''), g')
             else if \<not> truthy (js_prop json ''access_token'') then (Inl (newError ''OAuth token response missing access_token''), g')
             else let expiresIn = (case js_Number (js_prop json ''expires_in'') of Fin q \<Rightarrow> if q > 0 then q else 300 | _ \<Rightarrow> 300) in
               (Inr \<lparr>tk_accessToken = js_prop json ''access_token'', tk_tokenType = js_or (js_prop json ''token_type'') (JStr ''Bearer''),
                     tk_expiresAtMs = of_nat (ge_now env (Suc (gw_step g))) + expiresIn * 1000\<rparr>,
                g'\<lparr>gw_step := Suc (Suc (gw_step g))\<rparr>)))"

definition isExpiringSoon :: "'db gateway_env \<Rightarrow> instant \<Rightarrow> token \<Rightarrow> bool" where
  "isExpiringSoon env t token \<longleftrightarrow> tk_expiresAtMs token - of_nat t \<le> ge_refreshSkewMs env"

text \<open>\<open>getAccessToken\<close> of one caller; callers that arrive during a refresh wait for the same one.\<close>

definition getAccessToken :: "'db gateway_env \<Rightarrow> ('db gateway, js) eff" where
  "getAccessToken env = (\<lambda>g.
     (let refresh = andThen (fetchToken env) (\<lambda>tk. \<lambda>h. (Inr (tk_accessToken tk), h\<lparr>gw_cached := Some tk\<rparr>)) in
      case gw_cached g of
        None \<Rightarrow> refresh g
      | Some tk \<Rightarrow>
          andThen (gw_now env) (\<lambda>t. if isExpiringSoon env t tk then refresh else ret (tk_accessToken tk)) g))"

definition invalidate :: "('db gateway, unit) eff" where
  "invalidate = (\<lambda>g. (Inr (), g\<lparr>gw_cached := None\<rparr>))"

section \<open>The client\<close>

definition send :: "'db gateway_env \<Rightarrow> iga_call \<Rightarrow> ('db gateway, http_response) eff" where
  "send env call = (\<lambda>g. (ge_fetchIga env (gw_step g) call,
     g\<lparr>gw_calls := gw_calls g @ [call], gw_step := Suc (gw_step g)\<rparr>))"

text \<open>One retry after a 401; the retry passes \<open>False\<close>.\<close>

function iga_request :: "'db gateway_env \<Rightarrow> string \<Rightarrow> string \<Rightarrow> js \<Rightarrow> bool \<Rightarrow> ('db gateway, js) eff" where
  "iga_request env method path body retryOn401 =
     andThen (getAccessToken env) (\<lambda>token.
     andThen (send env \<lparr>ic_method = method, ic_url = ge_baseUrl env @ path, ic_token = token, ic_body = body\<rparr>) (\<lambda>response.
     if hr_status response = 401 \<and> retryOn401
     then andThen invalidate (\<lambda>_. iga_request env method path body False)
     else if \<not> hr_ok response
     then throw (newError (''IGA request failed: '' @ method @ '' '' @ path @ '' HTTP '' @ nat_text (hr_status response) @ '' '' @ hr_text response))
     else if hr_text response = [] then ret (JObj [])
     else case ge_parseJson env (hr_text response) of Inl m \<Rightarrow> throw (newError m) | Inr v \<Rightarrow> ret v))"
  by pat_completeness auto
termination
  by (relation "measure (\<lambda>(env, method, path, body, retryOn401). if retryOn401 then 1 else 0)") auto

section \<open>The proxy\<close>

definition ALLOWED_METHODS :: "string list" where
  "ALLOWED_METHODS = [''GET'', ''POST'', ''PUT'', ''PATCH'', ''DELETE'']"

definition badRequest :: "string \<Rightarrow> string \<Rightarrow> int \<Rightarrow> js_error" where
  "badRequest code message statusCode = (newError message)\<lparr>e_code := JStr code, e_statusCode := JInt statusCode\<rparr>"

definition upper_ascii :: "char \<Rightarrow> char" where
  "upper_ascii c = (case map_of (zip ''abcdefghijklmnopqrstuvwxyz'' ''ABCDEFGHIJKLMNOPQRSTUVWXYZ'') c of Some d \<Rightarrow> d | None \<Rightarrow> c)"

definition normalizeMethod :: "js \<Rightarrow> js_error + string" where
  "normalizeMethod method =
     (let m = map upper_ascii (js_String (js_or method (JStr []))) in
      if m \<notin> set ALLOWED_METHODS
      then Inl (badRequest ''IGA_METHOD_NOT_ALLOWED'' ''method must be one of GET, POST, PUT, PATCH, DELETE'' 400) else Inr m)"

definition absolute_url :: "string \<Rightarrow> bool" where
  "absolute_url p \<longleftrightarrow> startsWith (map lower_char p) ''http://'' \<or> startsWith (map lower_char p) ''https://''"

definition normalizePath :: "js \<Rightarrow> js_error + string" where
  "normalizePath path =
     (case path of
        JStr (c # cs) \<Rightarrow>
          let p = c # cs in
          if \<not> startsWith p ''/'' then Inl (badRequest ''IGA_PATH_INVALID'' ''path must start with /'' 400)
          else if startsWith p ''//'' then Inl (badRequest ''IGA_PATH_INVALID'' ''path must not start with //'' 400)
          else if absolute_url p then Inl (badRequest ''IGA_PATH_INVALID'' ''path must be relative, not an absolute URL'' 400)
          else Inr p
      | _ \<Rightarrow> Inl (badRequest ''IGA_PATH_REQUIRED'' ''path is required'' 400))"

definition validateRequestSize :: "'db gateway_env \<Rightarrow> js \<Rightarrow> js_error option" where
  "validateRequestSize env body =
     (if nullish body then None
      else if byteLength (json_text 0 body 0) > ge_maxRequestBytes env
      then Some (badRequest ''IGA_REQUEST_TOO_LARGE'' ''IGA request body exceeds configured size limit'' 413) else None)"

definition validateResponseSize :: "'db gateway_env \<Rightarrow> js \<Rightarrow> js_error option" where
  "validateResponseSize env res =
     (if byteLength (json_text 0 (js_or res (JObj [])) 0) > ge_maxResponseBytes env
      then Some (badRequest ''IGA_RESPONSE_TOO_LARGE'' ''IGA response exceeds configured size limit'' 502) else None)"

definition gw_emitAuditEvent ::
  "'db gateway_env \<Rightarrow> string \<Rightarrow> string \<Rightarrow> string \<Rightarrow> run_doc \<Rightarrow> js \<Rightarrow> instant \<Rightarrow> js_error option \<Rightarrow> js \<Rightarrow> ('db gateway, unit) eff" where
  "gw_emitAuditEvent env eventType outc runId run prin createdAt error details = (\<lambda>g.
     if \<not> ge_auditEnabled env then (Inr (), g)
     else let event = JObj ([(''eventId'', JStr (ge_uuid env (gw_step g))), (''eventType'', JStr eventType),
                (''outcome'', JStr outc), (''actor'', JStr (ge_auditActor env)), (''principal'', prin),
                (''runId'', JStr runId), (''createdAt'', iso createdAt), (''details'', details),
                (''jobDefinitionId'', JStr (rn_definitionId run)), (''jobInstanceId'', JStr (rn_instanceId run))] @
                (case error of Some e \<Rightarrow> [(''errorCode'', e_code e), (''errorMessage'', JStr (e_message e))] | None \<Rightarrow> [])) in
       (Inr (), g\<lparr>gw_audit := (if ge_auditFails env event then gw_audit g else gw_audit g @ [event]), gw_step := Suc (gw_step g)\<rparr>))"

text \<open>The \<open>try\<close> block of \<open>request\<close> and its \<open>catch\<close>.\<close>

definition proxy_forward ::
  "'db gateway_env \<Rightarrow> string \<Rightarrow> run_doc \<Rightarrow> js \<Rightarrow> string \<Rightarrow> string \<Rightarrow> js \<Rightarrow> ('db gateway, js) eff" where
  "proxy_forward env runId run prin method path body =
     (let details = JObj [(''method'', JStr method), (''path'', JStr path)] in
      tryCatch
        (andThen (iga_request env method path body True) (\<lambda>res.
         case validateResponseSize env res of
           Some e \<Rightarrow> throw e
         | None \<Rightarrow>
             andThen (gw_now env) (\<lambda>endedAt.
             andThen (gw_emitAuditEvent env ''runtime.iga.request.succeeded'' ''success'' runId run prin endedAt None details) (\<lambda>_.
             ret (JObj [(''ok'', JBool True), (''method'', JStr method), (''path'', JStr path), (''result'', res)])))))
        (\<lambda>error. andThen (gw_now env) (\<lambda>endedAt.
           andThen (gw_emitAuditEvent env ''runtime.iga.request.failed'' ''failure'' runId run prin endedAt (Some error) details) (\<lambda>_.
           throw error))))"

definition gw_getRun :: "'db gateway_env \<Rightarrow> string \<Rightarrow> ('db gateway, run_doc option) eff" where
  "gw_getRun env runId = (\<lambda>g. let (r, d) = rs_getRun (ge_store env) runId (gw_db g) in (r, g\<lparr>gw_db := d\<rparr>))"

definition proxy_request ::
  "'db gateway_env \<Rightarrow> js \<Rightarrow> js \<Rightarrow> js \<Rightarrow> js \<Rightarrow> js \<Rightarrow> js \<Rightarrow> ('db gateway, js) eff" where
  "proxy_request env runId dispatchId method path body prin =
     (if \<not> ge_enabled env then throw (badRequest ''RUNTIME_IGA_PROXY_DISABLED'' ''runtime IGA proxy is disabled'' 403)
      else case runId of
        JStr (c # cs) \<Rightarrow>
          (case normalizeMethod method of
             Inl e \<Rightarrow> throw e
           | Inr m \<Rightarrow>
               (case normalizePath path of
                  Inl e \<Rightarrow> throw e
                | Inr p \<Rightarrow>
                    (case validateRequestSize env body of
                       Some e \<Rightarrow> throw e
                     | None \<Rightarrow>
                         andThen (gw_getRun env (c # cs)) (\<lambda>found. case found of
                           None \<Rightarrow> throw (badRequest ''RUN_NOT_FOUND'' ''run not found'' 404)
                         | Some run \<Rightarrow>
                             if rn_state run \<noteq> RUNNING
                             then throw (badRequest ''RUN_NOT_RUNNING'' (''run '' @ (c # cs) @ '' is '' @ state_text (rn_state run) @
                                    ''; IGA requests are only allowed while RUNNING'') 409)
                             else if truthy_str (rn_dispatchId run) \<and> dispatchId \<noteq> JStr (the (rn_dispatchId run))
                             then throw (badRequest ''IGA_RUN_DISPATCH_MISMATCH''
                                    (''dispatchId does not match the current dispatch for run '' @ (c # cs)) 403)
                             else andThen (gw_now env) (\<lambda>startedAt.
                               andThen (gw_emitAuditEvent env ''runtime.iga.request.started'' ''started'' (c # cs) run prin startedAt None
                                 (JObj [(''method'', JStr m), (''path'', JStr p)])) (\<lambda>_.
                               proxy_forward env (c # cs) run prin m p body))))))
      | _ \<Rightarrow> throw (badRequest ''RUN_ID_REQUIRED'' ''runId is required'' 400))"

section \<open>Lemmas\<close>

declare iga_request.simps [simp del]

text \<open>Methods that leave the database alone and send at most \<open>n\<close> calls, all of which satisfy \<open>P\<close>.\<close>

definition adds :: "nat \<Rightarrow> (iga_call \<Rightarrow> bool) \<Rightarrow> 'db gateway \<Rightarrow> 'db gateway \<Rightarrow> bool" where
  "adds n P g g' \<longleftrightarrow> gw_db g' = gw_db g \<and> (\<exists>cs. gw_calls g' = gw_calls g @ cs \<and> length cs \<le> n \<and> list_all P cs)"

definition sends :: "nat \<Rightarrow> (iga_call \<Rightarrow> bool) \<Rightarrow> ('db gateway, 'a) eff \<Rightarrow> bool" where
  "sends n P m \<longleftrightarrow> (\<forall>g. adds n P g (snd (m g)))"

lemma adds_refl: "adds n P g g"
  by (simp add: adds_def)

lemma adds_trans: "adds a P g1 g2 \<Longrightarrow> adds b P g2 g3 \<Longrightarrow> adds (a + b) P g1 g3"
  by (auto simp: adds_def)

lemma adds_mono: "adds a P g1 g2 \<Longrightarrow> a \<le> b \<Longrightarrow> adds b P g1 g2"
  by (fastforce simp: adds_def)

lemma sends_leaf: "sends n P (ret a)" "sends n P (throw e)"
  by (simp_all add: sends_def adds_refl)

lemma sends_mono: "sends a P m \<Longrightarrow> a \<le> b \<Longrightarrow> sends b P m"
  by (auto simp: sends_def intro: adds_mono)

lemma sends_andThen:
  assumes "sends a P m" "\<And>x. sends b P (k x)"
  shows "sends (a + b) P (andThen m k)"
  unfolding sends_def
proof
  fix g
  have m: "adds a P g (snd (m g))" using assms(1) by (simp add: sends_def)
  show "adds (a + b) P g (snd (andThen m k g))"
  proof (cases "m g")
    case (Pair r g1)
    show ?thesis
    proof (cases r)
      case (Inl e)
      then show ?thesis using Pair m by (auto simp: andThen_def intro: adds_mono)
    next
      case (Inr x)
      then show ?thesis using Pair m assms(2) [of x] by (auto simp: andThen_def sends_def intro: adds_trans)
    qed
  qed
qed

lemma sends_andThen0: "sends 0 P m \<Longrightarrow> (\<And>x. sends n P (k x)) \<Longrightarrow> sends n P (andThen m k)"
  using sends_andThen [of 0 P m n k] by simp

lemma sends_andThen_last: "sends n P m \<Longrightarrow> (\<And>x. sends 0 P (k x)) \<Longrightarrow> sends n P (andThen m k)"
  using sends_andThen [of n P m 0 k] by simp

lemma sends_tryCatch:
  assumes "sends n P m" "\<And>e. sends 0 P (h e)"
  shows "sends n P (tryCatch m h)"
  unfolding sends_def
proof
  fix g
  have m: "adds n P g (snd (m g))" using assms(1) by (simp add: sends_def)
  show "adds n P g (snd (tryCatch m h g))"
  proof (cases "m g")
    case (Pair r g1)
    show ?thesis
    proof (cases r)
      case (Inl e)
      have "adds 0 P g1 (snd (h e g1))" using assms(2) by (simp add: sends_def)
      then show ?thesis using Pair Inl m adds_trans [of n P g g1 0] by (simp add: tryCatch_def)
    qed (use Pair m in \<open>simp add: tryCatch_def\<close>)
  qed
qed

lemma sends_local:
  "sends 0 P (gw_now env)" "sends 0 P (gw_emitAuditEvent env a b i run pr t e d)" "sends 0 P invalidate"
  "sends 0 P (fetchToken env)"
  by (auto simp: sends_def adds_def gw_now_def gw_emitAuditEvent_def invalidate_def fetchToken_def Let_def
      split: sum.splits)

lemma sends_refresh: "sends 0 P (andThen (fetchToken env) (\<lambda>tk. \<lambda>h. (Inr (tk_accessToken tk), h\<lparr>gw_cached := Some tk\<rparr>)))"
  by (rule sends_andThen0 [OF sends_local(4)]) (simp add: sends_def adds_def)

lemma sends_token: "sends 0 P (getAccessToken env)"
  unfolding sends_def
proof
  fix g :: "'a gateway"
  let ?refresh = "andThen (fetchToken env) (\<lambda>tk. \<lambda>h. (Inr (tk_accessToken tk), h\<lparr>gw_cached := Some tk\<rparr>))"
  have "sends 0 P (andThen (gw_now env) (\<lambda>t. if isExpiringSoon env t tk then ?refresh else ret (tk_accessToken tk)))" for tk
    by (auto intro!: sends_andThen0 sends_local sends_refresh sends_leaf)
  then show "adds 0 P g (snd (getAccessToken env g))"
    using sends_refresh [of P env] by (simp add: getAccessToken_def sends_def Let_def split: option.split)
qed

lemma sends_send: "P call \<Longrightarrow> sends 1 P (send env call)"
  by (simp add: sends_def adds_def send_def)

definition call_for :: "'db gateway_env \<Rightarrow> string \<Rightarrow> string \<Rightarrow> js \<Rightarrow> iga_call \<Rightarrow> bool" where
  "call_for env method path body c \<longleftrightarrow> ic_method c = method \<and> ic_url c = ge_baseUrl env @ path \<and> ic_body c = body"

lemma sends_iga_request: "sends (if retryOn401 then 2 else 1) (call_for env method path body) (iga_request env method path body retryOn401)"
proof -
  let ?P = "call_for env method path body"
  have last: "sends n ?P (if \<not> hr_ok r then throw e1 else if hr_text r = [] then ret (JObj [])
      else case ge_parseJson env (hr_text r) of Inl m \<Rightarrow> throw (newError m) | Inr v \<Rightarrow> ret v)" for n r e1
    by (auto intro: sends_leaf split: sum.split)
  have once: "sends 1 ?P (iga_request env method path body False)"
    apply (subst iga_request.simps)
    by (intro sends_andThen0 [OF sends_token] sends_andThen_last sends_send)
      (simp_all add: call_for_def last)
  have twice: "sends 2 ?P (iga_request env method path body True)"
  proof (subst iga_request.simps, intro sends_andThen0 [OF sends_token] sends_andThen [where a = 1 and b = 1, simplified one_add_one] sends_send, goal_cases)
    case (2 tk r)
    have "sends 1 ?P (andThen invalidate (\<lambda>_. iga_request env method path body False))"
      by (rule sends_andThen0 [OF sends_local(3) once])
    then show ?case by (auto intro: sends_leaf split: sum.split)
  qed (simp add: call_for_def)
  show ?thesis using once twice by simp
qed

lemma sends_forward: "sends 2 (call_for env method path body) (proxy_forward env i run prin method path body)"
  unfolding proxy_forward_def Let_def
proof (intro sends_tryCatch sends_andThen_last)
  show "sends 2 (call_for env method path body) (iga_request env method path body True)"
    using sends_iga_request [of True] by simp
qed (auto intro!: sends_andThen0 sends_local sends_leaf split: option.split)

text \<open>The middlewares let a request through only with a verified token of the expected principal or scope.\<close>

lemma bearer_token_Nil: "bearer_token [] = None"
  by (simp add: bearer_token_def)

lemma internalAuth_Next:
  assumes "internalAuth audience email verifyToken authorization = Next prin claims"
  shows "\<exists>h t. authorization = Some h \<and> bearer_token h = Some t \<and> verifyToken t = Inr claims \<and>
    js_prop claims ''aud'' = JStr audience \<and> prin = JStr email"
  using assms by (auto simp: internalAuth_def Let_def bearer_token_Nil split: option.splits sum.splits if_splits)

lemma publicAuth_Next:
  assumes "publicAuth (Some (c # cs)) verifyToken authorization = Next client claims"
  shows "\<exists>h t scopes. authorization = Some h \<and> bearer_token h = Some t \<and> verifyToken t = Inr claims \<and>
    token_scopes (js_prop claims ''scope'') = Some scopes \<and> JStr (c # cs) \<in> set scopes"
  using assms by (auto simp: publicAuth_def Let_def bearer_token_Nil split: option.splits sum.splits if_splits)

text \<open>A path that starts with a slash is no absolute URL: the third check of \<open>normalizePath\<close> never fires.\<close>

lemma slash_not_absolute: "startsWith p ''/'' \<Longrightarrow> \<not> absolute_url p"
  by (cases p) (auto simp: absolute_url_def lower_char_def)

section \<open>Sample data\<close>

definition sample_gateway_env :: "pg gateway_env" where
  "sample_gateway_env = \<lparr>ge_store = RunStore, ge_fetchToken = (\<lambda>_. Inr \<lparr>hr_status = 200, hr_text = ''t''\<rparr>),
     ge_fetchIga = (\<lambda>_ _. Inr \<lparr>hr_status = 200, hr_text = []\<rparr>),
     ge_parseJson = (\<lambda>_. Inr (JObj [(''access_token'', JStr ''tok'')])), ge_now = (\<lambda>k. k), ge_uuid = (\<lambda>_. ''u''),
     ge_refreshSkewMs = 60000, ge_baseUrl = ''https://iga'', ge_enabled = True, ge_maxRequestBytes = 100,
     ge_maxResponseBytes = 100, ge_auditEnabled = True, ge_auditFails = (\<lambda>_. False), ge_auditActor = ''proxy''\<rparr>"

definition sample_gateway :: "pg gateway" where
  "sample_gateway = \<lparr>gw_db = running_pg, gw_cached = None, gw_calls = [], gw_audit = [], gw_step = 0\<rparr>"

section \<open>Properties\<close>

text \<open>
  C9. The proxy speaks to the IGA service only for a running attempt: whatever a request says, at most
  two calls are sent, and if any is sent, the named run is \<open>RUNNING\<close>, the presented token is the one
  its row carries, the method is allowed, the path is rooted at the base URL and not a network path,
  and every call is that method, that path and that body. The tables never change.
\<close>

theorem proxy_only_running_attempts:
  assumes "ge_store env = RunStore" and "keys_ok (pg_db (gw_db g))" and "pg_faults (gw_db g) = []"
    and "proxy_request env runId dispatchId method path body prin g = (r, g')"
  shows "gw_db g' = gw_db g \<and> (\<exists>cs. gw_calls g' = gw_calls g @ cs \<and> length cs \<le> 2 \<and>
    (cs = [] \<or> (\<exists>i row m p. runId = JStr i \<and> find_run i (pg_db (gw_db g)) = Some row \<and> jr_state row = RUNNING \<and>
       (case jr_dispatch_id row of None \<Rightarrow> True | Some d \<Rightarrow> d = [] \<or> dispatchId = JStr d) \<and> m \<in> set ALLOWED_METHODS \<and>
       startsWith p ''/'' \<and> \<not> startsWith p ''//'' \<and> list_all (call_for env m p body) cs)))"
proof (cases "gw_db g' = gw_db g \<and> gw_calls g' = gw_calls g")
  case False
  have get: "gw_getRun env i g = (Inr (map_option rowToDocument (find_run i (pg_db (gw_db g)))), g)" for i
    using pgs.get_law [OF assms(2,3), of i] assms(1) by (simp add: gw_getRun_def)
  have bind_get: "andThen (gw_getRun env i) k g = k (map_option rowToDocument (find_run i (pg_db (gw_db g)))) g" for i
      and k :: "run_doc option \<Rightarrow> (pg gateway, js) eff"
    by (simp add: andThen_def get)
  obtain c cs m p row where i: "runId = JStr (c # cs)" and m: "normalizeMethod method = Inr m" and p: "normalizePath path = Inr p"
    and row: "find_run (c # cs) (pg_db (gw_db g)) = Some row" and st: "jr_state row = RUNNING"
    and tk: "\<not> (truthy_str (jr_dispatch_id row) \<and> dispatchId \<noteq> JStr (the (jr_dispatch_id row)))"
    and fwd: "andThen (gw_now env) (\<lambda>startedAt.
        andThen (gw_emitAuditEvent env ''runtime.iga.request.started'' ''started'' (c # cs) (rowToDocument row) prin startedAt None
          (JObj [(''method'', JStr m), (''path'', JStr p)])) (\<lambda>_.
        proxy_forward env (c # cs) (rowToDocument row) prin m p body)) g = (r, g')"
    using False assms(4)
    by (auto simp: proxy_request_def bind_get rowToDocument_def split: js.splits list.splits sum.splits option.splits if_splits)
  have "sends 2 (call_for env m p body) (andThen (gw_now env) (\<lambda>startedAt.
        andThen (gw_emitAuditEvent env ''runtime.iga.request.started'' ''started'' (c # cs) (rowToDocument row) prin startedAt None
          (JObj [(''method'', JStr m), (''path'', JStr p)])) (\<lambda>_.
        proxy_forward env (c # cs) (rowToDocument row) prin m p body)))"
    by (intro sends_andThen0 sends_local sends_forward)
  then have "adds 2 (call_for env m p body) g g'" using fwd unfolding sends_def by (metis snd_conv)
  moreover have "m \<in> set ALLOWED_METHODS" using m by (auto simp: normalizeMethod_def Let_def split: if_splits)
  moreover have "startsWith p ''/'' \<and> \<not> startsWith p ''//''"
    using p by (auto simp: normalizePath_def Let_def split: js.splits list.splits if_splits)
  moreover have "case jr_dispatch_id row of None \<Rightarrow> True | Some d \<Rightarrow> d = [] \<or> dispatchId = JStr d"
    using tk by (auto split: option.split)
  ultimately show ?thesis unfolding adds_def using i row st by blast
qed simp

theorem proxy_only_running_attempts_witness:
  "gw_calls (snd (proxy_request sample_gateway_env (JStr ''a'') (JStr ''stale'') (JStr ''get'') (JStr ''/x'') JNull JNull sample_gateway)) = []"
proof -
  obtain r g' where p: "proxy_request sample_gateway_env (JStr ''a'') (JStr ''stale'') (JStr ''get'') (JStr ''/x'') JNull JNull sample_gateway = (r, g')"
    by fastforce
  have s: "ge_store sample_gateway_env = RunStore" "keys_ok (pg_db (gw_db sample_gateway))" "pg_faults (gw_db sample_gateway) = []"
    "find_run ''a'' (pg_db (gw_db sample_gateway)) = Some (blank_run ''a'' 2 RUNNING (Some ''new''))" "gw_calls sample_gateway = []"
    using running_pg_ok by (simp_all add: sample_gateway_env_def sample_gateway_def)
  from proxy_only_running_attempts [OF s(1-3) p] s(4,5) p show ?thesis by (auto simp: blank_run_def)
qed

end
