(* ===== verification/Instance_Store.thy ===== *)
theory Instance_Store
  imports Local_Run_Store
begin

text \<open>
  \<open>InstanceStore\<close> of \<open>src/src/stores/instanceStore.js\<close> and \<open>LocalInstanceStore\<close> of
  \<open>src/src/backends/local/localInstanceStore.js\<close> over the \<open>job_instances\<close> table. Both interpret the
  locale \<open>instance_store_laws\<close>, the contract the instance and definition services are written
  against.
\<close>

section \<open>The Postgres store\<close>

text \<open>
  \<open>INSERT \<dots> ON CONFLICT (instance_id) DO UPDATE SET \<dots> WHERE job_instances.state = 'DELETED'\<close>:
  the affected row count and the new table.
\<close>

definition upsert_instance :: "inst_row \<Rightarrow> db \<Rightarrow> nat \<times> db" where
  "upsert_instance row d =
     (case find_instance (ji_instance_id row) d of
        None \<Rightarrow> (1, d\<lparr>job_instances := job_instances d @ [row]\<rparr>)
      | Some old \<Rightarrow>
          if ji_state old = DELETED
          then (1, d\<lparr>job_instances := map (\<lambda>r. if ji_instance_id r = ji_instance_id row then row else r) (job_instances d)\<rparr>)
          else (0, d))"

definition instanceExists :: js_error where
  "instanceExists = (newError ''instance already exists'')\<lparr>e_statusCode := JInt 409\<rparr>"

definition instanceNotFound :: js_error where
  "instanceNotFound = (newError ''instance not found'')\<lparr>e_statusCode := JInt 404\<rparr>"

definition createInstance :: "inst_doc \<Rightarrow> (pg, inst_doc) eff" where
  "createInstance document =
     andThen (exec (upsert_instance (inst_documentToRow document)))
       (\<lambda>rowCount. if rowCount = 0 then throw instanceExists else ret document)"

definition getInstance :: "string \<Rightarrow> (pg, inst_doc option) eff" where
  "getInstance instanceId = exec (\<lambda>d. (map_option inst_rowToDocument (find_instance instanceId d), d))"

text \<open>Every column but the key is assigned from the document.\<close>

definition updateInstance :: "string \<Rightarrow> inst_doc \<Rightarrow> (pg, inst_doc) eff" where
  "updateInstance instanceId doc =
     andThen (exec (update_instances (\<lambda>r. ji_instance_id r = instanceId)
                (\<lambda>r. (inst_documentToRow doc)\<lparr>ji_instance_id := ji_instance_id r\<rparr>)))
       (\<lambda>rows. case rows of row # _ \<Rightarrow> ret (inst_rowToDocument row) | [] \<Rightarrow> throw instanceNotFound)"

definition listInstancesForDefinition :: "string \<Rightarrow> (pg, inst_doc list) eff" where
  "listInstancesForDefinition definitionId =
     exec (\<lambda>d. (map inst_rowToDocument (sort_key (\<lambda>r. - int (ji_updated_at r))
                  (filter (\<lambda>r. ji_definition_id r = definitionId) (job_instances d))), d))"

text \<open>\<open>enabled AND state = 'ACTIVE' AND next_fire_at <= now\<close>: a NULL \<open>next_fire_at\<close> is never due.\<close>

definition due :: "instant \<Rightarrow> inst_row \<Rightarrow> bool" where
  "due now r \<longleftrightarrow> ji_enabled r \<and> ji_state r = ACTIVE \<and>
     (case ji_next_fire_at r of None \<Rightarrow> False | Some t \<Rightarrow> t \<le> now)"

definition due_rows :: "(string \<Rightarrow> bool) \<Rightarrow> instant \<Rightarrow> nat \<Rightarrow> db \<Rightarrow> inst_row list" where
  "due_rows locked now batchSize d =
     take batchSize (sort_key (\<lambda>r. the (ji_next_fire_at r))
       (filter (\<lambda>r. due now r \<and> \<not> locked (ji_instance_id r)) (job_instances d)))"

definition claimDueInstances ::
  "(string \<Rightarrow> bool) \<Rightarrow> instant \<Rightarrow> nat \<Rightarrow> bool \<Rightarrow> (pg, inst_doc list) eff" where
  "claimDueInstances locked now batchSize forUpdate =
     exec (\<lambda>d. (map inst_rowToDocument
                  (due_rows (if forUpdate then locked else (\<lambda>_. False)) now batchSize d), d))"

definition advance_set :: "instant \<Rightarrow> instant \<Rightarrow> instant \<Rightarrow> inst_row \<Rightarrow> inst_row" where
  "advance_set lastFireAt nextFireAt now r =
     r\<lparr>ji_last_fire_at := Some lastFireAt, ji_next_fire_at := Some nextFireAt, ji_updated_at := now\<rparr>"

definition advanceInstance :: "string \<Rightarrow> instant \<Rightarrow> instant \<Rightarrow> instant \<Rightarrow> (pg, unit) eff" where
  "advanceInstance instanceId lastFireAt nextFireAt now =
     andThen (exec (update_instances (\<lambda>r. ji_instance_id r = instanceId)
                (advance_set lastFireAt nextFireAt now))) (\<lambda>_. ret ())"

section \<open>The SQLite store\<close>

text \<open>
  \<open>toRow\<close> and \<open>fromRow\<close>: JSON columns hold their \<open>JSON.stringify\<close> text and are parsed on reading;
  \<open>enabled\<close> is stored as 0 or 1 and read back with \<open>=== 1\<close>.
\<close>

definition local_inst_toRow :: "inst_doc \<Rightarrow> inst_row" where
  "local_inst_toRow doc =
    \<lparr>ji_instance_id = in_instanceId doc, ji_tenant_id = in_tenantId doc,
     ji_definition_id = in_definitionId doc, ji_definition_version = in_definitionVersion doc,
     ji_definition_parameter_schema = jsonb (coalesce (in_definitionParameterSchema doc) (JArr [])),
     ji_enabled = ((if in_enabled doc then 1 else 0 :: int) = 1), ji_state = in_state doc,
     ji_schedule = in_schedule doc, ji_next_fire_at = in_nextFireAt doc,
     ji_last_fire_at = in_lastFireAt doc, ji_parameters = jsonb (coalesce (in_parameters doc) (JObj [])),
     ji_created_at = in_createdAt doc, ji_updated_at = in_updatedAt doc\<rparr>"

definition local_inst_fromRow :: "inst_row \<Rightarrow> inst_doc" where
  "local_inst_fromRow row =
    \<lparr>in_instanceId = ji_instance_id row, in_tenantId = ji_tenant_id row,
     in_definitionId = ji_definition_id row, in_definitionVersion = ji_definition_version row,
     in_definitionParameterSchema = ji_definition_parameter_schema row, in_enabled = ji_enabled row,
     in_state = ji_state row, in_schedule = ji_schedule row, in_nextFireAt = ji_next_fire_at row,
     in_lastFireAt = ji_last_fire_at row, in_parameters = ji_parameters row,
     in_createdAt = ji_created_at row, in_updatedAt = ji_updated_at row\<rparr>"

definition local_createInstance :: "inst_doc \<Rightarrow> (sqlite, inst_doc) eff" where
  "local_createInstance document =
     andThen (lite (upsert_instance (local_inst_toRow document)))
       (\<lambda>changes. if changes = 0 then throw instanceExists else ret document)"

definition local_getInstance :: "string \<Rightarrow> (sqlite, inst_doc option) eff" where
  "local_getInstance instanceId = lite (\<lambda>d. (map_option local_inst_fromRow (find_instance instanceId d), d))"

definition local_updateInstance :: "string \<Rightarrow> inst_doc \<Rightarrow> (sqlite, inst_doc) eff" where
  "local_updateInstance instanceId doc =
     andThen (lite (update_instances (\<lambda>r. ji_instance_id r = instanceId)
                (\<lambda>r. (local_inst_toRow doc)\<lparr>ji_instance_id := ji_instance_id r\<rparr>)))
       (\<lambda>rows. if rows = [] then throw instanceNotFound
               else andThen (lite (\<lambda>d. (find_instance instanceId d, d)))
                      (\<lambda>updated. case updated of Some row \<Rightarrow> ret (local_inst_fromRow row)
                                 | None \<Rightarrow> throw instanceNotFound))"

definition local_listInstancesForDefinition :: "string \<Rightarrow> (sqlite, inst_doc list) eff" where
  "local_listInstancesForDefinition definitionId =
     lite (\<lambda>d. (map local_inst_fromRow (sort_key (\<lambda>r. - int (ji_updated_at r))
                  (filter (\<lambda>r. ji_definition_id r = definitionId) (job_instances d))), d))"

definition local_claimDueInstances :: "instant \<Rightarrow> nat \<Rightarrow> (sqlite, inst_doc list) eff" where
  "local_claimDueInstances now batchSize =
     lite (\<lambda>d. (map local_inst_fromRow (due_rows (\<lambda>_. False) now batchSize d), d))"

definition local_advanceInstance :: "string \<Rightarrow> instant \<Rightarrow> instant \<Rightarrow> instant \<Rightarrow> (sqlite, unit) eff" where
  "local_advanceInstance instanceId lastFireAt nextFireAt now =
     andThen (lite (update_instances (\<lambda>r. ji_instance_id r = instanceId)
                (advance_set lastFireAt nextFireAt now))) (\<lambda>_. ret ())"

section \<open>The interface of an instance store\<close>

record 'db instance_store =
  is_createInstance :: "inst_doc \<Rightarrow> ('db, inst_doc) eff"
  is_getInstance :: "string \<Rightarrow> ('db, inst_doc option) eff"
  is_updateInstance :: "string \<Rightarrow> inst_doc \<Rightarrow> ('db, inst_doc) eff"
  is_listInstancesForDefinition :: "string \<Rightarrow> ('db, inst_doc list) eff"

definition InstanceStore :: "pg instance_store" where
  "InstanceStore = \<lparr>is_createInstance = createInstance, is_getInstance = getInstance,
     is_updateInstance = updateInstance, is_listInstancesForDefinition = listInstancesForDefinition\<rparr>"

definition LocalInstanceStore :: "sqlite instance_store" where
  "LocalInstanceStore = \<lparr>is_createInstance = local_createInstance, is_getInstance = local_getInstance,
     is_updateInstance = local_updateInstance,
     is_listInstancesForDefinition = local_listInstancesForDefinition\<rparr>"

text \<open>A live instance blocks its identifier, a deleted one frees it; updates keep the identifier.\<close>

locale instance_store_laws =
  fixes S :: "'db instance_store"
    and view :: "'db \<Rightarrow> string \<Rightarrow> inst_row option"
    and up :: "'db \<Rightarrow> bool"
    and inv :: "'db \<Rightarrow> bool"
  assumes view_key: "inv db \<Longrightarrow> view db i = Some r \<Longrightarrow> ji_instance_id r = i"
    and get_law: "inv db \<Longrightarrow> up db \<Longrightarrow>
      is_getInstance S i db = (Inr (map_option inst_rowToDocument (view db i)), db)"
    and create_free_law: "inv db \<Longrightarrow> up db \<Longrightarrow>
      (\<And>r. view db (in_instanceId doc) = Some r \<Longrightarrow> ji_state r = DELETED) \<Longrightarrow>
      \<exists>db'. is_createInstance S doc db = (Inr doc, db') \<and> inv db' \<and> up db' \<and>
            view db' = (view db)(in_instanceId doc \<mapsto> inst_documentToRow doc)"
    and create_live_law: "inv db \<Longrightarrow> up db \<Longrightarrow> view db (in_instanceId doc) = Some r \<Longrightarrow>
      ji_state r \<noteq> DELETED \<Longrightarrow> is_createInstance S doc db = (Inl instanceExists, db)"
    and update_law: "inv db \<Longrightarrow> up db \<Longrightarrow> view db i = Some r \<Longrightarrow>
      \<exists>db'. is_updateInstance S i doc db =
              (Inr (inst_rowToDocument ((inst_documentToRow doc)\<lparr>ji_instance_id := i\<rparr>)), db') \<and>
            inv db' \<and> up db' \<and> view db' = (view db)(i \<mapsto> (inst_documentToRow doc)\<lparr>ji_instance_id := i\<rparr>)"
    and update_missing_law: "inv db \<Longrightarrow> up db \<Longrightarrow> view db i = None \<Longrightarrow>
      is_updateInstance S i doc db = (Inl instanceNotFound, db)"
    and list_law: "inv db \<Longrightarrow> up db \<Longrightarrow>
      \<exists>xs. is_listInstancesForDefinition S di db = (Inr xs, db) \<and>
           set xs = inst_rowToDocument ` {r. (\<exists>i. view db i = Some r) \<and> ji_definition_id r = di}"

section \<open>Lemmas\<close>

lemma find_instance_key: "find_instance i d = Some r \<Longrightarrow> ji_instance_id r = i"
  unfolding find_instance_def by (drule find_some_in) simp

lemma find_instance_in: "find_instance i d = Some r \<Longrightarrow> r \<in> set (job_instances d)"
  unfolding find_instance_def by (drule find_some_in) simp

lemma in_find_instance: "keys_ok d \<Longrightarrow> r \<in> set (job_instances d) \<Longrightarrow> find_instance (ji_instance_id r) d = Some r"
  by (simp add: find_instance_def keys_ok_def find_distinct)

lemma update_instances_find:
  assumes "\<And>r. ji_instance_id (f r) = ji_instance_id r"
  shows "find_instance i (snd (update_instances P f d)) =
    map_option (\<lambda>r. if P r then f r else r) (find_instance i d)"
  using assms by (simp add: find_instance_def update_instances_def find_map_key)

lemma update_instances_keys:
  assumes "\<And>r. ji_instance_id (f r) = ji_instance_id r" "keys_ok d"
  shows "keys_ok (snd (update_instances P f d))"
proof -
  have "map ji_instance_id (map (\<lambda>r. if P r then f r else r) (job_instances d)) =
      map ji_instance_id (job_instances d)"
    using assms(1) by auto
  with assms(2) show ?thesis by (simp add: keys_ok_def update_instances_def del: map_map)
qed

lemma update_instances_runs [simp]: "job_runs (snd (update_instances P f d)) = job_runs d"
  by (simp add: update_instances_def)

lemma find_run_cong: "job_runs d = job_runs e \<Longrightarrow> find_run i d = find_run i e"
  by (simp add: find_run_def)

lemma find_instance_cong: "job_instances d = job_instances e \<Longrightarrow> find_instance i d = find_instance i e"
  by (simp add: find_instance_def)

text \<open>An update of one instance by its key.\<close>

lemma update_instance_hit:
  assumes "keys_ok d" "find_instance i d = Some r" "\<And>x. ji_instance_id (f x) = ji_instance_id x"
  shows "fst (update_instances (\<lambda>x. ji_instance_id x = i) f d) = [f r]"
    and "(\<lambda>j. find_instance j (snd (update_instances (\<lambda>x. ji_instance_id x = i) f d))) =
         (\<lambda>j. find_instance j d)(i \<mapsto> f r)"
proof -
  show "fst (update_instances (\<lambda>x. ji_instance_id x = i) f d) = [f r]"
    using filter_key_find [of ji_instance_id "job_instances d" i "\<lambda>_. True"] assms(1,2)
    by (simp add: update_instances_def keys_ok_def find_instance_def)
  have "find_instance j (snd (update_instances (\<lambda>x. ji_instance_id x = i) f d)) =
     ((\<lambda>j. find_instance j d)(i \<mapsto> f r)) j" for j
  proof (cases "j = i")
    case True
    then show ?thesis
      using assms(2) find_instance_key [OF assms(2)] by (simp add: update_instances_find [OF assms(3)])
  next
    case False
    then have "map_option (\<lambda>x. if ji_instance_id x = i then f x else x) (find_instance j d) = find_instance j d"
      by (cases "find_instance j d") (auto dest: find_instance_key)
    with False show ?thesis by (simp add: update_instances_find [OF assms(3)])
  qed
  then show "(\<lambda>j. find_instance j (snd (update_instances (\<lambda>x. ji_instance_id x = i) f d))) =
         (\<lambda>j. find_instance j d)(i \<mapsto> f r)" by blast
qed

lemma update_instance_miss:
  assumes "find_instance i d = None"
  shows "update_instances (\<lambda>x. ji_instance_id x = i) f d = ([], d)"
proof -
  have "ji_instance_id x \<noteq> i" if "x \<in> set (job_instances d)" for x
    using assms that by (auto simp: find_instance_def find_none_iff)
  then show ?thesis by (auto simp: update_instances_def filter_empty_conv map_idI)
qed

lemma upsert_free:
  assumes "keys_ok d" "\<And>r. find_instance (ji_instance_id row) d = Some r \<Longrightarrow> ji_state r = DELETED"
  shows "fst (upsert_instance row d) = 1" "keys_ok (snd (upsert_instance row d))"
    "(\<lambda>j. find_instance j (snd (upsert_instance row d))) = (\<lambda>j. find_instance j d)(ji_instance_id row \<mapsto> row)"
proof -
  let ?i = "ji_instance_id row"
  let ?all = "fst (upsert_instance row d) = 1 \<and> keys_ok (snd (upsert_instance row d)) \<and>
    (\<lambda>j. find_instance j (snd (upsert_instance row d))) = (\<lambda>j. find_instance j d)(?i \<mapsto> row)"
  have ?all
  proof (cases "find_instance ?i d")
    case None
    then have new: "?i \<notin> ji_instance_id ` set (job_instances d)"
      by (simp add: find_instance_def find_none_iff)
    have "find_instance j (d\<lparr>job_instances := job_instances d @ [row]\<rparr>) =
        ((\<lambda>j. find_instance j d)(?i \<mapsto> row)) j" for j
      using None by (auto simp: find_instance_def find_snoc split: option.splits)
    with None new assms(1) show ?thesis by (auto simp: upsert_instance_def keys_ok_def)
  next
    case (Some r)
    define g where "g = (\<lambda>x. if ji_instance_id x = ?i then row else x)"
    have g: "upsert_instance row d = (1, d\<lparr>job_instances := map g (job_instances d)\<rparr>)"
      using Some assms(2) by (simp add: upsert_instance_def g_def)
    have k: "ji_instance_id (g x) = ji_instance_id x" for x by (simp add: g_def)
    have fm: "find_instance j (d\<lparr>job_instances := map g (job_instances d)\<rparr>) = map_option g (find_instance j d)" for j
      using find_map_key [of ji_instance_id g, OF k] by (simp add: find_instance_def)
    have "find_instance j (snd (upsert_instance row d)) = ((\<lambda>j. find_instance j d)(?i \<mapsto> row)) j" for j
    proof (cases "j = ?i")
      case False
      then have "map_option g (find_instance j d) = find_instance j d"
        by (cases "find_instance j d") (auto simp: g_def dest: find_instance_key)
      with False fm show ?thesis by (simp add: g)
    next
      case True
      with Some fm find_instance_key [OF Some] show ?thesis by (simp add: g, simp add: g_def)
    qed
    moreover have "keys_ok (snd (upsert_instance row d))"
      using assms(1) k by (simp add: g keys_ok_def comp_def)
    ultimately show ?thesis using g by auto
  qed
  then show "fst (upsert_instance row d) = 1" "keys_ok (snd (upsert_instance row d))"
    "(\<lambda>j. find_instance j (snd (upsert_instance row d))) = (\<lambda>j. find_instance j d)(?i \<mapsto> row)"
    by blast+
qed

lemma upsert_live:
  "find_instance (ji_instance_id row) d = Some r \<Longrightarrow> ji_state r \<noteq> DELETED \<Longrightarrow> upsert_instance row d = (0, d)"
  by (simp add: upsert_instance_def)

lemma listed_instances:
  assumes "keys_ok d"
  shows "set (map inst_rowToDocument (sort_key (\<lambda>r. - int (ji_updated_at r))
            (filter (\<lambda>r. ji_definition_id r = di) (job_instances d)))) =
         inst_rowToDocument ` {r. (\<exists>i. find_instance i d = Some r) \<and> ji_definition_id r = di}"
proof -
  have "{r. (\<exists>i. find_instance i d = Some r) \<and> ji_definition_id r = di} =
      set (filter (\<lambda>r. ji_definition_id r = di) (job_instances d))"
    using in_find_instance [OF assms] by (auto dest: find_instance_in)
  then show ?thesis by simp
qed

lemma local_inst_rows [simp]: "local_inst_toRow = inst_documentToRow" "local_inst_fromRow = inst_rowToDocument"
  by (auto simp: local_inst_toRow_def inst_documentToRow_def local_inst_fromRow_def inst_rowToDocument_def)

lemma inst_documentToRow_key [simp]: "ji_instance_id (inst_documentToRow doc) = in_instanceId doc"
  by (simp add: inst_documentToRow_def)

section \<open>Both stores keep the laws\<close>

abbreviation pg_insts :: "pg \<Rightarrow> string \<Rightarrow> inst_row option" where
  "pg_insts s \<equiv> (\<lambda>i. find_instance i (pg_db s))"

abbreviation lite_insts :: "sqlite \<Rightarrow> string \<Rightarrow> inst_row option" where
  "lite_insts s \<equiv> (\<lambda>i. find_instance i (sl_db s))"

abbreviation lite_keys :: "sqlite \<Rightarrow> bool" where
  "lite_keys s \<equiv> keys_ok (sl_db s)"

lemmas InstanceStore_ops = InstanceStore_def createInstance_def getInstance_def updateInstance_def
  listInstancesForDefinition_def andThen_def exec_ok

lemmas LocalInstanceStore_ops = LocalInstanceStore_def local_createInstance_def local_getInstance_def
  local_updateInstance_def local_listInstancesForDefinition_def andThen_def lite_def

interpretation pgi: instance_store_laws InstanceStore pg_insts pg_up pg_inv
proof (unfold_locales, goal_cases)
  case (1 db i r) then show ?case by (simp add: find_instance_key)
next
  case (2 db i) then show ?case by (simp add: InstanceStore_ops)
next
  case (3 db doc)
  then show ?case using upsert_free [of "pg_db db" "inst_documentToRow doc"] by (simp add: InstanceStore_ops)
next
  case (4 db doc r)
  then show ?case using upsert_live [of "inst_documentToRow doc" "pg_db db" r] by (simp add: InstanceStore_ops)
next
  case (5 db i r doc)
  let ?f = "\<lambda>r. (inst_documentToRow doc)\<lparr>ji_instance_id := ji_instance_id r\<rparr>"
  have k: "ji_instance_id (?f x) = ji_instance_id x" for x by simp
  have "?f r = (inst_documentToRow doc)\<lparr>ji_instance_id := i\<rparr>" using find_instance_key [OF 5(3)] by simp
  with 5 update_instance_hit [OF 5(1,3) k] update_instances_keys [OF k 5(1), where P = "\<lambda>x. ji_instance_id x = i"]
  show ?case by (simp add: InstanceStore_ops)
next
  case (6 db i doc)
  then show ?case using update_instance_miss [of i "pg_db db"] by (simp add: InstanceStore_ops)
next
  case (7 db di) then show ?case using listed_instances [of "pg_db db" di] by (simp add: InstanceStore_ops)
qed

interpretation lis: instance_store_laws LocalInstanceStore lite_insts "\<lambda>_. True" lite_keys
proof (unfold_locales, goal_cases)
  case (1 db i r) then show ?case by (simp add: find_instance_key)
next
  case (2 db i) then show ?case by (simp add: LocalInstanceStore_ops)
next
  case (3 db doc)
  then show ?case using upsert_free [of "sl_db db" "inst_documentToRow doc"] by (simp add: LocalInstanceStore_ops)
next
  case (4 db doc r)
  then show ?case using upsert_live [of "inst_documentToRow doc" "sl_db db" r] by (simp add: LocalInstanceStore_ops)
next
  case (5 db i r doc)
  let ?f = "\<lambda>r. (inst_documentToRow doc)\<lparr>ji_instance_id := ji_instance_id r\<rparr>"
  have k: "ji_instance_id (?f x) = ji_instance_id x" for x by simp
  have "?f r = (inst_documentToRow doc)\<lparr>ji_instance_id := i\<rparr>" using find_instance_key [OF 5(3)] by simp
  with 5 update_instance_hit [OF 5(1,3) k] update_instances_keys [OF k 5(1), where P = "\<lambda>x. ji_instance_id x = i"]
    fun_cong [OF update_instance_hit(2) [OF 5(1,3) k], of i]
  show ?case by (simp add: LocalInstanceStore_ops)
next
  case (6 db i doc)
  then show ?case using update_instance_miss [of i "sl_db db"] by (simp add: LocalInstanceStore_ops)
next
  case (7 db di) then show ?case using listed_instances [of "sl_db db" di] by (simp add: LocalInstanceStore_ops)
qed

end
