(* ===== verification/Scheduler_Tick.thy ===== *)
theory Scheduler_Tick
  imports Instance_Store
begin

text \<open>
  \<open>SchedulerTickService\<close> of \<open>src/src/services/schedulerTickService.js\<close>: one transaction that claims
  the due instances and, under a savepoint per instance, creates the run of the fire time and
  moves the instance to its next fire time.
\<close>

section \<open>The parts of a tick\<close>

text \<open>\<open>getCronExpression\<close>: an absent member is the empty string.\<close>

definition getCronExpression :: "schedule \<Rightarrow> string" where
  "getCronExpression sc = str_or (sc_expression sc) (sc_cron sc)"

definition tick_computeNextFireAt :: "cron \<Rightarrow> string \<Rightarrow> string \<Rightarrow> instant \<Rightarrow> js_error + instant" where
  "tick_computeNextFireAt cronNext expression timezone scheduledFireTime =
     (if expression = [] then Inl (newError ''instance schedule expression is required'')
      else case cronNext expression (str_or timezone ''UTC'') scheduledFireTime of
             Inl m \<Rightarrow> Inl (newError m)
           | Inr next \<Rightarrow> Inr next)"

definition buildRunDocument :: "string \<Rightarrow> inst_doc \<Rightarrow> instant \<Rightarrow> instant \<Rightarrow> js \<Rightarrow> run_doc" where
  "buildRunDocument runId inst scheduledFireTime now executionMetadata =
    \<lparr>rn_runId = runId, rn_tenantId = in_tenantId inst, rn_instanceId = in_instanceId inst,
     rn_definitionId = in_definitionId inst, rn_definitionVersion = Some (in_definitionVersion inst),
     rn_scheduledFireTime = scheduledFireTime, rn_state = QUEUED, rn_attempt = Some 1,
     rn_dispatchId = None, rn_params = js_or (in_parameters inst) (JObj []),
     rn_status = status_of ''queued'' ''Run queued by scheduler tick'', rn_result = JNull,
     rn_error = JNull, rn_executionMetadata = executionMetadata, rn_runtimeExecution = JUndefined,
     rn_parentRunId = None, rn_redriveOfRunId = None, rn_cancelRequestedAt = None,
     rn_cancelledAt = None, rn_cancelledBy = None, rn_cancelReason = None, rn_createdAt = now,
     rn_startedAt = None, rn_endedAt = None, rn_heartbeatAt = None, rn_updatedAt = now\<rparr>"

text \<open>
  \<open>buildExecutionMetadataSnapshot\<close>. The definition is the document \<open>getDefinition\<close> returned,
  \<open>null\<close> when there is none; reading it may throw.
\<close>

definition buildExecutionMetadataSnapshot :: "(string \<Rightarrow> js_error + js) \<Rightarrow> string \<Rightarrow> js_error + js" where
  "buildExecutionMetadataSnapshot getDefinition definitionId =
     (case getDefinition definitionId of
        Inl e \<Rightarrow> Inl e
      | Inr d \<Rightarrow> Inr (
          if \<not> truthy d
          then JObj [(''definition'', JNull), (''definitionEnabled'', JBool False),
                     (''definitionState'', JNull), (''artifact'', JNull)]
          else JObj
            [(''definition'', JObj (map (\<lambda>k. (k, js_prop d k))
                [''definitionId'', ''version'', ''runtime'', ''runtimeVersion'', ''wrapperVersion'',
                 ''entrypoint'', ''timeoutSeconds''])),
             (''definitionEnabled'', JBool (js_prop d ''enabled'' = JBool True)),
             (''definitionState'', coalesce (js_prop d ''state'') JNull),
             (''artifact'',
                let z = js_prop d ''jobZip''; g = js_prop z ''generation'' in
                if truthy z
                then JObj [(''uri'', js_prop z ''uri''), (''sha256'', js_prop z ''sha256''),
                           (''generation'', if nullish g then JNull else JStr (js_String g))]
                else JNull)]))"

text \<open>
  What the loop body computes for an instance before its first write: the next fire time and the
  run document. \<open>getDef\<close> is \<open>None\<close> when the service has no \<open>definitionService\<close>.
\<close>

definition tick_prepare ::
  "cron \<Rightarrow> (string \<Rightarrow> js_error + js) option \<Rightarrow> instant \<Rightarrow> inst_doc \<Rightarrow> js_error + instant \<times> run_doc" where
  "tick_prepare cronNext getDef now inst =
     (let sc = in_schedule inst; fire = in_nextFireAt inst;
          fireTime = (case fire of None \<Rightarrow> 0 | Some t \<Rightarrow> t) in
      case tick_computeNextFireAt cronNext (getCronExpression sc) (sc_timezone sc) fireTime of
        Inl e \<Rightarrow> Inl e
      | Inr nextFireAt \<Rightarrow>
          case buildRunId (in_tenantId inst) (in_instanceId inst)
                 (case fire of None \<Rightarrow> [] | Some t \<Rightarrow> toISOString t) of
            Inl e \<Rightarrow> Inl e
          | Inr runId \<Rightarrow>
              case (case getDef of None \<Rightarrow> Inr JUndefined
                    | Some g \<Rightarrow> buildExecutionMetadataSnapshot g (in_definitionId inst)) of
                Inl e \<Rightarrow> Inl e
              | Inr meta \<Rightarrow> Inr (nextFireAt, buildRunDocument runId inst fireTime now meta))"

section \<open>The tick\<close>

record tick_summary =
  ts_checked :: nat
  ts_createdRuns :: nat
  ts_duplicates :: nat
  ts_enqueued :: nat
  ts_advanced :: nat
  ts_failed :: nat
  ts_dryRun :: bool

definition emptySummary :: "bool \<Rightarrow> tick_summary" where
  "emptySummary dryRun = \<lparr>ts_checked = 0, ts_createdRuns = 0, ts_duplicates = 0, ts_enqueued = 0,
     ts_advanced = 0, ts_failed = 0, ts_dryRun = dryRun\<rparr>"

text \<open>The loop works on the database and on the counters of \<open>summary\<close>, which no rollback undoes.\<close>

definition on_db :: "(pg, 'a) eff \<Rightarrow> (pg \<times> tick_summary, 'a) eff" where
  "on_db m = (\<lambda>(s, c). let (r, s') = m s in (r, (s', c)))"

definition tally :: "(tick_summary \<Rightarrow> tick_summary) \<Rightarrow> (pg \<times> tick_summary, unit) eff" where
  "tally f = (\<lambda>(s, c). (Inr (), (s, f c)))"

text \<open>\<open>ROLLBACK TO SAVEPOINT\<close> restores the tables the savepoint saw.\<close>

definition rollback_to :: "db \<Rightarrow> (pg, unit) eff" where
  "rollback_to saved = exec (\<lambda>_. ((), saved))"

definition tick_body ::
  "cron \<Rightarrow> (string \<Rightarrow> js_error + js) option \<Rightarrow> instant \<Rightarrow> inst_doc \<Rightarrow> (pg \<times> tick_summary, unit) eff" where
  "tick_body cronNext getDef now inst =
     (case tick_prepare cronNext getDef now inst of
        Inl e \<Rightarrow> throw e
      | Inr (nextFireAt, runDoc) \<Rightarrow>
          andThen (on_db (createRunTx runDoc)) (\<lambda>created.
          andThen (tally (\<lambda>c. if created then c\<lparr>ts_createdRuns := Suc (ts_createdRuns c)\<rparr>
                              else c\<lparr>ts_duplicates := Suc (ts_duplicates c)\<rparr>)) (\<lambda>_.
          andThen (on_db (advanceInstance (in_instanceId inst) (rn_scheduledFireTime runDoc) nextFireAt now)) (\<lambda>_.
          andThen (tally (\<lambda>c. c\<lparr>ts_advanced := Suc (ts_advanced c)\<rparr>)) (\<lambda>_.
          on_db exec_control)))))"

definition tick_instance ::
  "cron \<Rightarrow> (string \<Rightarrow> js_error + js) option \<Rightarrow> instant \<Rightarrow> inst_doc \<Rightarrow> (pg \<times> tick_summary, unit) eff" where
  "tick_instance cronNext getDef now inst =
     andThen (on_db exec_control) (\<lambda>_ s.
       tryCatch (tick_body cronNext getDef now inst)
         (\<lambda>_. andThen (on_db (rollback_to (pg_db (fst s))))
                (\<lambda>_. tally (\<lambda>c. c\<lparr>ts_failed := Suc (ts_failed c)\<rparr>))) s)"

definition tick_loop ::
  "cron \<Rightarrow> (string \<Rightarrow> js_error + js) option \<Rightarrow> instant \<Rightarrow> inst_doc list \<Rightarrow> (pg, tick_summary) eff" where
  "tick_loop cronNext getDef now instances = (\<lambda>s.
     case forEach (tick_instance cronNext getDef now) instances
            (s, (emptySummary False)\<lparr>ts_checked := length instances\<rparr>) of
       (Inl e, (s', c)) \<Rightarrow> (Inl e, s')
     | (Inr _, (s', c)) \<Rightarrow> (Inr c, s'))"

text \<open>
  \<open>tick({dryRun, batchSize})\<close>: \<open>pool.connect()\<close> may fail like a statement; \<open>locked\<close> are the rows other
  transactions hold.
\<close>

definition tick ::
  "cron \<Rightarrow> (string \<Rightarrow> js_error + js) option \<Rightarrow> (string \<Rightarrow> bool) \<Rightarrow> instant \<Rightarrow> nat \<Rightarrow> bool \<Rightarrow> (pg, tick_summary) eff" where
  "tick cronNext getDef locked now batchSize dryRun =
     (if dryRun
      then andThen (claimDueInstances locked now batchSize False)
             (\<lambda>instances. ret ((emptySummary True)\<lparr>ts_checked := length instances\<rparr>))
      else andThen exec_control (\<lambda>_. transaction
             (andThen (claimDueInstances locked now batchSize True) (tick_loop cronNext getDef now))))"

section \<open>The tables after a tick\<close>

text \<open>
  The effect on the tables of one instance of the batch, as a function of what \<open>tick_prepare\<close>
  computed for it, and of the whole batch.
\<close>

definition fire_db :: "instant \<Rightarrow> inst_doc \<Rightarrow> js_error + instant \<times> run_doc \<Rightarrow> db \<Rightarrow> db" where
  "fire_db now inst prep d =
     (case prep of
        Inl _ \<Rightarrow> d
      | Inr (nextFireAt, doc) \<Rightarrow>
          snd (update_instances (\<lambda>r. ji_instance_id r = in_instanceId inst)
                 (advance_set (rn_scheduledFireTime doc) nextFireAt now)
                 (snd (insert_run (documentToRow doc) d))))"

definition fire_count :: "js_error + instant \<times> run_doc \<Rightarrow> db \<Rightarrow> tick_summary \<Rightarrow> tick_summary" where
  "fire_count prep d c =
     (case prep of
        Inl _ \<Rightarrow> c\<lparr>ts_failed := Suc (ts_failed c)\<rparr>
      | Inr (_, doc) \<Rightarrow>
          if find_run (rn_runId doc) d = None
          then c\<lparr>ts_createdRuns := Suc (ts_createdRuns c), ts_advanced := Suc (ts_advanced c)\<rparr>
          else c\<lparr>ts_duplicates := Suc (ts_duplicates c), ts_advanced := Suc (ts_advanced c)\<rparr>)"

definition fire_all :: "(inst_doc \<Rightarrow> js_error + instant \<times> run_doc) \<Rightarrow> instant \<Rightarrow> inst_doc list \<Rightarrow> db \<Rightarrow> db" where
  "fire_all prep now insts = fold (\<lambda>inst. fire_db now inst (prep inst)) insts"

lemma advance_set_key [simp]: "ji_instance_id (advance_set l n t r) = ji_instance_id r"
  by (simp add: advance_set_def)

lemma documentToRow_run_id [simp]: "jr_run_id (documentToRow doc) = rn_runId doc"
  by (simp add: documentToRow_def)

lemma insert_run_count: "fst (insert_run row d) = (if find_run (jr_run_id row) d = None then 1 else 0)"
  by (simp add: insert_run_def split: option.splits)

lemma tick_instance_ok:
  assumes "pg_up s"
  shows "tick_instance cronNext getDef now inst (s, c) =
    (Inr (), (s\<lparr>pg_db := fire_db now inst (tick_prepare cronNext getDef now inst) (pg_db s)\<rparr>,
              fire_count (tick_prepare cronNext getDef now inst) (pg_db s) c))"
proof (cases "tick_prepare cronNext getDef now inst")
  case (Inl e)
  with assms show ?thesis
    by (simp add: tick_instance_def tick_body_def andThen_def tryCatch_def on_db_def tally_def
        exec_control_def exec_ok rollback_to_def fire_db_def fire_count_def)
next
  case (Inr p)
  obtain nx doc where p: "p = (nx, doc)" by (cases p)
  have n: "fst (insert_run (documentToRow doc) d) = Suc 0 \<longleftrightarrow> find_run (rn_runId doc) d = None" for d
    by (simp add: insert_run_count)
  from assms Inr p show ?thesis
    by (simp add: tick_instance_def tick_body_def andThen_def tryCatch_def on_db_def tally_def
        exec_control_def exec_ok createRunTx_def advanceInstance_def fire_db_def fire_count_def n)
qed

lemma tick_each_ok:
  assumes "pg_up s"
  shows "\<exists>c'. forEach (tick_instance cronNext getDef now) insts (s, c) =
    (Inr (), (s\<lparr>pg_db := fire_all (tick_prepare cronNext getDef now) now insts (pg_db s)\<rparr>, c'))"
  using assms
proof (induction insts arbitrary: s c)
  case Nil
  then show ?case by (simp add: fire_all_def)
next
  case (Cons i rest)
  let ?s = "s\<lparr>pg_db := fire_db now i (tick_prepare cronNext getDef now i) (pg_db s)\<rparr>"
  let ?c = "fire_count (tick_prepare cronNext getDef now i) (pg_db s) c"
  have "pg_up ?s" using Cons.prems by simp
  from Cons.IH [OF this, of ?c] show ?case
    by (auto simp: andThen_Inr [where m = "tick_instance _ _ _ _", OF tick_instance_ok [OF Cons.prems]] fire_all_def)
qed

text \<open>Each part of the tables, instance by instance.\<close>

lemma fire_db_keys: "keys_ok d \<Longrightarrow> keys_ok (fire_db now inst prep d)"
  by (auto simp: fire_db_def update_instances_keys insert_run_keys split: sum.splits)

lemma fire_all_keys: "keys_ok d \<Longrightarrow> keys_ok (fire_all prep now insts d)"
  unfolding fire_all_def by (induction insts arbitrary: d) (auto simp: fire_db_keys)

lemma find_hit: "x \<in> set xs \<Longrightarrow> P x \<Longrightarrow> \<exists>y. find P xs = Some y \<and> P y"
  by (induction xs) auto

lemma fire_db_run:
  "find_run j (fire_db now inst prep d) =
     (case find_run j d of
        Some r \<Rightarrow> Some r
      | None \<Rightarrow> (case prep of Inr (nx, doc) \<Rightarrow> if rn_runId doc = j then Some (documentToRow doc) else None
                | Inl _ \<Rightarrow> None))"
proof (cases prep)
  case (Inr p)
  obtain nx doc where p: "p = (nx, doc)" by (cases p)
  have "find_run j (fire_db now inst prep d) = find_run j (snd (insert_run (documentToRow doc) d))"
    unfolding Inr p fire_db_def by (simp, rule find_run_cong, simp)
  with Inr p show ?thesis by (simp add: insert_run_find split: option.splits)
qed (simp add: fire_db_def split: option.splits)

lemma fire_all_run_kept: "find_run j d = Some r \<Longrightarrow> find_run j (fire_all prep now insts d) = Some r"
  unfolding fire_all_def by (induction insts arbitrary: d) (auto simp: fire_db_run)

lemma fire_all_run_new:
  assumes "find_run j d = None"
  shows "find_run j (fire_all prep now insts d) =
    (case find (\<lambda>inst. \<exists>nx doc. prep inst = Inr (nx, doc) \<and> rn_runId doc = j) insts of
       None \<Rightarrow> None
     | Some inst \<Rightarrow> map_option (\<lambda>p. documentToRow (snd p)) (case prep inst of Inr p \<Rightarrow> Some p | Inl _ \<Rightarrow> None))"
  using assms
proof (induction insts arbitrary: d)
  case Nil
  then show ?case by (simp add: fire_all_def)
next
  case (Cons i rest)
  have step: "fire_all prep now (i # rest) d = fire_all prep now rest (fire_db now i (prep i) d)"
    by (simp add: fire_all_def)
  show ?case
  proof (cases "\<exists>nx doc. prep i = Inr (nx, doc) \<and> rn_runId doc = j")
    case True
    then obtain nx doc where p: "prep i = Inr (nx, doc)" "rn_runId doc = j" by blast
    then have "find_run j (fire_db now i (prep i) d) = Some (documentToRow doc)"
      using Cons.prems by (simp add: fire_db_run)
    from fire_all_run_kept [OF this] p show ?thesis by (simp add: step)
  next
    case False
    then have "find_run j (fire_db now i (prep i) d) = None"
      using Cons.prems by (auto simp: fire_db_run split: sum.splits)
    with Cons.IH [OF this] False show ?thesis by (simp add: step) blast
  qed
qed

lemma fire_db_instance:
  "find_instance j (fire_db now inst prep d) =
     (if j = in_instanceId inst
      then (case prep of Inl _ \<Rightarrow> find_instance j d
            | Inr (nx, doc) \<Rightarrow> map_option (advance_set (rn_scheduledFireTime doc) nx now) (find_instance j d))
      else find_instance j d)"
proof (cases prep)
  case (Inr p)
  obtain nx doc where p: "p = (nx, doc)" by (cases p)
  have same: "find_instance k (snd (insert_run (documentToRow doc) d)) = find_instance k d" for k
    by (rule find_instance_cong) simp
  have "map_option (\<lambda>r. if ji_instance_id r = in_instanceId inst
        then advance_set (rn_scheduledFireTime doc) nx now r else r) (find_instance j d) =
      (if j = in_instanceId inst then map_option (advance_set (rn_scheduledFireTime doc) nx now) (find_instance j d)
       else find_instance j d)"
    by (cases "find_instance j d") (auto dest: find_instance_key)
  with Inr p show ?thesis by (simp add: fire_db_def update_instances_find same)
qed (simp add: fire_db_def)

lemma fire_all_instance_other:
  "j \<notin> in_instanceId ` set insts \<Longrightarrow> find_instance j (fire_all prep now insts d) = find_instance j d"
  unfolding fire_all_def by (induction insts arbitrary: d) (auto simp: fire_db_instance)

lemma fire_all_instance:
  assumes "distinct (map in_instanceId insts)" "inst \<in> set insts"
  shows "find_instance (in_instanceId inst) (fire_all prep now insts d) =
    (case prep inst of Inl _ \<Rightarrow> find_instance (in_instanceId inst) d
     | Inr (nx, doc) \<Rightarrow> map_option (advance_set (rn_scheduledFireTime doc) nx now)
                         (find_instance (in_instanceId inst) d))"
  using assms
proof (induction insts arbitrary: d)
  case (Cons i rest)
  have step: "fire_all prep now (i # rest) d = fire_all prep now rest (fire_db now i (prep i) d)"
    by (simp add: fire_all_def)
  show ?case
  proof (cases "inst = i")
    case True
    then have "in_instanceId inst \<notin> in_instanceId ` set rest" using Cons.prems(1) by simp
    then show ?thesis unfolding True step by (simp add: fire_all_instance_other fire_db_instance)
  next
    case False
    with Cons.prems have "inst \<in> set rest" and "in_instanceId i \<notin> in_instanceId ` set rest" by simp_all
    then have "in_instanceId inst \<noteq> in_instanceId i" by (metis imageI)
    then have same: "find_instance (in_instanceId inst) (fire_db now i (prep i) d) = find_instance (in_instanceId inst) d"
      by (simp add: fire_db_instance)
    have "distinct (map in_instanceId rest)" using Cons.prems(1) by simp
    from Cons.IH [OF this \<open>inst \<in> set rest\<close>, of "fire_db now i (prep i) d"] show ?thesis
      unfolding step same .
  qed
qed simp

text \<open>The counters.\<close>

lemma tick_each_counts:
  assumes "pg_up s" "forEach (tick_instance cronNext getDef now) insts (s, c) = (r, (s', c'))"
  shows "ts_checked c' = ts_checked c \<and>
    ts_failed c' = ts_failed c + length (filter (\<lambda>i. isl (tick_prepare cronNext getDef now i)) insts) \<and>
    ts_advanced c' + ts_failed c' = ts_advanced c + ts_failed c + length insts \<and>
    ts_createdRuns c' + ts_duplicates c' + ts_advanced c = ts_createdRuns c + ts_duplicates c + ts_advanced c' \<and>
    length (job_runs (pg_db s')) + ts_createdRuns c = length (job_runs (pg_db s)) + ts_createdRuns c'"
  using assms
proof (induction insts arbitrary: s c)
  case (Cons i rest)
  let ?p = "tick_prepare cronNext getDef now i"
  let ?s = "s\<lparr>pg_db := fire_db now i ?p (pg_db s)\<rparr>"
  let ?c = "fire_count ?p (pg_db s) c"
  have up: "pg_up ?s" using Cons.prems(1) by simp
  have "forEach (tick_instance cronNext getDef now) rest (?s, ?c) = (r, (s', c'))"
    using Cons.prems(2)
    by (simp add: andThen_Inr [where m = "tick_instance _ _ _ _", OF tick_instance_ok [OF Cons.prems(1)]])
  note ih = Cons.IH [OF up this]
  have "length (job_runs (fire_db now i ?p (pg_db s))) + ts_createdRuns c =
      length (job_runs (pg_db s)) + ts_createdRuns ?c"
    by (auto simp: fire_db_def fire_count_def insert_run_def split: sum.splits option.splits)
  moreover have "ts_checked ?c = ts_checked c \<and>
      ts_failed ?c = ts_failed c + (if isl ?p then 1 else 0) \<and>
      ts_advanced ?c = ts_advanced c + (if isl ?p then 0 else 1) \<and>
      ts_createdRuns ?c + ts_duplicates ?c = ts_createdRuns c + ts_duplicates c + (if isl ?p then 0 else 1)"
    by (auto simp: fire_count_def split: sum.splits)
  ultimately show ?case using ih by (auto split: if_splits)
qed simp

lemma due_docs_distinct:
  assumes "keys_ok d"
  shows "distinct (map in_instanceId (map inst_rowToDocument (due_rows locked now n d)))"
proof -
  have "map in_instanceId (map inst_rowToDocument xs) = map ji_instance_id xs" for xs
    by (simp add: inst_rowToDocument_def)
  moreover have "distinct (map ji_instance_id (due_rows locked now n d))"
    using assms unfolding due_rows_def keys_ok_def
    by (metis (no_types, lifting) distinct_map distinct_filter distinct_sort distinct_take
        set_filter set_sort set_take_subset inj_on_subset mem_Collect_eq subsetI)
  ultimately show ?thesis by metis
qed

lemma due_row_in: "r \<in> set (due_rows locked now n d) \<Longrightarrow> r \<in> set (job_instances d) \<and> due now r"
  by (auto simp: due_rows_def dest!: in_set_takeD)

abbreviation due_docs :: "(string \<Rightarrow> bool) \<Rightarrow> instant \<Rightarrow> nat \<Rightarrow> pg \<Rightarrow> inst_doc list" where
  "due_docs locked now n s \<equiv> map inst_rowToDocument (due_rows locked now n (pg_db s))"

lemma tick_run:
  assumes "pg_up s"
  shows "\<exists>c s'. tick cronNext getDef locked now n False s = (Inr c, s') \<and>
    s' = s\<lparr>pg_db := fire_all (tick_prepare cronNext getDef now) now (due_docs locked now n s) (pg_db s)\<rparr> \<and>
    forEach (tick_instance cronNext getDef now) (due_docs locked now n s)
      (s, (emptySummary False)\<lparr>ts_checked := length (due_docs locked now n s)\<rparr>) = (Inr (), (s', c))"
proof -
  let ?docs = "due_docs locked now n s"
  obtain c s' where c: "forEach (tick_instance cronNext getDef now) ?docs
      (s, (emptySummary False)\<lparr>ts_checked := length ?docs\<rparr>) = (Inr (), (s', c))"
    and s': "s' = s\<lparr>pg_db := fire_all (tick_prepare cronNext getDef now) now ?docs (pg_db s)\<rparr>"
    using tick_each_ok [OF assms] by blast
  have body: "andThen (claimDueInstances locked now n True) (tick_loop cronNext getDef now) s = (Inr c, s')"
    using c assms by (simp add: claimDueInstances_def andThen_def exec_ok tick_loop_def)
  have "transaction (andThen (claimDueInstances locked now n True) (tick_loop cronNext getDef now)) s = (Inr c, s')"
    using transaction_ok [where body = "andThen (claimDueInstances locked now n True) (tick_loop cronNext getDef now)",
        OF assms body] s' assms by simp
  then have "tick cronNext getDef locked now n False s = (Inr c, s')"
    using assms by (simp add: tick_def andThen_Inr [where m = exec_control, OF exec_control_ok])
  with c s' show ?thesis by blast
qed

lemma tick_result:
  assumes "pg_up s" "tick cronNext getDef locked now n False s = (Inr c, s')"
  shows "s' = s\<lparr>pg_db := fire_all (tick_prepare cronNext getDef now) now (due_docs locked now n s) (pg_db s)\<rparr>"
    "forEach (tick_instance cronNext getDef now) (due_docs locked now n s)
      (s, (emptySummary False)\<lparr>ts_checked := length (due_docs locked now n s)\<rparr>) = (Inr (), (s', c))"
  using tick_run [OF assms(1), of cronNext getDef locked now n] assms(2) by auto

lemma tick_prepare_parts:
  assumes "tick_prepare cronNext getDef now inst = Inr (nx, doc)" "in_nextFireAt inst = Some t"
  shows "buildRunId (in_tenantId inst) (in_instanceId inst) (toISOString t) = Inr (rn_runId doc)"
    "rn_scheduledFireTime doc = t" "rn_instanceId doc = in_instanceId inst" "rn_state doc = QUEUED"
    "\<exists>ex tz. cronNext ex tz t = Inr nx"
  using assms
  by (auto simp: tick_prepare_def Let_def tick_computeNextFireAt_def buildRunDocument_def
      split: sum.splits if_splits)

section \<open>Sample data\<close>

text \<open>
  Two due instances, one with a cron expression and one without, and a cron library that fires
  every minute.
\<close>

definition blank_inst :: "string \<Rightarrow> string \<Rightarrow> instant \<Rightarrow> inst_row" where
  "blank_inst i ex t =
    \<lparr>ji_instance_id = i, ji_tenant_id = None, ji_definition_id = ''def'', ji_definition_version = 1,
     ji_definition_parameter_schema = JArr [], ji_enabled = True, ji_state = ACTIVE,
     ji_schedule = \<lparr>sc_type = ''cron'', sc_expression = ex, sc_cron = [], sc_timezone = ''UTC''\<rparr>,
     ji_next_fire_at = Some t, ji_last_fire_at = None, ji_parameters = JObj [],
     ji_created_at = 0, ji_updated_at = 0\<rparr>"

definition every_minute :: cron where
  "every_minute ex tz t = Inr (t + 60000)"

definition tick_pg :: pg where
  "tick_pg = \<lparr>pg_db = \<lparr>job_runs = [], job_instances = [blank_inst ''good'' ''* * * * *'' 0, blank_inst ''bad'' [] 2]\<rparr>,
     pg_faults = []\<rparr>"

lemma every_minute_advances: "cron_advances every_minute"
  by (simp add: cron_advances_def every_minute_def)

lemma tick_pg_ok: "pg_up tick_pg" "pg_inv tick_pg"
  by (simp_all add: tick_pg_def keys_ok_def blank_inst_def)

lemma iso_epoch: "toISOString 0 = ''1970-01-01T00:00:00.000Z''" "iso_year 0 = 1970"
  by (simp_all add: toISOString_def iso_date_def iso_time_def iso_year_def year_of.simps year_days_def
      leap_def month_lengths_def Let_def)

lemma tick_pg_due:
  "due_rows (\<lambda>_. False) 5 10 (pg_db tick_pg) = [blank_inst ''good'' ''* * * * *'' 0, blank_inst ''bad'' [] 2]"
  by (simp add: due_rows_def tick_pg_def blank_inst_def due_def)

lemma tick_pg_good:
  "tick_prepare every_minute None 5 (inst_rowToDocument (blank_inst ''good'' ''* * * * *'' 0)) =
     Inr (60000, buildRunDocument ''good:1970-01-01T00:00:00.000Z''
       (inst_rowToDocument (blank_inst ''good'' ''* * * * *'' 0)) 0 5 JUndefined)"
  by (simp add: tick_prepare_def inst_rowToDocument_def blank_inst_def tick_computeNextFireAt_def
      getCronExpression_def str_or_def every_minute_def buildRunId_def iso_epoch)

lemma tick_pg_bad:
  "isl (tick_prepare every_minute None 5 (inst_rowToDocument (blank_inst ''bad'' [] 2)))"
  by (simp add: tick_prepare_def inst_rowToDocument_def blank_inst_def tick_computeNextFireAt_def
      getCronExpression_def str_or_def)

section \<open>Properties\<close>



text \<open>
  The counters of a tick add up: every checked instance was advanced or failed, every
  advanced instance created a run or met an existing one, and the table grew by exactly the
  created runs.
\<close>

lemma tick_summary_consistent:
  assumes "pg_up s"
  shows "\<exists>c s'. tick cronNext getDef locked now n False s = (Inr c, s') \<and>
    ts_checked c = length (due_rows locked now n (pg_db s)) \<and> ts_checked c \<le> n \<and>
    ts_checked c = ts_advanced c + ts_failed c \<and> ts_advanced c = ts_createdRuns c + ts_duplicates c \<and>
    length (job_runs (pg_db s')) = length (job_runs (pg_db s)) + ts_createdRuns c"
proof -
  let ?docs = "due_docs locked now n s"
  obtain c s' where t: "tick cronNext getDef locked now n False s = (Inr c, s')"
    and l: "forEach (tick_instance cronNext getDef now) ?docs
      (s, (emptySummary False)\<lparr>ts_checked := length ?docs\<rparr>) = (Inr (), (s', c))"
    using tick_run [OF assms, of cronNext getDef locked now n] by blast
  have "length (due_rows locked now n (pg_db s)) \<le> n" by (simp add: due_rows_def)
  with tick_each_counts [OF assms l] t show ?thesis by (auto simp: emptySummary_def)
qed

text \<open>Two instances are checked in the sample database.\<close>

text \<open>
  C29. A tick is all or nothing under connection failures: when it throws, whichever statement
  failed, both tables are as before; a dry run never changes them.
\<close>

theorem tick_atomic:
  assumes "tick cronNext getDef locked now n dryRun s = (r, s')" and "dryRun \<or> isl r"
  shows "pg_db s' = pg_db s"
proof (cases dryRun)
  case True
  with assms(1) show ?thesis
    by (auto simp: tick_def claimDueInstances_def elim!: andThen_cases exec_outcome)
next
  case False
  let ?tx = "transaction (andThen (claimDueInstances locked now n True) (tick_loop cronNext getDef now))"
  from False assms(1) have "andThen exec_control (\<lambda>_. ?tx) s = (r, s')" by (simp add: tick_def)
  then show ?thesis
  proof (rule andThen_cases)
    fix e assume "exec_control s = (Inl e, s')"
    then show ?thesis by (metis exec_control_db snd_conv)
  next
    fix a s1 assume "exec_control s = (Inr a, s1)" and tx: "?tx s1 = (r, s')"
    then have "pg_db s1 = pg_db s" by (metis exec_control_db snd_conv)
    with transaction_atomic [OF tx] False assms(2) show ?thesis by auto
  qed
qed

text \<open>The connection fails on the insert of the first run and on the rollback to its savepoint.\<close>

theorem tick_atomic_witness:
  "\<exists>e s'. tick every_minute None (\<lambda>_. False) 5 10 False
       (tick_pg\<lparr>pg_faults := [False, False, False, False, True, True]\<rparr>) = (Inl e, s') \<and>
     pg_db s' = pg_db tick_pg"
proof -
  let ?s = "tick_pg\<lparr>pg_faults := [False, False, False, False, True, True]\<rparr>"
  have due: "due_rows (\<lambda>_. False) 5 10 (pg_db tick_pg) =
      [blank_inst ''good'' ''* * * * *'' 0, blank_inst ''bad'' [] 2]" by (rule tick_pg_due)
  obtain e s' where t: "tick every_minute None (\<lambda>_. False) 5 10 False ?s = (Inl e, s')"
    by (simp add: tick_def transaction_def andThen_def exec_control_def exec_def claimDueInstances_def
        due tick_loop_def tick_instance_def tick_body_def tick_pg_good tryCatch_def on_db_def
        createRunTx_def rollback_to_def)
  from tick_atomic [OF t] t show ?thesis by auto
qed



end
