(* ===== verification/Run_Control.thy ===== *)
theory Run_Control
  imports Local_Run_Store
begin

text \<open>
  \<open>RunControlService\<close> of \<open>src/src/services/runControlService.js\<close>: retry, cancel and re-drive, written
  against the run store interface. Other processes work on the same tables between two awaited
  calls: \<open>others k\<close> is what they did before the service's \<open>k\<close>-th later call, any function. The
  behaviour of every branch is proved once from the laws of the store; the Postgres and the
  SQLite store inherit it.
\<close>

section \<open>The service\<close>

definition interleave :: "('db \<Rightarrow> 'db) \<Rightarrow> ('db, unit) eff" where
  "interleave f = (\<lambda>s. (Inr (), f s))"

definition RETRYABLE_STATES :: "run_state list" where
  "RETRYABLE_STATES = [FAILED]"

definition CANCELLABLE_STATES :: "run_state list" where
  "CANCELLABLE_STATES = [QUEUED, RUNNING, CANCELLING]"

definition REDRIVABLE_STATES :: "run_state list" where
  "REDRIVABLE_STATES = [SUCCEEDED, FAILED, CANCELLED]"

definition transitionError :: "int \<Rightarrow> string \<Rightarrow> js_error" where
  "transitionError statusCode message = (newError message)\<lparr>e_statusCode := JInt statusCode\<rparr>"

definition retry_assigns :: "int \<Rightarrow> string \<Rightarrow> instant \<Rightarrow> run_assign list" where
  "retry_assigns nextAttempt dispatchId now =
     [SetState QUEUED, SetAttempt nextAttempt, SetDispatchId (Some dispatchId), SetStartedAt None,
      SetEndedAt None, SetHeartbeatAt None, SetUpdatedAt now,
      SetStatus (status_of ''queued'' ''Run queued for retry''), SetError JNull, SetRuntimeExecution JNull]"

definition next_attempt :: "int option \<Rightarrow> int" where
  "next_attempt attempt = (case attempt of None \<Rightarrow> 0 | Some n \<Rightarrow> n) + 1"

definition retryRun ::
  "'db run_store \<Rightarrow> (nat \<Rightarrow> 'db \<Rightarrow> 'db) \<Rightarrow> instant \<Rightarrow> instant \<Rightarrow> string \<Rightarrow> string \<Rightarrow> ('db, js) eff" where
  "retryRun S others now dbNow uuid runId =
     (if runId = [] then throw (transitionError 400 ''runId is required'')
      else andThen (rs_getRun S runId) (\<lambda>found. case found of
        None \<Rightarrow> throw (transitionError 404 (''run '' @ runId @ '' was not found''))
      | Some existing \<Rightarrow>
          if rn_state existing \<notin> set RETRYABLE_STATES
          then throw (transitionError 409 (''run '' @ runId @ '' cannot be retried from state '' @ state_text (rn_state existing)))
          else let nextAttempt = next_attempt (rn_attempt existing) in
            andThen (interleave (others 0)) (\<lambda>_.
            andThen (rs_transition S runId [FAILED] (retry_assigns nextAttempt uuid now) dbNow) (\<lambda>updated.
              case updated of
                Some _ \<Rightarrow> ret (JObj [(''status'', JStr ''queued''), (''action'', JStr ''retry''),
                   (''runId'', JStr runId), (''state'', JStr ''QUEUED''), (''attempt'', JInt nextAttempt),
                   (''dispatchId'', JStr uuid), (''enqueued'', JBool True)])
              | None \<Rightarrow>
                  andThen (interleave (others 1)) (\<lambda>_.
                  andThen (rs_getRun S runId) (\<lambda>current. case current of
                    None \<Rightarrow> throw (transitionError 404 (''run '' @ runId @ '' was not found''))
                  | Some _ \<Rightarrow> throw (transitionError 409 (''run '' @ runId @ '' changed during transition'')))))) ))"

definition killed_assigns :: "instant \<Rightarrow> string \<Rightarrow> run_assign list" where
  "killed_assigns now message =
     [SetState CANCELLED, SetEndedAt (Some now), SetHeartbeatAt (Some now), SetCancelledAt (Some now),
      SetStatus (status_of ''cancelled'' (''Run cancelled '' @ em_dash @ '' worker terminated the subprocess'')),
      SetError (JObj [(''code'', JStr ''RUN_CANCELLED''), (''message'', JStr message)])]"

text \<open>
  \<open>launcher\<close> is \<open>runtimeLauncher?.cancel\<close>: \<open>None\<close> without one, otherwise its answer or exception for
  a run. An exception is swallowed.
\<close>

definition cancelRuntimeExecution ::
  "'db run_store \<Rightarrow> (run_doc \<Rightarrow> js_error + js) option \<Rightarrow> (nat \<Rightarrow> 'db \<Rightarrow> 'db) \<Rightarrow> instant \<Rightarrow> instant \<Rightarrow> run_doc \<Rightarrow> ('db, bool) eff" where
  "cancelRuntimeExecution S launcher others now dbNow run =
     (case launcher of
        None \<Rightarrow> ret False
      | Some cancel \<Rightarrow>
          (case cancel run of
             Inl _ \<Rightarrow> ret False
           | Inr result \<Rightarrow>
               andThen (if js_prop result ''status'' = JStr ''killed''
                        then andThen (interleave (others 1)) (\<lambda>_.
                             andThen (rs_transition S (rn_runId run) [CANCELLING]
                               (killed_assigns now (case rn_cancelReason run of
                                   Some m \<Rightarrow> str_or m ''Run cancelled by operator''
                                 | None \<Rightarrow> ''Run cancelled by operator'')) dbNow) (\<lambda>_. ret ()))
                        else ret ())
                 (\<lambda>_. ret True)))"

definition cancelling_assigns :: "instant \<Rightarrow> string \<Rightarrow> string \<Rightarrow> run_assign list" where
  "cancelling_assigns now cancelledBy reason =
     [SetState CANCELLING, SetCancelRequestedAt (Some now), SetCancelledBy (Some cancelledBy),
      SetCancelReason (Some reason), SetUpdatedAt now, SetStatus (status_of ''cancelling'' reason)]"

definition cancelled_assigns :: "instant \<Rightarrow> string \<Rightarrow> string \<Rightarrow> run_assign list" where
  "cancelled_assigns now cancelledBy reason =
     [SetState CANCELLED, SetEndedAt (Some now), SetHeartbeatAt (Some now), SetCancelledAt (Some now),
      SetCancelledBy (Some cancelledBy), SetCancelReason (Some reason), SetUpdatedAt now,
      SetStatus (status_of ''cancelled'' reason),
      SetError (JObj [(''code'', JStr ''RUN_CANCELLED''), (''message'', JStr reason)])]"

definition cancel_answer :: "string \<Rightarrow> string \<Rightarrow> run_state \<Rightarrow> bool \<Rightarrow> js" where
  "cancel_answer sts runId st idempotent =
     JObj ([(''status'', JStr sts), (''action'', JStr ''cancel''), (''runId'', JStr runId),
            (''state'', JStr (state_text st))] @ (if idempotent then [(''idempotent'', JBool True)] else []))"

text \<open>An absent \<open>reason\<close> is the empty string; the caller passes \<open>cancelledBy\<close>.\<close>

definition cancelRun ::
  "'db run_store \<Rightarrow> (run_doc \<Rightarrow> js_error + js) option \<Rightarrow> (nat \<Rightarrow> 'db \<Rightarrow> 'db) \<Rightarrow> instant \<Rightarrow> instant \<Rightarrow>
   string \<Rightarrow> string \<Rightarrow> string \<Rightarrow> ('db, js) eff" where
  "cancelRun S launcher others now dbNow reason cancelledBy runId =
     (if runId = [] then throw (transitionError 400 ''runId is required'')
      else andThen (rs_getRun S runId) (\<lambda>found. case found of
        None \<Rightarrow> throw (transitionError 404 (''run '' @ runId @ '' was not found''))
      | Some run \<Rightarrow>
          if rn_state run = CANCELLED then ret (cancel_answer ''cancelled'' runId CANCELLED True)
          else if rn_state run \<notin> set CANCELLABLE_STATES
          then throw (transitionError 409 (''run '' @ runId @ '' cannot be cancelled from state '' @ state_text (rn_state run)))
          else if rn_state run = CANCELLING then ret (cancel_answer ''cancelling'' runId CANCELLING True)
          else if rn_state run = RUNNING then
            andThen (interleave (others 0)) (\<lambda>_.
            andThen (rs_transition S runId [RUNNING]
                (cancelling_assigns now cancelledBy (str_or reason ''Run cancellation requested'')) dbNow) (\<lambda>updated.
            andThen (case updated of Some u \<Rightarrow> cancelRuntimeExecution S launcher others now dbNow u | None \<Rightarrow> ret False)
              (\<lambda>_. ret (cancel_answer ''cancelling'' runId CANCELLING False))))
          else
            andThen (interleave (others 0)) (\<lambda>_.
            andThen (rs_transition S runId [QUEUED]
                (cancelled_assigns now cancelledBy (str_or reason ''Run cancelled'')) dbNow)
              (\<lambda>_. ret (cancel_answer ''cancelled'' runId CANCELLED False)))))"

definition redrive_document :: "run_doc \<Rightarrow> string \<Rightarrow> string \<Rightarrow> string \<Rightarrow> instant \<Rightarrow> run_doc" where
  "redrive_document run redriveRunId dispatchId sourceId now =
     run\<lparr>rn_runId := redriveRunId, rn_state := QUEUED, rn_attempt := Some 1, rn_dispatchId := Some dispatchId,
         rn_parentRunId := Some sourceId, rn_redriveOfRunId := Some sourceId, rn_createdAt := now,
         rn_updatedAt := now, rn_startedAt := None, rn_endedAt := None, rn_heartbeatAt := None,
         rn_status := status_of ''queued'' ''Run queued by re-drive'', rn_result := JNull,
         rn_error := JNull, rn_runtimeExecution := JNull\<rparr>"

definition redriveRun ::
  "'db run_store \<Rightarrow> (nat \<Rightarrow> 'db \<Rightarrow> 'db) \<Rightarrow> instant \<Rightarrow> string \<Rightarrow> string \<Rightarrow> string \<Rightarrow> ('db, js) eff" where
  "redriveRun S others now uuid1 uuid2 runId =
     (if runId = [] then throw (transitionError 400 ''runId is required'')
      else andThen (rs_getRun S runId) (\<lambda>found. case found of
        None \<Rightarrow> throw (transitionError 404 (''run '' @ runId @ '' was not found''))
      | Some run \<Rightarrow>
          if rn_state run \<notin> set REDRIVABLE_STATES
          then throw (transitionError 409 (''run '' @ runId @ '' cannot be re-driven from state '' @ state_text (rn_state run)))
          else let sourceId = str_or (rn_runId run) runId; redriveRunId = sourceId @ '':redrive:'' @ uuid1 in
            andThen (interleave (others 0)) (\<lambda>_.
            andThen (rs_createRun S (redrive_document run redriveRunId uuid2 sourceId now)) (\<lambda>_.
            ret (JObj [(''status'', JStr ''queued''), (''action'', JStr ''redrive''), (''sourceRunId'', JStr runId),
                 (''runId'', JStr redriveRunId), (''state'', JStr ''QUEUED''), (''attempt'', JInt 1),
                 (''dispatchId'', JStr uuid2), (''enqueued'', JBool True)])))))"

section \<open>The branches, from the laws of a run store\<close>

lemma interleave_apply [simp]: "interleave f s = (Inr (), f s)"
  by (simp add: interleave_def)

lemma rowToDocument_fields [simp]:
  "rn_state (rowToDocument r) = jr_state r" "rn_attempt (rowToDocument r) = Some (jr_attempt r)"
  "rn_runId (rowToDocument r) = jr_run_id r" "rn_cancelReason (rowToDocument r) = jr_cancel_reason r"
  "rn_cancelledAt (rowToDocument r) = jr_cancelled_at r"
  by (simp_all add: rowToDocument_def)

lemma next_attempt_row [simp]: "next_attempt (Some n) = n + 1"
  by (simp add: next_attempt_def)

lemma requeued_row:
  "jr_state (assign_all (retry_assigns n u now) t r) = QUEUED"
  "jr_attempt (assign_all (retry_assigns n u now) t r) = n"
  "jr_dispatch_id (assign_all (retry_assigns n u now) t r) = Some u"
  "jr_started_at (assign_all (retry_assigns n u now) t r) = None"
  "jr_ended_at (assign_all (retry_assigns n u now) t r) = None"
  "jr_error (assign_all (retry_assigns n u now) t r) = JNull"
  "jr_result (assign_all (retry_assigns n u now) t r) = jr_result r"
  by (simp_all add: assign_all_def retry_assigns_def json_column_def)

lemma cancelling_row:
  "jr_state (assign_all (cancelling_assigns now who why) t r) = CANCELLING"
  "jr_dispatch_id (assign_all (cancelling_assigns now who why) t r) = jr_dispatch_id r"
  "jr_cancel_reason (assign_all (cancelling_assigns now who why) t r) = Some why"
  by (simp_all add: assign_all_def cancelling_assigns_def)

lemma cancelled_row:
  "jr_state (assign_all (cancelled_assigns now who why) t r) = CANCELLED"
  "jr_cancelled_at (assign_all (cancelled_assigns now who why) t r) = Some now"
  "jr_ended_at (assign_all (cancelled_assigns now who why) t r) = Some now"
  "jr_state (assign_all (killed_assigns now why) t r) = CANCELLED"
  "jr_cancelled_at (assign_all (killed_assigns now why) t r) = Some now"
  by (simp_all add: assign_all_def cancelled_assigns_def killed_assigns_def)

context run_store_laws
begin

lemma retry_outcomes:
  assumes "inv db" "up db" "inv (others 0 db)" "up (others 0 db)"
    "inv (others 1 (others 0 db))" "up (others 1 (others 0 db))"
    "retryRun S others now dbNow uuid i db = (res, db')"
  shows "(\<exists>e. res = Inl e \<and> e_statusCode e \<in> {JInt 400, JInt 404, JInt 409} \<and>
            db' \<in> {db, others 1 (others 0 db)}) \<or>
         (\<exists>a r q. res = Inr a \<and> view db i = Some r \<and> jr_state r = FAILED \<and>
            view (others 0 db) i = Some q \<and> jr_state q = FAILED \<and>
            view db' = (view (others 0 db))
              (i \<mapsto> assign_all (retry_assigns (jr_attempt r + 1) uuid now) dbNow q))"
proof (cases "i = [] \<or> (\<forall>r. view db i = Some r \<longrightarrow> jr_state r \<noteq> FAILED)")
  case True
  then have "\<exists>e. retryRun S others now dbNow uuid i db = (Inl e, db) \<and>
      e_statusCode e \<in> {JInt 400, JInt 404, JInt 409}"
    using assms(1,2)
    by (cases "view db i") (auto simp: retryRun_def eff_if andThen_def get_law transitionError_def RETRYABLE_STATES_def)
  with assms(7) show ?thesis by auto
next
  case False
  then obtain r where r: "view db i = Some r" "jr_state r = FAILED" and "i \<noteq> []" by blast
  let ?as = "retry_assigns (jr_attempt r + 1) uuid now" and ?d = "others 0 db"
  show ?thesis
  proof (cases "\<exists>q. view ?d i = Some q \<and> jr_state q \<in> set [FAILED]")
    case True
    then obtain q where q: "view ?d i = Some q" "jr_state q \<in> set [FAILED]" by blast
    obtain d' where d': "rs_transition S i [FAILED] ?as dbNow ?d = (Inr (Some (rowToDocument (assign_all ?as dbNow q))), d')"
      "view d' = (view ?d)(i \<mapsto> assign_all ?as dbNow q)"
      using transition_law [OF assms(3,4) q] by blast
    have "db' = d' \<and> (\<exists>a. res = Inr a)"
      using assms(1,2,7) r d'(1) \<open>i \<noteq> []\<close>
      by (auto simp: retryRun_def andThen_def get_law RETRYABLE_STATES_def Let_def)
    with r q d'(2) show ?thesis by auto
  next
    case False
    then have "rs_transition S i [FAILED] ?as dbNow ?d = (Inr None, ?d)"
      using transition_refused_law [OF assms(3,4), of i "[FAILED]"] by blast
    with assms(1,2,5,6,7) r \<open>i \<noteq> []\<close> show ?thesis
      by (auto simp: retryRun_def andThen_def get_law RETRYABLE_STATES_def Let_def transitionError_def
          split: option.splits)
  qed
qed

lemma retry_requeues:
  assumes "inv db" "up db" "i \<noteq> []" "view db i = Some r" "jr_state r = FAILED"
  shows "\<exists>a db'. retryRun S (\<lambda>_ d. d) now dbNow uuid i db = (Inr a, db') \<and> inv db' \<and> up db' \<and>
    view db' = (view db)(i \<mapsto> assign_all (retry_assigns (jr_attempt r + 1) uuid now) dbNow r)"
proof -
  let ?as = "retry_assigns (jr_attempt r + 1) uuid now"
  obtain d' where d': "rs_transition S i [FAILED] ?as dbNow db = (Inr (Some (rowToDocument (assign_all ?as dbNow r))), d')"
    "inv d'" "up d'" "view d' = (view db)(i \<mapsto> assign_all ?as dbNow r)"
    using transition_law [OF assms(1,2,4), of "[FAILED]"] assms(5) by auto
  then show ?thesis using assms by (simp add: retryRun_def andThen_def get_law RETRYABLE_STATES_def Let_def)
qed

text \<open>Cancellation with nobody else at work, state by state.\<close>

lemma cancel_settled:
  assumes "inv db" "up db" "i \<noteq> []" "view db i = Some r" "jr_state r \<in> {CANCELLED, CANCELLING}"
  shows "cancelRun S launcher others now dbNow why who i db =
    (Inr (cancel_answer (if jr_state r = CANCELLED then ''cancelled'' else ''cancelling'') i (jr_state r) True), db)"
  using assms by (auto simp: cancelRun_def andThen_def get_law CANCELLABLE_STATES_def)

lemma cancel_finished:
  assumes "inv db" "up db" "i \<noteq> []" "view db i = Some r" "jr_state r \<in> {SUCCEEDED, FAILED}"
  shows "\<exists>e. cancelRun S launcher others now dbNow why who i db = (Inl e, db) \<and> e_statusCode e = JInt 409"
  using assms by (auto simp: cancelRun_def andThen_def get_law CANCELLABLE_STATES_def transitionError_def)

lemma cancel_queued:
  assumes "inv db" "up db" "i \<noteq> []" "view db i = Some r" "jr_state r = QUEUED"
  shows "\<exists>db'. cancelRun S launcher (\<lambda>_ d. d) now dbNow why who i db = (Inr (cancel_answer ''cancelled'' i CANCELLED False), db') \<and>
    inv db' \<and> up db' \<and>
    view db' = (view db)(i \<mapsto> assign_all (cancelled_assigns now who (str_or why ''Run cancelled'')) dbNow r)"
proof -
  let ?as = "cancelled_assigns now who (str_or why ''Run cancelled'')"
  obtain d' where "rs_transition S i [QUEUED] ?as dbNow db = (Inr (Some (rowToDocument (assign_all ?as dbNow r))), d')"
    "inv d'" "up d'" "view d' = (view db)(i \<mapsto> assign_all ?as dbNow r)"
    using transition_law [OF assms(1,2,4), of "[QUEUED]"] assms(5) by auto
  then show ?thesis using assms by (simp add: cancelRun_def andThen_def get_law CANCELLABLE_STATES_def)
qed

lemma cancel_running:
  assumes "inv db" "up db" "i \<noteq> []" "view db i = Some r" "jr_state r = RUNNING"
  shows "\<exists>db' q. cancelRun S launcher (\<lambda>_ d. d) now dbNow why who i db =
      (Inr (cancel_answer ''cancelling'' i CANCELLING False), db') \<and> inv db' \<and> up db' \<and>
    view db' = (view db)(i \<mapsto> q) \<and> jr_dispatch_id q = jr_dispatch_id r \<and>
    jr_state q = (if (\<exists>cancel u a. launcher = Some cancel \<and>
                        u = rowToDocument (assign_all (cancelling_assigns now who (str_or why ''Run cancellation requested'')) dbNow r) \<and>
                        cancel u = Inr a \<and> js_prop a ''status'' = JStr ''killed'')
                  then CANCELLED else CANCELLING)"
proof -
  let ?why = "str_or why ''Run cancellation requested''"
  let ?as = "cancelling_assigns now who ?why"
  let ?q = "assign_all ?as dbNow r"
  let ?u = "rowToDocument ?q"
  obtain d' where d': "rs_transition S i [RUNNING] ?as dbNow db = (Inr (Some ?u), d')"
    "inv d'" "up d'" "view d' = (view db)(i \<mapsto> ?q)"
    using transition_law [OF assms(1,2,4), of "[RUNNING]"] assms(5) by auto
  have id: "rn_runId ?u = i" "rn_cancelReason ?u = Some ?why"
    using view_key [OF assms(1,4)] cancelling_row(3) by simp_all
  let ?k = "killed_assigns now (str_or ?why ''Run cancelled by operator'')"
  obtain d'' where d'': "rs_transition S i [CANCELLING] ?k dbNow d' = (Inr (Some (rowToDocument (assign_all ?k dbNow ?q))), d'')"
    "inv d''" "up d''" "view d'' = (view d')(i \<mapsto> assign_all ?k dbNow ?q)"
    using transition_law [OF d'(2,3), of i ?q "[CANCELLING]" ?k dbNow] d'(4)
    by (metis cancelling_row(1) fun_upd_same list.set_intros(1))
  have disp: "jr_dispatch_id (assign_all ?k dbNow ?q) = jr_dispatch_id r"
    by (simp add: assign_all_def killed_assigns_def cancelling_assigns_def)
  show ?thesis
  proof (cases "\<exists>cancel a. launcher = Some cancel \<and> cancel ?u = Inr a \<and> js_prop a ''status'' = JStr ''killed''")
    case True
    then have "cancelRun S launcher (\<lambda>_ d. d) now dbNow why who i db =
        (Inr (cancel_answer ''cancelling'' i CANCELLING False), d'')"
      using assms d'(1) d''(1) id
      by (auto simp: cancelRun_def andThen_def get_law CANCELLABLE_STATES_def cancelRuntimeExecution_def)
    with True d'(4) d''(2-4) disp cancelled_row(4) show ?thesis by fastforce
  next
    case False
    then have "cancelRun S launcher (\<lambda>_ d. d) now dbNow why who i db =
        (Inr (cancel_answer ''cancelling'' i CANCELLING False), d')"
      using assms d'(1)
      by (auto simp: cancelRun_def andThen_def get_law CANCELLABLE_STATES_def cancelRuntimeExecution_def
          split: option.splits sum.splits)
    with False d'(2-4) cancelling_row(1,2) show ?thesis by fastforce
  qed
qed

lemma redrive_creates:
  assumes "inv db" "up db" "i \<noteq> []" "view db i = Some r" "jr_state r \<in> {SUCCEEDED, FAILED, CANCELLED}"
    "view db (i @ '':redrive:'' @ uuid1) = None"
  shows "\<exists>a db'. redriveRun S (\<lambda>_ d. d) now uuid1 uuid2 i db = (Inr a, db') \<and> inv db' \<and> up db' \<and>
    view db' = (view db)(i @ '':redrive:'' @ uuid1 \<mapsto>
      row_of (redrive_document (rowToDocument r) (i @ '':redrive:'' @ uuid1) uuid2 i now))"
proof -
  let ?doc = "redrive_document (rowToDocument r) (i @ '':redrive:'' @ uuid1) uuid2 i now"
  have k: "rn_runId ?doc = i @ '':redrive:'' @ uuid1" by (simp add: redrive_document_def)
  have id: "str_or (rn_runId (rowToDocument r)) i = i"
    using view_key [OF assms(1,4)] by (simp add: str_or_def)
  obtain d' where "rs_createRun S ?doc db = (Inr True, d')" "inv d'" "up d'"
    "view d' = (view db)(rn_runId ?doc \<mapsto> row_of ?doc)"
    using create_new_law [OF assms(1,2), of ?doc] assms(6) k by auto
  then show ?thesis using assms(1-5) k id
    by (auto simp: redriveRun_def andThen_def get_law REDRIVABLE_STATES_def Let_def)
qed

end

section \<open>Sample data\<close>

text \<open>A database with one failed run.\<close>

definition failed_pg :: pg where
  "failed_pg = \<lparr>pg_db = \<lparr>job_runs = [blank_run ''a'' 1 FAILED (Some ''old'')], job_instances = []\<rparr>, pg_faults = []\<rparr>"

lemma failed_pg_ok: "pg_inv failed_pg" "pg_up failed_pg"
  "find_run ''a'' (pg_db failed_pg) = Some (blank_run ''a'' 1 FAILED (Some ''old''))"
  by (simp_all add: failed_pg_def keys_ok_def find_run_def blank_run_def)

section \<open>Properties\<close>

text \<open>
  C26. A retry requeues a run only from \<open>FAILED\<close>, whatever other processes do meanwhile: it throws a
  400, 404 or 409 and writes nothing, or the run was \<open>FAILED\<close> at the moment of the transition and is
  now \<open>QUEUED\<close> with the next attempt number, a fresh token and no error; every other run is as the
  others left it.
\<close>

theorem retryRun_safe:
  assumes "pg_inv s" and "pg_up s" and "pg_inv (others 0 s)" and "pg_up (others 0 s)"
    and "pg_inv (others 1 (others 0 s))" and "pg_up (others 1 (others 0 s))"
    and "retryRun RunStore others now dbNow uuid i s = (res, s')"
  shows "(\<exists>e. res = Inl e \<and> e_statusCode e \<in> {JInt 400, JInt 404, JInt 409} \<and>
            s' \<in> {s, others 1 (others 0 s)}) \<or>
         (\<exists>a r q p. res = Inr a \<and> find_run i (pg_db s) = Some r \<and> jr_state r = FAILED \<and>
            find_run i (pg_db (others 0 s)) = Some q \<and> jr_state q = FAILED \<and>
            find_run i (pg_db s') = Some p \<and> jr_state p = QUEUED \<and> jr_attempt p = jr_attempt r + 1 \<and>
            jr_dispatch_id p = Some uuid \<and> jr_started_at p = None \<and> jr_error p = JNull \<and>
            (\<forall>j. j \<noteq> i \<longrightarrow> find_run j (pg_db s') = find_run j (pg_db (others 0 s))))"
  using pgs.retry_outcomes [OF assms]
proof (elim disjE exE conjE, goal_cases)
  case (2 a r q)
  let ?p = "assign_all (retry_assigns (jr_attempt r + 1) uuid now) dbNow q"
  have "find_run i (pg_db s') = Some ?p" using fun_cong [OF 2(6), of i] by simp
  moreover have "find_run j (pg_db s') = find_run j (pg_db (others 0 s))" if "j \<noteq> i" for j
    using fun_cong [OF 2(6), of j] that by simp
  ultimately have "res = Inr a \<and> find_run i (pg_db s) = Some r \<and> jr_state r = FAILED \<and>
      find_run i (pg_db (others 0 s)) = Some q \<and> jr_state q = FAILED \<and>
      find_run i (pg_db s') = Some ?p \<and> jr_state ?p = QUEUED \<and> jr_attempt ?p = jr_attempt r + 1 \<and>
      jr_dispatch_id ?p = Some uuid \<and> jr_started_at ?p = None \<and> jr_error ?p = JNull \<and>
      (\<forall>j. j \<noteq> i \<longrightarrow> find_run j (pg_db s') = find_run j (pg_db (others 0 s)))"
    using 2(1-5) requeued_row by simp
  then show ?case by (intro disjI2) (rule exI)+
qed blast

text \<open>A failed run is retried.\<close>

theorem retryRun_safe_witness:
  "\<exists>res s' p. retryRun RunStore (\<lambda>_ d. d) 9 9 ''new'' ''a'' failed_pg = (Inr res, s') \<and>
     find_run ''a'' (pg_db s') = Some p \<and> jr_state p = QUEUED \<and> jr_attempt p = 2"
proof -
  have st: "jr_state (blank_run ''a'' 1 FAILED (Some ''old'')) = FAILED"
    "jr_attempt (blank_run ''a'' 1 FAILED (Some ''old'')) = 1" by (simp_all add: blank_run_def)
  obtain a s' where t: "retryRun RunStore (\<lambda>_ d. d) 9 9 ''new'' ''a'' failed_pg = (Inr a, s')"
    using pgs.retry_requeues [OF failed_pg_ok(1,2) _ failed_pg_ok(3) st(1)] by blast
  from retryRun_safe [where others = "\<lambda>_ d. d", OF failed_pg_ok(1,2,1,2,1,2) t]
  obtain r p where "find_run ''a'' (pg_db failed_pg) = Some r" "find_run ''a'' (pg_db s') = Some p"
    "jr_state p = QUEUED" "jr_attempt p = jr_attempt r + 1" by blast
  moreover from this(1) have "jr_attempt r = 1" using failed_pg_ok(3) st(2) by simp
  ultimately show ?thesis using t by auto
qed



text \<open>
  The answer of a cancellation does not say whether the run was cancelled. When a worker claims
  the queued run between the service's read and its transition, the transition matches no row,
  the run keeps running, and the caller is told that its state is \<open>CANCELLED\<close>.
\<close>

lemma cancelRun_lost_race:
  "\<exists>a s'. cancelRun RunStore None (\<lambda>_ d. snd (claimRun ''u'' ''a'' 6 JUndefined d)) 7 7 [] ''operator'' ''a'' sample_pg = (Inr a, s') \<and>
     js_prop a ''state'' = JStr ''CANCELLED'' \<and> js_prop a ''idempotent'' = JUndefined \<and>
     (\<exists>r. find_run ''a'' (pg_db s') = Some r \<and> jr_state r = RUNNING)"
proof -
  have st: "jr_state (blank_run ''a'' 1 QUEUED None) = QUEUED" by (simp add: blank_run_def)
  obtain s1 r where s1: "claimRun ''u'' ''a'' 6 JUndefined sample_pg = (Inr (Claimed (Some ''u'')), s1)"
    "pg_inv s1" "pg_up s1" and r: "find_run ''a'' (pg_db s1) = Some r" "jr_state r = RUNNING"
    using claimRun_hit [OF sample_pg_ok sample_find(1) st, of "''u''" 6 JUndefined]
    by (metis fun_upd_same set_row_states(1))
  let ?others = "\<lambda>_ d. snd (claimRun ''u'' ''a'' 6 JUndefined d)"
  let ?as = "cancelled_assigns 7 ''operator'' (str_or [] ''Run cancelled'')"
  have refused: "rs_transition RunStore ''a'' [QUEUED] ?as 7 s1 = (Inr None, s1)"
    by (rule pgs.transition_refused_law [OF s1(2,3)]) (use r in simp)
  have "cancelRun RunStore None ?others 7 7 [] ''operator'' ''a'' sample_pg =
      (Inr (cancel_answer ''cancelled'' ''a'' CANCELLED False), s1)"
    using refused sample_find(1) st s1(1)
    by (simp add: cancelRun_def andThen_def pgs.get_law sample_pg_ok CANCELLABLE_STATES_def)
  with r show ?thesis
    by (intro exI conjI) (assumption | simp add: cancel_answer_def)+
qed

text \<open>
  C31. A re-drive leaves its source alone and queues a first attempt of a new run that names it. The
  cancellation stamp of the source is copied along with the parameters: re-driving a cancelled
  run queues a run whose \<open>cancelled_at\<close> is set.
\<close>

theorem redriveRun_creates:
  assumes "pg_inv s" and "pg_up s" and "i \<noteq> []" and "find_run i (pg_db s) = Some r"
    and "jr_state r \<in> {SUCCEEDED, FAILED, CANCELLED}" and "find_run (i @ '':redrive:'' @ uuid1) (pg_db s) = None"
  shows "\<exists>a s' q. redriveRun RunStore (\<lambda>_ d. d) now uuid1 uuid2 i s = (Inr a, s') \<and>
    find_run (i @ '':redrive:'' @ uuid1) (pg_db s') = Some q \<and> jr_state q = QUEUED \<and> jr_attempt q = 1 \<and>
    jr_dispatch_id q = Some uuid2 \<and> jr_parent_run_id q = Some i \<and> jr_redrive_of_run_id q = Some i \<and>
    jr_started_at q = None \<and> jr_result q = JNull \<and> jr_error q = JNull \<and>
    jr_cancelled_at q = jr_cancelled_at r \<and>
    (\<forall>j. j \<noteq> i @ '':redrive:'' @ uuid1 \<longrightarrow> find_run j (pg_db s') = find_run j (pg_db s))"
proof -
  let ?n = "i @ '':redrive:'' @ uuid1"
  let ?q = "documentToRow (redrive_document (rowToDocument r) ?n uuid2 i now)"
  obtain a s' where c: "redriveRun RunStore (\<lambda>_ d. d) now uuid1 uuid2 i s = (Inr a, s')"
    and v: "pg_view s' = (pg_view s)(?n \<mapsto> ?q)"
    using pgs.redrive_creates [OF assms, of now uuid2] by blast
  have "find_run ?n (pg_db s') = Some ?q" using fun_cong [OF v, of ?n] by simp
  moreover have "find_run j (pg_db s') = find_run j (pg_db s)" if "j \<noteq> ?n" for j using fun_cong [OF v, of j] that by simp
  moreover have "jr_state ?q = QUEUED \<and> jr_attempt ?q = 1 \<and> jr_dispatch_id ?q = Some uuid2 \<and>
      jr_parent_run_id ?q = Some i \<and> jr_redrive_of_run_id ?q = Some i \<and> jr_started_at ?q = None \<and>
      jr_result ?q = JNull \<and> jr_error ?q = JNull \<and> jr_cancelled_at ?q = jr_cancelled_at r"
    by (simp add: documentToRow_def redrive_document_def json_column_def)
  ultimately show ?thesis using c by blast
qed

text \<open>The failed sample run is re-driven.\<close>

theorem redriveRun_creates_witness:
  "\<exists>a s' q. redriveRun RunStore (\<lambda>_ d. d) 9 ''x'' ''y'' ''a'' failed_pg = (Inr a, s') \<and>
     find_run ''a:redrive:x'' (pg_db s') = Some q \<and> jr_state q = QUEUED"
proof -
  have "jr_state (blank_run ''a'' 1 FAILED (Some ''old'')) \<in> {SUCCEEDED, FAILED, CANCELLED}"
    by (simp add: blank_run_def)
  moreover have "find_run (''a'' @ '':redrive:'' @ ''x'') (pg_db failed_pg) = None"
    by (simp add: failed_pg_def find_run_def blank_run_def)
  ultimately show ?thesis
    using redriveRun_creates [OF failed_pg_ok(1,2) _ failed_pg_ok(3), of "''x''" 9 "''y''"] by auto
qed

end
