(* ===== verification/Stale_Sweeper.thy ===== *)
theory Stale_Sweeper
  imports Run_Store
begin

text \<open>
  \<open>StaleRunSweeper\<close> of \<open>src/src/services/staleRunSweeper.js\<close>. The state of a sweep is the database
  and the sweeper's \<open>_sweeping\<close> flag; \<open>others k\<close> is what the rest of the system does before the
  \<open>k\<close>-th mark, \<open>clock k\<close> the time read there. Log lines are omitted.
\<close>

section \<open>The sweep\<close>

definition stale_running_error :: js where
  "stale_running_error = JObj [(''code'', JStr ''STALE_RUNNING''),
     (''message'', JStr ''Run marked failed by stale-run sweeper: worker did not mark the run terminal within the timeout window''),
     (''retryable'', JBool False)]"

definition stale_running_status :: js where
  "stale_running_status = status_of ''failed'' (''Run timed out '' @ em_dash @ '' worker did not complete within the allowed window'')"

definition stale_cancelling_error :: js where
  "stale_cancelling_error = JObj [(''code'', JStr ''STALE_CANCELLING''),
     (''message'', JStr ''Run force-cancelled by stale sweeper: worker did not complete within the cancellation timeout window''),
     (''retryable'', JBool False)]"

definition stale_cancelling_status :: js where
  "stale_cancelling_status = status_of ''cancelled''
     (''Run force-cancelled '' @ em_dash @ '' worker did not complete within the allowed window after cancellation was requested'')"

definition meanwhile :: "(pg \<Rightarrow> pg) \<Rightarrow> (pg, unit) eff" where
  "meanwhile f = (\<lambda>s. (Inr (), f s))"

text \<open>One iteration of each loop; an exception is logged and the loop goes on.\<close>

definition sweep_one_running :: "(nat \<Rightarrow> pg \<Rightarrow> pg) \<Rightarrow> (nat \<Rightarrow> instant) \<Rightarrow> nat \<times> string \<times> string option \<Rightarrow> (pg, unit) eff" where
  "sweep_one_running others clock = (\<lambda>(k, runId, dispatchId).
     andThen (meanwhile (others k)) (\<lambda>_.
     tryCatch (andThen (markFailed runId (clock k) stale_running_error stale_running_status dispatchId) (\<lambda>_. ret ()))
       (\<lambda>_. ret ())))"

definition sweepRunning ::
  "(nat \<Rightarrow> pg \<Rightarrow> pg) \<Rightarrow> (nat \<Rightarrow> instant) \<Rightarrow> instant \<Rightarrow> nat \<Rightarrow> nat \<Rightarrow> (pg, unit) eff" where
  "sweepRunning others clock dbNow thresholdMs batchSize =
     andThen (tryCatch (andThen (listStaleRunningIds dbNow thresholdMs batchSize) (\<lambda>rows. ret (Some rows)))
                (\<lambda>_. ret None))
       (\<lambda>staleRuns. case staleRuns of
          None \<Rightarrow> ret ()
        | Some rows \<Rightarrow> forEach (sweep_one_running others clock) (enumerate 0 rows))"

definition sweep_one_cancelling :: "(nat \<Rightarrow> pg \<Rightarrow> pg) \<Rightarrow> (nat \<Rightarrow> instant) \<Rightarrow> nat \<times> string \<Rightarrow> (pg, unit) eff" where
  "sweep_one_cancelling others clock = (\<lambda>(k, runId).
     andThen (meanwhile (others k)) (\<lambda>_.
     tryCatch (andThen (markCancelled runId (clock k) stale_cancelling_error stale_cancelling_status) (\<lambda>_. ret ()))
       (\<lambda>_. ret ())))"

definition sweepCancelling ::
  "(nat \<Rightarrow> pg \<Rightarrow> pg) \<Rightarrow> (nat \<Rightarrow> instant) \<Rightarrow> instant \<Rightarrow> nat \<Rightarrow> nat \<Rightarrow> (pg, unit) eff" where
  "sweepCancelling others clock dbNow thresholdMs batchSize =
     andThen (tryCatch (andThen (listStaleCancellingIds dbNow thresholdMs batchSize) (\<lambda>rows. ret (Some rows)))
                (\<lambda>_. ret None))
       (\<lambda>runIds. case runIds of
          None \<Rightarrow> ret ()
        | Some rows \<Rightarrow> forEach (sweep_one_cancelling others clock) (enumerate 0 rows))"

text \<open>\<open>_sweep\<close>: the flag keeps two sweeps of one process apart and is reset in a \<open>finally\<close> block.\<close>

definition sweep ::
  "(nat \<Rightarrow> pg \<Rightarrow> pg) \<Rightarrow> (nat \<Rightarrow> instant) \<Rightarrow> instant \<Rightarrow> nat \<Rightarrow> nat \<Rightarrow> (pg \<times> bool, unit) eff" where
  "sweep others clock dbNow thresholdMs batchSize = (\<lambda>(s, sweeping).
     if sweeping then (Inr (), (s, sweeping))
     else let (r, s') = andThen (sweepRunning others clock dbNow thresholdMs batchSize)
                          (\<lambda>_. sweepCancelling others clock dbNow thresholdMs batchSize) s
          in (r, (s', False)))"

text \<open>The timer: the intervals that fire, by their handle, and the handle kept in \<open>_timer\<close>; \<open>handle\<close> is what \<open>setInterval\<close> returns.\<close>

record sweep_timer =
  sw_firing :: "nat list"
  sw_timer :: "nat option"

definition sweeper_start :: "nat \<Rightarrow> sweep_timer \<Rightarrow> sweep_timer" where
  "sweeper_start handle t = t\<lparr>sw_firing := handle # sw_firing t, sw_timer := Some handle\<rparr>"

definition sweeper_stop :: "sweep_timer \<Rightarrow> sweep_timer" where
  "sweeper_stop t =
     \<lparr>sw_firing = (case sw_timer t of None \<Rightarrow> sw_firing t | Some h \<Rightarrow> filter (\<lambda>k. k \<noteq> h) (sw_firing t)), sw_timer = None\<rparr>"

section \<open>Lemmas\<close>

text \<open>A started sweeper is silenced by \<open>stop\<close>; started twice, it is not: the first interval is lost.\<close>

lemma sweeper_stops: "sweeper_stop (sweeper_start h \<lparr>sw_firing = [], sw_timer = None\<rparr>) = \<lparr>sw_firing = [], sw_timer = None\<rparr>"
  by (simp add: sweeper_start_def sweeper_stop_def)

lemma sweeper_started_twice:
  assumes "h' \<noteq> h"
  shows "h \<in> set (sw_firing (sweeper_stop (sweeper_stop (sweeper_start h' (sweeper_start h t)))))"
  using assms by (simp add: sweeper_start_def sweeper_stop_def)

abbreviation alone :: "nat \<Rightarrow> pg \<Rightarrow> pg" where
  "alone \<equiv> (\<lambda>_ s. s)"

lemma meanwhile_apply [simp]: "meanwhile f s = (Inr (), f s)"
  by (simp add: meanwhile_def)

text \<open>
  A loop whose step updates one run per iteration, on runs with distinct identifiers: every listed
  run is updated once, no other run is.
\<close>

text \<open>One update before others, when the others concern other runs.\<close>

lemma mark_first:
  fixes n :: nat
  assumes upd: "\<And>k q. jr_run_id (upd k q) = jr_run_id q" and nk: "\<And>y. y \<in> set xs \<Longrightarrow> key y \<noteq> key x"
    and g: "\<And>q. g q = q \<or> (\<exists>y \<in> set xs. key y = jr_run_id q \<and> ok y q \<and> (\<exists>k. g q = upd k q))"
  defines "h \<equiv> \<lambda>q. if jr_run_id q = key x \<and> ok x q then upd n q else q"
  shows "g (h q) = q \<or> (\<exists>y \<in> set (x # xs). key y = jr_run_id q \<and> ok y q \<and> (\<exists>k. g (h q) = upd k q))"
    and "jr_run_id q = key x \<Longrightarrow> ok x q \<Longrightarrow> g (h q) = upd n q"
    and "jr_run_id q \<noteq> key x \<Longrightarrow> h q = q"
proof -
  have keep: "g p = p" if "jr_run_id p = key x" for p using g [of p] that nk by metis
  show hit: "g (h q) = upd n q" if "jr_run_id q = key x" "ok x q" using that keep upd by (simp add: h_def)
  show "h q = q" if "jr_run_id q \<noteq> key x" using that by (simp add: h_def)
  show "g (h q) = q \<or> (\<exists>y \<in> set (x # xs). key y = jr_run_id q \<and> ok y q \<and> (\<exists>k. g (h q) = upd k q))"
  proof (cases "jr_run_id q = key x \<and> ok x q")
    case True then show ?thesis using hit by auto
  next
    case False
    then have "h q = q" by (auto simp: h_def)
    with g [of q] show ?thesis by auto
  qed
qed

lemma mark_loop:
  assumes step: "\<And>k x s. pg_up s \<Longrightarrow> pg_inv s \<Longrightarrow>
      \<exists>s'. f (k, x) s = (Inr (), s') \<and> pg_up s' \<and> pg_inv s' \<and>
        job_runs (pg_db s') = map (\<lambda>q. if jr_run_id q = key x \<and> ok x q then upd k q else q) (job_runs (pg_db s))"
    and upd: "\<And>k q. jr_run_id (upd k q) = jr_run_id q"
    and pre: "pg_up s" "pg_inv s" "distinct (map key xs)"
      "\<forall>x \<in> set xs. \<exists>r. find_run (key x) (pg_db s) = Some r \<and> ok x r"
  shows "\<exists>s' g. forEach f (enumerate n xs) s = (Inr (), s') \<and> pg_up s' \<and> pg_inv s' \<and>
    job_runs (pg_db s') = map g (job_runs (pg_db s)) \<and> (\<forall>r. jr_run_id (g r) = jr_run_id r) \<and>
    (\<forall>r. g r = r \<or> (\<exists>x \<in> set xs. key x = jr_run_id r \<and> ok x r \<and> (\<exists>k. g r = upd k r))) \<and>
    (\<forall>x \<in> set xs. \<forall>r. find_run (key x) (pg_db s) = Some r \<longrightarrow> (\<exists>k. g r = upd k r))"
  using pre
proof (induction xs arbitrary: n s)
  case Nil
  then show ?case by (intro exI [of _ s] exI [of _ id]) simp
next
  case (Cons x xs)
  obtain r where r: "find_run (key x) (pg_db s) = Some r" "ok x r" using Cons.prems(4) by auto
  let ?h = "\<lambda>q. if jr_run_id q = key x \<and> ok x q then upd n q else q"
  obtain s1 where s1: "f (n, x) s = (Inr (), s1)" "pg_up s1" "pg_inv s1"
    "job_runs (pg_db s1) = map ?h (job_runs (pg_db s))"
    using step [OF Cons.prems(1,2)] by blast
  have h: "jr_run_id (?h q) = jr_run_id q" for q using upd by simp
  have find1: "find_run j (pg_db s1) = map_option ?h (find_run j (pg_db s))" for j
    using find_map_key [of jr_run_id ?h, OF h] s1(4) by (simp add: find_run_def)
  have "key x \<notin> key ` set xs" using Cons.prems(3) by simp
  then have nk: "key y \<noteq> key x" if "y \<in> set xs" for y using that by (metis imageI)
  have other: "find_run (key y) (pg_db s1) = find_run (key y) (pg_db s)" if "y \<in> set xs" for y
  proof -
    have "key y \<noteq> key x" by (rule nk [OF that])
    then show ?thesis unfolding find1 by (cases "find_run (key y) (pg_db s)") (auto dest: find_run_key)
  qed
  have pre1: "\<forall>y \<in> set xs. \<exists>r. find_run (key y) (pg_db s1) = Some r \<and> ok y r"
    using other Cons.prems(4) by simp
  have "distinct (map key xs)" using Cons.prems(3) by simp
  from Cons.IH [OF s1(2,3) this pre1, of "Suc n"]
  obtain s2 g where g: "forEach f (enumerate (Suc n) xs) s1 = (Inr (), s2)" "pg_up s2" "pg_inv s2"
    "job_runs (pg_db s2) = map g (job_runs (pg_db s1))" "\<And>r. jr_run_id (g r) = jr_run_id r"
    "\<And>r. g r = r \<or> (\<exists>x \<in> set xs. key x = jr_run_id r \<and> ok x r \<and> (\<exists>k. g r = upd k r))"
    "\<And>x r. x \<in> set xs \<Longrightarrow> find_run (key x) (pg_db s1) = Some r \<Longrightarrow> \<exists>k. g r = upd k r"
    by blast
  note first = mark_first [where key = key and ok = ok and upd = upd and x = x and xs = xs and g = g and n = n, OF upd nk g(6)]
  show ?case
  proof (intro exI [of _ s2] exI [of _ "g \<circ> ?h"] conjI allI ballI impI)
    show "forEach f (enumerate n (x # xs)) s = (Inr (), s2)"
      using g(1) by (simp add: andThen_Inr [where m = "f _", OF s1(1)])
    show "pg_up s2" "pg_inv s2" using g by auto
    show "job_runs (pg_db s2) = map (g \<circ> ?h) (job_runs (pg_db s))" using g(4) s1(4) by simp
    show "jr_run_id ((g \<circ> ?h) q) = jr_run_id q" for q using g(5) h by simp
    show "(g \<circ> ?h) q = q \<or> (\<exists>y \<in> set (x # xs). key y = jr_run_id q \<and> ok y q \<and> (\<exists>k. (g \<circ> ?h) q = upd k q))" for q
      unfolding comp_def by (rule first(1))
    fix y q assume y: "y \<in> set (x # xs)" "find_run (key y) (pg_db s) = Some q"
    show "\<exists>k. (g \<circ> ?h) q = upd k q"
    proof (cases "key y = key x")
      case True
      with y(2) r(1) have "q = r" by simp
      then show ?thesis unfolding comp_def using first(2) find_run_key [OF r(1)] r(2) by blast
    next
      case False
      then have "y \<in> set xs" "?h q = q" using y(1) first(3) find_run_key [OF y(2)] by auto
      then show ?thesis using g(7) other y(2) by simp
    qed
  qed
qed

lemma stale_ids:
  assumes "keys_ok d"
  shows "distinct (map jr_run_id (stale_rows st now th n d))"
    and "r \<in> set (stale_rows st now th n d) \<Longrightarrow> find_run (jr_run_id r) d = Some r \<and> jr_state r = st"
proof -
  show "distinct (map jr_run_id (stale_rows st now th n d))"
    using assms unfolding stale_rows_def keys_ok_def
    by (metis (no_types, lifting) distinct_map distinct_filter distinct_sort distinct_take
        set_filter set_sort set_take_subset inj_on_subset mem_Collect_eq subsetI)
  show "find_run (jr_run_id r) d = Some r \<and> jr_state r = st" if "r \<in> set (stale_rows st now th n d)"
    using that in_find_run [OF assms] by (auto simp: stale_rows_def dest!: in_set_takeD)
qed

lemma stale_rows_map:
  assumes "job_runs e = map g (job_runs d)" "\<And>r. g r = r \<or> (jr_state r \<noteq> st \<and> jr_state (g r) \<noteq> st)"
  shows "stale_rows st now th n e = stale_rows st now th n d"
proof -
  have "filter (\<lambda>r. jr_state r = st \<and> stale now th r) (map g xs) =
        filter (\<lambda>r. jr_state r = st \<and> stale now th r) xs" for xs
  proof (induction xs)
    case (Cons x xs)
    then show ?case using assms(2) [of x] by auto
  qed simp
  with assms(1) show ?thesis by (simp add: stale_rows_def)
qed

abbreviation swept_failed :: "instant \<Rightarrow> run_row \<Rightarrow> run_row" where
  "swept_failed t \<equiv> failed_set t stale_running_error stale_running_status"

abbreviation swept_cancelled :: "instant \<Rightarrow> run_row \<Rightarrow> run_row" where
  "swept_cancelled t \<equiv> cancelled_set t stale_cancelling_error stale_cancelling_status"

lemma sweep_one_running_alone:
  assumes "pg_up s" "pg_inv s"
  shows "\<exists>s'. sweep_one_running alone clock (k, x) s = (Inr (), s') \<and> pg_up s' \<and> pg_inv s' \<and>
    job_runs (pg_db s') = map (\<lambda>q. if jr_run_id q = fst x \<and> jr_state q = RUNNING \<and> fence (snd x) q then swept_failed (clock k) q else q)
      (job_runs (pg_db s))"
  using assms update_runs_keys [of "swept_failed (clock k)" "pg_db s"]
  by (cases x, simp add: sweep_one_running_def markFailed_def andThen_def tryCatch_def exec_ok) (simp add: update_runs_def)

lemma sweep_one_cancelling_alone:
  assumes "pg_up s" "pg_inv s"
  shows "\<exists>s'. sweep_one_cancelling alone clock (k, i) s = (Inr (), s') \<and> pg_up s' \<and> pg_inv s' \<and>
    job_runs (pg_db s') = map (\<lambda>q. if jr_run_id q = i \<and> jr_state q = CANCELLING then swept_cancelled (clock k) q else q)
      (job_runs (pg_db s))"
  using assms update_runs_keys [of "swept_cancelled (clock k)" "pg_db s"]
  by (simp add: sweep_one_cancelling_def markCancelled_def andThen_def tryCatch_def exec_ok) (simp add: update_runs_def)

lemma sweepRunning_alone:
  assumes "pg_up s" "pg_inv s"
  shows "\<exists>s' g. sweepRunning alone clock now th n s = (Inr (), s') \<and> pg_up s' \<and> pg_inv s' \<and>
    job_runs (pg_db s') = map g (job_runs (pg_db s)) \<and> (\<forall>r. jr_run_id (g r) = jr_run_id r) \<and>
    (\<forall>r. g r = r \<or> jr_state r = RUNNING \<and> (\<exists>t. g r = swept_failed t r) \<and>
        jr_run_id r \<in> jr_run_id ` set (stale_rows RUNNING now th n (pg_db s))) \<and>
    (\<forall>r \<in> set (stale_rows RUNNING now th n (pg_db s)). \<exists>t. g r = swept_failed t r)"
proof -
  let ?xs = "map (\<lambda>r. (jr_run_id r, jr_dispatch_id r)) (stale_rows RUNNING now th n (pg_db s))"
  note ids = stale_ids [OF assms(2), where st = RUNNING and now = now and th = th and n = n]
  have pre: "\<forall>x \<in> set ?xs. \<exists>r. find_run (fst x) (pg_db s) = Some r \<and> jr_state r = RUNNING \<and> fence (snd x) r"
    using ids(2) by (auto simp: fence_def)
  have "distinct (map fst ?xs)" using ids(1) by (simp add: comp_def)
  note loop = mark_loop [where f = "sweep_one_running alone clock" and key = fst and n = 0
      and ok = "\<lambda>x r. jr_state r = RUNNING \<and> fence (snd x) r" and upd = "\<lambda>k. swept_failed (clock k)",
      OF _ set_row_keys(3) assms this pre]
  obtain s' g where g: "forEach (sweep_one_running alone clock) (enumerate 0 ?xs) s = (Inr (), s')"
    "pg_up s'" "pg_inv s'" "job_runs (pg_db s') = map g (job_runs (pg_db s))" "\<And>r. jr_run_id (g r) = jr_run_id r"
    "\<And>r. g r = r \<or> (\<exists>x \<in> set ?xs. fst x = jr_run_id r \<and> (jr_state r = RUNNING \<and> fence (snd x) r) \<and>
        (\<exists>k. g r = swept_failed (clock k) r))"
    "\<And>x r. x \<in> set ?xs \<Longrightarrow> find_run (fst x) (pg_db s) = Some r \<Longrightarrow> \<exists>k. g r = swept_failed (clock k) r"
    using loop [OF sweep_one_running_alone] by blast
  have "sweepRunning alone clock now th n s = (Inr (), s')"
    using assms(1) g(1) by (simp add: sweepRunning_def andThen_def tryCatch_def listStaleRunningIds_def exec_ok)
  moreover have "\<exists>t. g r = swept_failed t r" if "r \<in> set (stale_rows RUNNING now th n (pg_db s))" for r
    using g(7) [of "(jr_run_id r, jr_dispatch_id r)" r] ids(2) [OF that] that by auto
  moreover have "g r = r \<or> jr_state r = RUNNING \<and> (\<exists>t. g r = swept_failed t r) \<and>
        jr_run_id r \<in> jr_run_id ` set (stale_rows RUNNING now th n (pg_db s))" for r
    using g(6) [of r] by (auto intro: rev_image_eqI)
  ultimately show ?thesis using g(2-5) by blast
qed

lemma sweepCancelling_alone:
  assumes "pg_up s" "pg_inv s"
  shows "\<exists>s' g. sweepCancelling alone clock now th n s = (Inr (), s') \<and> pg_up s' \<and> pg_inv s' \<and>
    job_runs (pg_db s') = map g (job_runs (pg_db s)) \<and> (\<forall>r. jr_run_id (g r) = jr_run_id r) \<and>
    (\<forall>r. g r = r \<or> jr_state r = CANCELLING \<and> (\<exists>t. g r = swept_cancelled t r) \<and>
        jr_run_id r \<in> jr_run_id ` set (stale_rows CANCELLING now th n (pg_db s))) \<and>
    (\<forall>r \<in> set (stale_rows CANCELLING now th n (pg_db s)). \<exists>t. g r = swept_cancelled t r)"
proof -
  let ?xs = "map jr_run_id (stale_rows CANCELLING now th n (pg_db s))"
  note ids = stale_ids [OF assms(2), where st = CANCELLING and now = now and th = th and n = n]
  have pre: "\<forall>x \<in> set ?xs. \<exists>r. find_run x (pg_db s) = Some r \<and> jr_state r = CANCELLING"
    using ids(2) by auto
  have "distinct (map (\<lambda>x. x) ?xs)" using ids(1) by simp
  note loop = mark_loop [where f = "sweep_one_cancelling alone clock" and key = "\<lambda>x. x" and n = 0
      and ok = "\<lambda>x r. jr_state r = CANCELLING" and upd = "\<lambda>k. swept_cancelled (clock k)",
      OF _ set_row_keys(4) assms this pre]
  obtain s' g where g: "forEach (sweep_one_cancelling alone clock) (enumerate 0 ?xs) s = (Inr (), s')"
    "pg_up s'" "pg_inv s'" "job_runs (pg_db s') = map g (job_runs (pg_db s))" "\<And>r. jr_run_id (g r) = jr_run_id r"
    "\<And>r. g r = r \<or> (\<exists>x \<in> set ?xs. x = jr_run_id r \<and> jr_state r = CANCELLING \<and> (\<exists>k. g r = swept_cancelled (clock k) r))"
    "\<And>x r. x \<in> set ?xs \<Longrightarrow> find_run x (pg_db s) = Some r \<Longrightarrow> \<exists>k. g r = swept_cancelled (clock k) r"
    using loop [OF sweep_one_cancelling_alone] by blast
  have "sweepCancelling alone clock now th n s = (Inr (), s')"
    using assms(1) g(1) by (simp add: sweepCancelling_def andThen_def tryCatch_def listStaleCancellingIds_def exec_ok)
  moreover have "\<exists>t. g r = swept_cancelled t r" if "r \<in> set (stale_rows CANCELLING now th n (pg_db s))" for r
    using g(7) [of "jr_run_id r" r] ids(2) [OF that] that by auto
  moreover have "g r = r \<or> jr_state r = CANCELLING \<and> (\<exists>t. g r = swept_cancelled t r) \<and>
        jr_run_id r \<in> jr_run_id ` set (stale_rows CANCELLING now th n (pg_db s))" for r
    using g(6) [of r] by (auto intro: rev_image_eqI)
  ultimately show ?thesis using g(2-5) by blast
qed

lemma sweep_alone:
  assumes "pg_up s" "pg_inv s"
  shows "\<exists>s' g. sweep alone clock now th n (s, False) = (Inr (), (s', False)) \<and> pg_up s' \<and> pg_inv s' \<and>
    (\<forall>j. find_run j (pg_db s') = map_option g (find_run j (pg_db s))) \<and>
    (\<forall>r \<in> set (stale_rows RUNNING now th n (pg_db s)). \<exists>t. g r = swept_failed t r) \<and>
    (\<forall>r \<in> set (stale_rows CANCELLING now th n (pg_db s)). \<exists>t. g r = swept_cancelled t r) \<and>
    (\<forall>r. jr_run_id r \<notin> jr_run_id ` (set (stale_rows RUNNING now th n (pg_db s)) \<union>
           set (stale_rows CANCELLING now th n (pg_db s))) \<longrightarrow> g r = r)"
proof -
  obtain s1 g where g: "sweepRunning alone clock now th n s = (Inr (), s1)" "pg_up s1" "pg_inv s1"
    "job_runs (pg_db s1) = map g (job_runs (pg_db s))" "\<And>r. jr_run_id (g r) = jr_run_id r"
    "\<And>r. g r = r \<or> jr_state r = RUNNING \<and> (\<exists>t. g r = swept_failed t r) \<and>
        jr_run_id r \<in> jr_run_id ` set (stale_rows RUNNING now th n (pg_db s))"
    "\<And>r. r \<in> set (stale_rows RUNNING now th n (pg_db s)) \<Longrightarrow> \<exists>t. g r = swept_failed t r"
    using sweepRunning_alone [OF assms, of clock now th n] by blast
  obtain s2 h where h: "sweepCancelling alone clock now th n s1 = (Inr (), s2)" "pg_up s2" "pg_inv s2"
    "job_runs (pg_db s2) = map h (job_runs (pg_db s1))" "\<And>r. jr_run_id (h r) = jr_run_id r"
    "\<And>r. h r = r \<or> jr_state r = CANCELLING \<and> (\<exists>t. h r = swept_cancelled t r) \<and>
        jr_run_id r \<in> jr_run_id ` set (stale_rows CANCELLING now th n (pg_db s1))"
    "\<And>r. r \<in> set (stale_rows CANCELLING now th n (pg_db s1)) \<Longrightarrow> \<exists>t. h r = swept_cancelled t r"
    using sweepCancelling_alone [OF g(2,3), of clock now th n] by blast
  have same: "stale_rows CANCELLING now th n (pg_db s1) = stale_rows CANCELLING now th n (pg_db s)"
  proof (rule stale_rows_map [OF g(4)])
    fix r show "g r = r \<or> (jr_state r \<noteq> CANCELLING \<and> jr_state (g r) \<noteq> CANCELLING)"
      using g(6) [of r] by (auto simp: set_row_states)
  qed
  have k: "jr_run_id ((h \<circ> g) r) = jr_run_id r" for r using g(5) h(5) by simp
  have "find_run j (pg_db s2) = map_option (h \<circ> g) (find_run j (pg_db s))" for j
    using find_map_key [of jr_run_id "h \<circ> g", OF k] h(4) g(4) by (simp add: find_run_def)
  moreover have "\<exists>t. (h \<circ> g) r = swept_failed t r" if "r \<in> set (stale_rows RUNNING now th n (pg_db s))" for r
  proof -
    from g(7) [OF that] obtain t where t: "g r = swept_failed t r" by blast
    then have "h (g r) = g r" using h(6) [of "g r"] by (auto simp: set_row_states)
    with t show ?thesis by auto
  qed
  moreover have "\<exists>t. (h \<circ> g) r = swept_cancelled t r" if "r \<in> set (stale_rows CANCELLING now th n (pg_db s))" for r
  proof -
    have "jr_state r = CANCELLING" using stale_ids(2) [OF assms(2) that] by simp
    then have "g r = r" using g(6) [of r] by auto
    with h(7) same that show ?thesis by simp
  qed
  moreover have "(h \<circ> g) r = r" if "jr_run_id r \<notin> jr_run_id ` (set (stale_rows RUNNING now th n (pg_db s)) \<union>
           set (stale_rows CANCELLING now th n (pg_db s)))" for r
    using g(6) [of r] h(6) [of r] that unfolding same by auto
  moreover have "sweep alone clock now th n (s, False) = (Inr (), (s2, False))"
    by (simp add: sweep_def andThen_Inr [where m = "sweepRunning _ _ _ _ _", OF g(1)] h(1))
  ultimately show ?thesis using h(2,3) by blast
qed

text \<open>What a sweep may do to the tables, whatever statements fail.\<close>

definition finalised :: "run_row option \<Rightarrow> run_row option \<Rightarrow> bool" where
  "finalised before after \<longleftrightarrow> after = before \<or>
     (\<exists>r t. before = Some r \<and> ((jr_state r = RUNNING \<and> after = Some (swept_failed t r)) \<or>
                              (jr_state r = CANCELLING \<and> after = Some (swept_cancelled t r))))"

definition only_finalises :: "pg \<Rightarrow> pg \<Rightarrow> bool" where
  "only_finalises s s' \<longleftrightarrow> (\<forall>j. finalised (find_run j (pg_db s)) (find_run j (pg_db s')))"

lemma finalised_refl [simp]: "finalised x x"
  by (simp add: finalised_def)

lemma finalised_trans: "finalised x y \<Longrightarrow> finalised y z \<Longrightarrow> finalised x z"
proof -
  assume a: "finalised x y" and b: "finalised y z"
  show ?thesis
  proof (cases "y = x \<or> z = y")
    case False
    with a obtain r t where y: "y = Some (swept_failed t r) \<or> y = Some (swept_cancelled t r)"
      by (auto simp: finalised_def)
    from False b have "\<exists>q. y = Some q \<and> jr_state q \<in> {RUNNING, CANCELLING}" by (auto simp: finalised_def)
    with y show ?thesis by auto
  qed (use a b in auto)
qed

lemma only_finalises_refl: "reflp only_finalises"
  by (simp add: reflp_def only_finalises_def)

lemma only_finalises_trans: "transp only_finalises"
  unfolding transp_def only_finalises_def using finalised_trans by blast

lemma exec_only_finalises:
  assumes "\<And>d j. finalised (find_run j d) (find_run j (snd (f d)))"
  shows "keeps only_finalises (exec f)"
  unfolding keeps_def only_finalises_def
proof (intro allI)
  fix s j
  show "finalised (find_run j (pg_db s)) (find_run j (pg_db (snd (exec f s))))"
    using exec_db [of f s] assms [of j "pg_db s"] by (elim disjE) simp_all
qed

lemma markFailed_finalises: "keeps only_finalises (markFailed i t stale_running_error stale_running_status d)"
  unfolding markFailed_def
proof (intro keeps_andThen keeps_ret only_finalises_trans only_finalises_refl exec_only_finalises)
  fix e j
  show "finalised (find_run j e)
      (find_run j (snd (update_runs (\<lambda>r. jr_run_id r = i \<and> jr_state r = RUNNING \<and> fence d r) (swept_failed t) e)))"
    by (cases "find_run j e") (auto simp: update_runs_find finalised_def)
qed

lemma markCancelled_finalises: "keeps only_finalises (markCancelled i t stale_cancelling_error stale_cancelling_status)"
  unfolding markCancelled_def
proof (intro keeps_andThen keeps_ret only_finalises_trans only_finalises_refl exec_only_finalises)
  fix e j
  show "finalised (find_run j e)
      (find_run j (snd (update_runs (\<lambda>r. jr_run_id r = i \<and> jr_state r = CANCELLING) (swept_cancelled t) e)))"
    by (cases "find_run j e") (auto simp: update_runs_find finalised_def)
qed

lemmas finalises_rules = keeps_andThen keeps_tryCatch keeps_ret keeps_forEach
  only_finalises_trans only_finalises_refl markFailed_finalises markCancelled_finalises

lemma exec_read_finalises: "keeps only_finalises (exec (\<lambda>d. (f d, d)))"
  by (rule exec_only_finalises) simp

lemma meanwhile_alone_finalises: "keeps only_finalises (meanwhile (\<lambda>s. s))"
  by (simp add: keeps_def meanwhile_def only_finalises_def)

lemma sweep_parts_finalise:
  "keeps only_finalises (sweepRunning alone clock now th n)"
  "keeps only_finalises (sweepCancelling alone clock now th n)"
proof -
  have one: "keeps only_finalises (sweep_one_running alone clock x)" for x
    by (cases x) (simp add: sweep_one_running_def, intro finalises_rules meanwhile_alone_finalises)
  have two: "keeps only_finalises (sweep_one_cancelling alone clock x)" for x
    by (cases x) (simp add: sweep_one_cancelling_def, intro finalises_rules meanwhile_alone_finalises)
  have opt: "keeps only_finalises (case v of None \<Rightarrow> ret () | Some rows \<Rightarrow> forEach f (enumerate 0 rows))"
    if "\<And>x. keeps only_finalises (f x)" for v and f :: "nat \<times> 'x \<Rightarrow> (pg, unit) eff"
    by (cases v) (simp_all add: keeps_ret keeps_forEach only_finalises_refl only_finalises_trans that)
  show "keeps only_finalises (sweepRunning alone clock now th n)"
    unfolding sweepRunning_def listStaleRunningIds_def
    by (intro finalises_rules exec_read_finalises opt one)
  show "keeps only_finalises (sweepCancelling alone clock now th n)"
    unfolding sweepCancelling_def listStaleCancellingIds_def
    by (intro finalises_rules exec_read_finalises opt two)
qed

text \<open>No part of a sweep throws.\<close>

definition quiet :: "('s, 'a) eff \<Rightarrow> bool" where
  "quiet m \<longleftrightarrow> (\<forall>s. \<exists>a s'. m s = (Inr a, s'))"

lemma quiet_ret: "quiet (ret a)"
  by (simp add: quiet_def)

lemma quiet_andThen: "quiet m \<Longrightarrow> (\<And>a. quiet (k a)) \<Longrightarrow> quiet (andThen m k)"
  unfolding quiet_def by (metis andThen_Inr)

lemma quiet_tryCatch: "(\<And>e. quiet (h e)) \<Longrightarrow> quiet (tryCatch m h)"
  unfolding quiet_def tryCatch_def by (auto split: prod.splits sum.splits)

lemma quiet_forEach: "(\<And>x. quiet (f x)) \<Longrightarrow> quiet (forEach f xs)"
  by (induction xs) (auto intro: quiet_ret quiet_andThen)

lemma sweep_parts_quiet: "quiet (sweepRunning others clock now th n)" "quiet (sweepCancelling others clock now th n)"
proof -
  have m: "quiet (meanwhile f)" for f by (simp add: quiet_def)
  have one: "quiet (sweep_one_running others clock x)" for x
    by (cases x) (simp add: sweep_one_running_def, intro quiet_andThen quiet_tryCatch quiet_ret m)
  have two: "quiet (sweep_one_cancelling others clock x)" for x
    by (cases x) (simp add: sweep_one_cancelling_def, intro quiet_andThen quiet_tryCatch quiet_ret m)
  have opt: "quiet (case v of None \<Rightarrow> ret () | Some rows \<Rightarrow> forEach f (enumerate 0 rows))"
    if "\<And>x. quiet (f x)" for v and f :: "nat \<times> 'x \<Rightarrow> (pg, unit) eff"
    by (cases v) (simp_all add: quiet_ret quiet_forEach that)
  show "quiet (sweepRunning others clock now th n)" "quiet (sweepCancelling others clock now th n)"
    unfolding sweepRunning_def sweepCancelling_def
    by (intro quiet_andThen quiet_tryCatch quiet_ret opt one two)+
qed

section \<open>Sample data\<close>

text \<open>
  A run that started long ago and whose worker sent a heartbeat just now, and a cancellation that
  never completed.
\<close>

definition stale_pg :: pg where
  "stale_pg = \<lparr>pg_db = \<lparr>job_runs =
     [(blank_run ''slow'' 1 RUNNING (Some ''d1''))\<lparr>jr_started_at := Some 10, jr_heartbeat_at := Some 2000\<rparr>,
      (blank_run ''stuck'' 1 CANCELLING (Some ''d2''))\<lparr>jr_started_at := Some 20\<rparr>], job_instances = []\<rparr>,
     pg_faults = []\<rparr>"

lemma stale_pg_ok: "pg_up stale_pg" "pg_inv stale_pg"
  by (simp_all add: stale_pg_def keys_ok_def blank_run_def)

section \<open>Properties\<close>

text \<open>
  C32. A sweep with nobody else at work finalises exactly the stale runs of its two batches: the
  stale \<open>RUNNING\<close> runs become \<open>FAILED\<close> with a non-retryable error, the stale \<open>CANCELLING\<close> runs become
  \<open>CANCELLED\<close>, all other runs are unchanged and the flag is free again. Staleness is the age of
  \<open>started_at\<close>; a current heartbeat does not protect a run.
\<close>

theorem sweep_finalises:
  assumes "pg_up s" and "pg_inv s"
  shows "\<exists>s'. sweep (\<lambda>_ d. d) clock now th n (s, False) = (Inr (), (s', False)) \<and>
    (\<forall>r \<in> set (stale_rows RUNNING now th n (pg_db s)). \<exists>t.
       find_run (jr_run_id r) (pg_db s') = Some (failed_set t stale_running_error stale_running_status r)) \<and>
    (\<forall>r \<in> set (stale_rows CANCELLING now th n (pg_db s)). \<exists>t.
       find_run (jr_run_id r) (pg_db s') = Some (cancelled_set t stale_cancelling_error stale_cancelling_status r)) \<and>
    (\<forall>j. j \<notin> jr_run_id ` (set (stale_rows RUNNING now th n (pg_db s)) \<union> set (stale_rows CANCELLING now th n (pg_db s))) \<longrightarrow>
       find_run j (pg_db s') = find_run j (pg_db s))"
proof -
  let ?A = "set (stale_rows RUNNING now th n (pg_db s))" and ?B = "set (stale_rows CANCELLING now th n (pg_db s))"
  obtain s' g where s': "sweep alone clock now th n (s, False) = (Inr (), (s', False))"
    and v: "\<And>j. find_run j (pg_db s') = map_option g (find_run j (pg_db s))"
    and A: "\<And>r. r \<in> ?A \<Longrightarrow> \<exists>t. g r = swept_failed t r" and B: "\<And>r. r \<in> ?B \<Longrightarrow> \<exists>t. g r = swept_cancelled t r"
    and N: "\<And>r. jr_run_id r \<notin> jr_run_id ` (?A \<union> ?B) \<Longrightarrow> g r = r"
    using sweep_alone [OF assms, of clock now th n] by blast
  have "\<exists>t. find_run (jr_run_id r) (pg_db s') = Some (swept_failed t r)" if "r \<in> ?A" for r
    using A [OF that] stale_ids(2) [OF assms(2) that] by (auto simp: v)
  moreover have "\<exists>t. find_run (jr_run_id r) (pg_db s') = Some (swept_cancelled t r)" if "r \<in> ?B" for r
    using B [OF that] stale_ids(2) [OF assms(2) that] by (auto simp: v)
  moreover have "find_run j (pg_db s') = find_run j (pg_db s)" if "j \<notin> jr_run_id ` (?A \<union> ?B)" for j
    using that N by (cases "find_run j (pg_db s)") (auto simp: v dest: find_run_key)
  ultimately show ?thesis using s' by blast
qed

text \<open>The sample runs at time 2000 with a threshold of 1000 milliseconds.\<close>

theorem sweep_finalises_witness:
  "\<exists>s' q. sweep (\<lambda>_ d. d) (\<lambda>_. 2000) 2000 1000 50 (stale_pg, False) = (Inr (), (s', False)) \<and>
     find_run ''slow'' (pg_db s') = Some q \<and> jr_state q = FAILED"
proof -
  let ?r = "(blank_run ''slow'' 1 RUNNING (Some ''d1''))\<lparr>jr_started_at := Some 10, jr_heartbeat_at := Some 2000\<rparr>"
  have "?r \<in> set (stale_rows RUNNING 2000 1000 50 (pg_db stale_pg))" "jr_run_id ?r = ''slow''"
    by (simp_all add: stale_rows_def stale_pg_def stale_def blank_run_def)
  then show ?thesis using sweep_finalises [OF stale_pg_ok, of "\<lambda>_. 2000" 2000 1000 50]
    by (metis set_row_states(3))
qed

text \<open>
  A sweep never throws and always frees its flag, and whichever statements fail it changes runs
  only from \<open>RUNNING\<close> to \<open>FAILED\<close> and from \<open>CANCELLING\<close> to \<open>CANCELLED\<close>.
\<close>

lemma sweep_robust:
  "\<exists>s'. sweep (\<lambda>_ d. d) clock now th n (s, False) = (Inr (), (s', False)) \<and> only_finalises s s'"
proof -
  obtain s1 where s1: "sweepRunning alone clock now th n s = (Inr (), s1)"
    using sweep_parts_quiet(1) unfolding quiet_def by fastforce
  obtain s2 where s2: "sweepCancelling alone clock now th n s1 = (Inr (), s2)"
    using sweep_parts_quiet(2) unfolding quiet_def by fastforce
  have "only_finalises s s1" by (rule keepsD [OF sweep_parts_finalise(1) s1])
  moreover have "only_finalises s1 s2" by (rule keepsD [OF sweep_parts_finalise(2) s2])
  ultimately have "only_finalises s s2" using only_finalises_trans by (blast dest: transpD)
  moreover have "sweep alone clock now th n (s, False) = (Inr (), (s2, False))"
    by (simp add: sweep_def andThen_Inr [where m = "sweepRunning _ _ _ _ _", OF s1] s2)
  ultimately show ?thesis by blast
qed



end
