(* ===== verification/Worker_Loop.thy ===== *)
theory Worker_Loop
  imports Worker_Run
begin

text \<open>
  How runs reach a worker: the poll loop of the pull worker (\<open>src/src/workers/pollLoop.js\<close>) with its
  table of owned runs and the heartbeat, and the push dispatcher
  (\<open>src/src/services/runDispatcher.js\<close>). In-flight promises are numbered; the step relation
  interleaves the poll, the promises and other users of the database.
\<close>

section \<open>The poll loop\<close>

record poller =
  pl_active :: "(nat \<times> string) list"
  pl_owned :: "(string \<times> string) list"
  pl_next :: nat

definition track :: "string \<times> string \<Rightarrow> poller \<Rightarrow> poller" where
  "track claim p = (case claim of (runId, dispatchId) \<Rightarrow>
     p\<lparr>pl_owned := AList.update runId dispatchId (pl_owned p), pl_active := pl_active p @ [(pl_next p, runId)],
       pl_next := Suc (pl_next p)\<rparr>)"

text \<open>The \<open>cleanup\<close> of promise \<open>k\<close> of run \<open>runId\<close>.\<close>

definition cleanup :: "nat \<Rightarrow> string \<Rightarrow> poller \<Rightarrow> poller" where
  "cleanup k runId p =
     p\<lparr>pl_owned := AList.delete runId (pl_owned p), pl_active := filter (\<lambda>a. a \<noteq> (k, runId)) (pl_active p)\<rparr>"

definition freeSlots :: "nat \<Rightarrow> poller \<Rightarrow> int" where
  "freeSlots maxConcurrency p = int maxConcurrency - int (length (pl_active p))"

text \<open>The claim of \<open>pollOnce\<close> and what follows it; a failing claim is logged.\<close>

definition poll_claim ::
  "(string \<Rightarrow> bool) \<Rightarrow> (nat \<Rightarrow> string) \<Rightarrow> nat \<Rightarrow> instant \<Rightarrow> pg \<times> poller \<Rightarrow> (string \<times> string) list \<times> pg \<times> poller" where
  "poll_claim locked uuid limit t = (\<lambda>(s, p).
     case claimNextQueued locked uuid limit t s of
       (Inl e, s') \<Rightarrow> ([], s', p)
     | (Inr claimed, s') \<Rightarrow> (claimed, s', fold track claimed p))"

definition pollOnce ::
  "nat \<Rightarrow> (string \<Rightarrow> bool) \<Rightarrow> (nat \<Rightarrow> string) \<Rightarrow> instant \<Rightarrow> pg \<times> poller \<Rightarrow> (string \<times> string) list \<times> pg \<times> poller" where
  "pollOnce maxConcurrency locked uuid t = (\<lambda>(s, p).
     if freeSlots maxConcurrency p \<le> 0 then ([], s, p)
     else poll_claim locked uuid (nat (freeSlots maxConcurrency p)) t (s, p))"

text \<open>\<open>heartbeatOnce\<close>; the state is the database and the runs \<open>executor.cancel\<close> was called for.\<close>

definition heartbeat_one :: "(nat \<Rightarrow> instant) \<Rightarrow> nat \<Rightarrow> string \<times> string \<Rightarrow> (pg \<times> string list, unit) eff" where
  "heartbeat_one clock k = (\<lambda>(runId, dispatchId). \<lambda>(s, cancelled).
     case touchHeartbeat runId (Some dispatchId) (clock k) s of
       (Inl e, s') \<Rightarrow> (Inr (), s', cancelled)
     | (Inr st, s') \<Rightarrow> (Inr (), s', if st = Some CANCELLING then cancelled @ [runId] else cancelled))"

definition heartbeatOnce :: "(nat \<Rightarrow> instant) \<Rightarrow> poller \<Rightarrow> (pg \<times> string list, unit) eff" where
  "heartbeatOnce clock p = forEach (\<lambda>(k, e). heartbeat_one clock k e) (enumerate 0 (pl_owned p))"

text \<open>
  The loop of \<open>start\<close>: one \<open>pollOnce\<close> at a time. \<open>lp_polling\<close> holds the limit of a claim under way;
  promises may settle while it is. Other processes change the tables at will.
\<close>

record loop =
  lp_db :: pg
  lp_poller :: poller
  lp_polling :: "nat option"

inductive loop_step :: "nat \<Rightarrow> loop \<Rightarrow> loop \<Rightarrow> bool" for maxConcurrency where
  poll_begins: "lp_polling l = None \<Longrightarrow> freeSlots maxConcurrency (lp_poller l) > 0 \<Longrightarrow>
     loop_step maxConcurrency l (l\<lparr>lp_polling := Some (nat (freeSlots maxConcurrency (lp_poller l)))\<rparr>)"
| poll_ends: "lp_polling l = Some limit \<Longrightarrow>
     poll_claim locked uuid limit t (lp_db l, lp_poller l) = (claimed, s, p) \<Longrightarrow>
     loop_step maxConcurrency l \<lparr>lp_db = s, lp_poller = p, lp_polling = None\<rparr>"
| promise_settles: "(k, runId) \<in> set (pl_active (lp_poller l)) \<Longrightarrow>
     loop_step maxConcurrency l (l\<lparr>lp_poller := cleanup k runId (lp_poller l)\<rparr>)"
| others_write: "loop_step maxConcurrency l (l\<lparr>lp_db := s\<rparr>)"

text \<open>
  \<open>start\<close> and \<open>stop\<close> with the timers they keep: \<open>pt_armed\<close> the pending time-outs by handle,
  \<open>pt_waiting\<close> the callbacks whose \<open>pollOnce\<close> has not returned.
\<close>

record poll_timers =
  pt_stopped :: bool
  pt_pollTimer :: "nat option"
  pt_armed :: "nat list"
  pt_waiting :: nat
  pt_heartbeat :: bool
  pt_handle :: nat

definition scheduleNext :: "poll_timers \<Rightarrow> poll_timers" where
  "scheduleNext t = t\<lparr>pt_pollTimer := Some (pt_handle t), pt_armed := pt_handle t # pt_armed t, pt_handle := Suc (pt_handle t)\<rparr>"

definition poll_start :: "poll_timers \<Rightarrow> poll_timers" where
  "poll_start t = (if \<not> pt_stopped t then t else (scheduleNext (t\<lparr>pt_stopped := False\<rparr>))\<lparr>pt_heartbeat := True\<rparr>)"

definition poll_stop :: "poll_timers \<Rightarrow> poll_timers" where
  "poll_stop t = t\<lparr>pt_stopped := True, pt_heartbeat := False, pt_pollTimer := None,
     pt_armed := (case pt_pollTimer t of Some h \<Rightarrow> removeAll h (pt_armed t) | None \<Rightarrow> pt_armed t)\<rparr>"

text \<open>A time-out fires; the \<open>pollOnce\<close> of a callback returns.\<close>

definition poll_fires :: "nat \<Rightarrow> poll_timers \<Rightarrow> poll_timers" where
  "poll_fires h t = (if h \<in> set (pt_armed t) then t\<lparr>pt_armed := removeAll h (pt_armed t), pt_waiting := Suc (pt_waiting t)\<rparr> else t)"

definition poll_returns :: "poll_timers \<Rightarrow> poll_timers" where
  "poll_returns t = (case pt_waiting t of 0 \<Rightarrow> t | Suc n \<Rightarrow>
     (let t' = t\<lparr>pt_waiting := n\<rparr> in if pt_stopped t then t' else scheduleNext t'))"

definition fresh_timers :: poll_timers where
  "fresh_timers = \<lparr>pt_stopped = True, pt_pollTimer = None, pt_armed = [], pt_waiting = 0, pt_heartbeat = False, pt_handle = 0\<rparr>"

definition fresh_poller :: poller where
  "fresh_poller = \<lparr>pl_active = [], pl_owned = [], pl_next = 0\<rparr>"

definition fresh_loop :: "pg \<Rightarrow> loop" where
  "fresh_loop s = \<lparr>lp_db = s, lp_poller = fresh_poller, lp_polling = None\<rparr>"

section \<open>The dispatcher\<close>

record dispatch_cfg =
  dc_intervalMs :: nat
  dc_batchSize :: nat
  dc_backoffThreshold :: nat
  dc_maxBackoffMs :: nat

text \<open>\<open>dp_timer\<close> is the delay of the scheduled pass, \<open>None\<close> after \<open>stop\<close>.\<close>

record 'db dispatcher =
  dp_worker :: "'db worker"
  dp_running :: bool
  dp_consecutiveFailures :: nat
  dp_timer :: "nat option"

definition backoffMs :: "dispatch_cfg \<Rightarrow> nat \<Rightarrow> nat" where
  "backoffMs cfg failures =
     (if failures < dc_backoffThreshold cfg then dc_intervalMs cfg
      else min (dc_intervalMs cfg * 2 ^ (failures - dc_backoffThreshold cfg)) (dc_maxBackoffMs cfg))"

definition dispatcher_start :: "dispatch_cfg \<Rightarrow> 'db dispatcher \<Rightarrow> 'db dispatcher" where
  "dispatcher_start cfg d = d\<lparr>dp_timer := Some (dc_intervalMs cfg)\<rparr>"

definition dispatcher_stop :: "'db dispatcher \<Rightarrow> 'db dispatcher" where
  "dispatcher_stop d = d\<lparr>dp_timer := None\<rparr>"

text \<open>The loop over the batch: whether any run was executed without an exception.\<close>

fun dispatch_batch :: "'db worker_env \<Rightarrow> string list \<Rightarrow> 'db worker \<Rightarrow> bool \<times> 'db worker" where
  "dispatch_batch env [] w = (False, w)"
| "dispatch_batch env (runId # rest) w =
     (let (r, w1) = executeRun env runId w; (anySuccess, w2) = dispatch_batch env rest w1 in
      (\<not> isl r \<or> anySuccess, w2))"

text \<open>\<open>stopped\<close> says that \<open>stop\<close> was called while the pass ran.\<close>

definition pass :: "dispatch_cfg \<Rightarrow> 'db worker_env \<Rightarrow> bool \<Rightarrow> 'db dispatcher \<Rightarrow> 'db dispatcher" where
  "pass cfg env stopped d =
     (if dp_running d then d\<lparr>dp_timer := Some (dc_intervalMs cfg)\<rparr>
      else
        let (r, w) = store_call env (rs_listQueuedRunIds (we_store env) (dc_batchSize cfg)) (dp_worker d);
            (failures, w') = (case r of
               Inl e \<Rightarrow> (dp_consecutiveFailures d + 1, w)
             | Inr runIds \<Rightarrow>
                 (let (anySuccess, w2) = dispatch_batch env runIds w in
                  (if anySuccess then 0
                   else if runIds \<noteq> [] then dp_consecutiveFailures d + 1 else dp_consecutiveFailures d, w2)));
            timer = (if stopped then None else dp_timer d) in
        \<lparr>dp_worker = w', dp_running = False, dp_consecutiveFailures = failures,
         dp_timer = (case timer of None \<Rightarrow> None | Some _ \<Rightarrow> Some (backoffMs cfg failures))\<rparr>)"

section \<open>Lemmas on the loop\<close>

text \<open>
  One chain: at most one pending time-out or waiting callback, and the pending one is the one \<open>stop\<close>
  would clear. Time-outs, returns and \<open>stop\<close> keep it, and \<open>start\<close> does when no callback waits.
\<close>

definition one_chain :: "poll_timers \<Rightarrow> bool" where
  "one_chain t \<longleftrightarrow> length (pt_armed t) + pt_waiting t \<le> 1 \<and>
     (\<forall>h \<in> set (pt_armed t). pt_pollTimer t = Some h \<and> \<not> pt_stopped t) \<and> (pt_heartbeat t \<longleftrightarrow> \<not> pt_stopped t)"

lemma one_chain_fresh: "one_chain fresh_timers"
  by (simp add: one_chain_def fresh_timers_def)

lemma one_chain_fires: "one_chain t \<Longrightarrow> one_chain (poll_fires h t)"
  by (cases "pt_armed t") (auto simp: one_chain_def poll_fires_def)

lemma one_chain_returns: "one_chain t \<Longrightarrow> one_chain (poll_returns t)"
  by (auto simp: one_chain_def poll_returns_def scheduleNext_def Let_def split: nat.split)

lemma stop_silences: "one_chain t \<Longrightarrow> one_chain (poll_stop t) \<and> pt_armed (poll_stop t) = [] \<and> \<not> pt_heartbeat (poll_stop t)"
  by (cases "pt_armed t") (auto simp: one_chain_def poll_stop_def split: option.split)

lemma one_chain_start: "one_chain t \<Longrightarrow> pt_waiting t = 0 \<Longrightarrow> one_chain (poll_start t)"
  by (cases "pt_armed t") (auto simp: one_chain_def poll_start_def scheduleNext_def)

text \<open>A \<open>stop\<close> and \<open>start\<close> while \<open>pollOnce\<close> is under way leaves two chains of polls behind.\<close>

lemma restart_doubles_poll:
  "length (pt_armed (poll_returns (poll_start (poll_stop (poll_fires 0 (poll_start fresh_timers)))))) = 2"
  by (simp add: fresh_timers_def poll_start_def poll_stop_def poll_fires_def poll_returns_def scheduleNext_def)

lemma claim_loop_length: "claim_loop uuid t i ids s = (Inr cl, s') \<Longrightarrow> length cl = length ids"
  by (induction uuid t i ids arbitrary: s cl s' rule: claim_loop.induct) (auto elim!: andThen_cases)

lemma transaction_Inr: "transaction body s = (Inr a, s') \<Longrightarrow> \<exists>s1 s2. body s1 = (Inr a, s2)"
  by (auto simp: transaction_def andThen_def split: prod.splits sum.splits)

lemma claimNextQueued_length:
  assumes "claimNextQueued locked uuid n t s = (Inr cl, s')"
  shows "length cl \<le> n"
proof -
  obtain s1 s2 where "andThen (exec (\<lambda>d. (queued_candidates locked n d, d))) (claim_loop uuid t 0) s1 = (Inr cl, s2)"
    using assms unfolding claimNextQueued_def by (elim andThen_cases) (auto dest!: transaction_Inr)
  then obtain d s3 where "claim_loop uuid t 0 (queued_candidates locked n d) s3 = (Inr cl, s2)"
    by (auto elim!: andThen_cases simp: exec_def split: list.splits bool.splits)
  from claim_loop_length [OF this] candidates_length show ?thesis by metis
qed

definition poller_ok :: "poller \<Rightarrow> bool" where
  "poller_ok p \<longleftrightarrow> distinct (map fst (pl_active p)) \<and> list_all (\<lambda>a. fst a < pl_next p) (pl_active p) \<and>
     distinct (map fst (pl_owned p)) \<and> fst ` set (pl_owned p) \<subseteq> snd ` set (pl_active p)"

definition loop_ok :: "nat \<Rightarrow> loop \<Rightarrow> bool" where
  "loop_ok m l \<longleftrightarrow> poller_ok (lp_poller l) \<and>
     length (pl_active (lp_poller l)) + (case lp_polling l of None \<Rightarrow> 0 | Some n \<Rightarrow> n) \<le> m"

text \<open>The owned runs by their keys.\<close>

definition owned_ids :: "poller \<Rightarrow> string list" where
  "owned_ids p = map fst (pl_owned p)"

lemma poller_ok_iff:
  "poller_ok p \<longleftrightarrow> distinct (map fst (pl_active p)) \<and> list_all (\<lambda>a. fst a < pl_next p) (pl_active p) \<and>
     distinct (owned_ids p) \<and> set (owned_ids p) \<subseteq> snd ` set (pl_active p)"
  by (simp add: poller_ok_def owned_ids_def)

lemma poller_ok_track: "poller_ok p \<Longrightarrow> poller_ok (track c p)"
proof (cases c)
  case (Pair i d)
  assume ok: "poller_ok p"
  have o: "owned_ids (track c p) = (if i \<in> set (owned_ids p) then owned_ids p else owned_ids p @ [i])"
    by (simp add: Pair track_def owned_ids_def update_keys)
  have a: "pl_active (track c p) = pl_active p @ [(pl_next p, i)]" "pl_next (track c p) = Suc (pl_next p)"
    by (simp_all add: Pair track_def)
  show ?thesis using ok unfolding poller_ok_iff o a by (auto simp: list_all_iff less_Suc_eq)
qed

lemma poller_ok_cleanup: "poller_ok p \<Longrightarrow> poller_ok (cleanup k i p)"
proof -
  assume ok: "poller_ok p"
  have o: "owned_ids (cleanup k i p) = removeAll i (owned_ids p)"
    by (simp add: cleanup_def owned_ids_def delete_keys)
  have keep: "x \<in> snd ` set (pl_active p) \<Longrightarrow> x \<noteq> i \<Longrightarrow> x \<in> snd ` set (pl_active (cleanup k i p))" for x
    by (force simp: cleanup_def)
  have "set (owned_ids (cleanup k i p)) \<subseteq> snd ` set (pl_active (cleanup k i p))"
  proof
    fix x assume "x \<in> set (owned_ids (cleanup k i p))"
    then have "x \<in> set (owned_ids p)" "x \<noteq> i" unfolding o by auto
    then show "x \<in> snd ` set (pl_active (cleanup k i p))" using ok by (intro keep) (auto simp: poller_ok_iff)
  qed
  then show ?thesis using ok unfolding poller_ok_iff o
    by (auto simp: cleanup_def list_all_iff distinct_map inj_on_def distinct_removeAll)
qed

lemma track_length: "length (pl_active (track c p)) = Suc (length (pl_active p))"
  by (cases c) (simp add: track_def)

lemma tracks: "poller_ok p \<Longrightarrow> poller_ok (fold track cl p) \<and> length (pl_active (fold track cl p)) = length (pl_active p) + length cl"
  by (induction cl arbitrary: p) (auto simp: poller_ok_track track_length)

lemma poll_claim_ok:
  assumes "poller_ok p" "poll_claim locked uuid limit t (s, p) = (cl, s', p')"
  shows "poller_ok p' \<and> length (pl_active p') \<le> length (pl_active p) + limit"
proof (cases "claimNextQueued locked uuid limit t s")
  case (Pair r s1)
  then show ?thesis
    using assms tracks [OF assms(1)] claimNextQueued_length [of locked uuid limit t s]
    by (cases r) (auto simp: poll_claim_def)
qed

lemma loop_ok_step: "loop_step m l l' \<Longrightarrow> loop_ok m l \<Longrightarrow> loop_ok m l'"
proof (induction rule: loop_step.induct)
  case (poll_begins l)
  then show ?case by (simp add: loop_ok_def freeSlots_def nat_diff_distrib)
next
  case (poll_ends l limit locked uuid t claimed s p)
  then show ?case using poll_claim_ok [OF _ poll_ends(2)] by (auto simp: loop_ok_def)
next
  case (promise_settles k runId l)
  have "length (pl_active (cleanup k runId (lp_poller l))) \<le> length (pl_active (lp_poller l))" by (simp add: cleanup_def)
  then show ?case using promise_settles(2) poller_ok_cleanup by (fastforce simp: loop_ok_def)
next
  case (others_write l s)
  then show ?case by (simp add: loop_ok_def)
qed

lemma loop_ok_reachable: "(loop_step m)\<^sup>*\<^sup>* (fresh_loop s) l \<Longrightarrow> loop_ok m l"
proof (induction rule: rtranclp_induct)
  case base
  show ?case by (simp add: loop_ok_def fresh_loop_def fresh_poller_def poller_ok_def)
qed (rule loop_ok_step)

section \<open>Lemmas on draining the queue\<close>

definition queued_rows :: "pg \<Rightarrow> run_row list" where
  "queued_rows s = filter (\<lambda>r. jr_state r = QUEUED) (job_runs (pg_db s))"

definition queued_ids :: "pg \<Rightarrow> string set" where
  "queued_ids s = {i. \<exists>r. find_run i (pg_db s) = Some r \<and> jr_state r = QUEUED}"

lemma queued_ids_rows: "pg_inv s \<Longrightarrow> queued_ids s = jr_run_id ` set (queued_rows s)"
  unfolding queued_ids_def queued_rows_def using find_run_key find_run_in in_find_run by fastforce

lemma queued_card: "pg_inv s \<Longrightarrow> card (queued_ids s) = length (queued_rows s)"
proof -
  assume k: "pg_inv s"
  then have "distinct (map jr_run_id (queued_rows s))"
    by (auto simp: queued_rows_def keys_ok_def distinct_map inj_on_def)
  then show ?thesis unfolding queued_ids_rows [OF k] by (metis distinct_card length_map set_map)
qed

lemma candidates_all: "length (queued_candidates (\<lambda>_. False) n (pg_db s)) = min n (length (queued_rows s))"
  by (simp add: queued_candidates_def queued_rows_def)

text \<open>A claim with nothing locked takes that many runs out of the queue.\<close>

lemma claim_shrinks:
  assumes "pg_up s" "pg_inv s" "claimNextQueued (\<lambda>_. False) uuid n t s = (Inr cl, s')"
  shows "queued_ids s' = queued_ids s - fst ` set cl" "fst ` set cl \<subseteq> queued_ids s"
    "card (fst ` set cl) = min n (card (queued_ids s))"
proof -
  note res = claimNextQueued_result [OF assms]
  have dist: "distinct (map fst cl)" using candidates_distinct [OF assms(2)] res(1) by metis
  have sub: "\<exists>r. pg_view s i = Some r \<and> jr_state r = QUEUED" if "i \<in> fst ` set cl" for i
    using candidates_queued [OF assms(2)] that res(1) by (metis set_map)
  then show "fst ` set cl \<subseteq> queued_ids s" by (auto simp: queued_ids_def)
  have "i \<in> queued_ids s' \<longleftrightarrow> i \<in> queued_ids s - fst ` set cl" for i
  proof (cases "i \<in> fst ` set cl")
    case True
    then obtain u r where "(i, u) \<in> set cl" "pg_view s i = Some r" using sub by fastforce
    then have "pg_view s' i = Some (claim_set u t claimed_status r)"
      using claim_view_hit [OF dist, of i u "pg_view s" r t] fun_cong [OF res(4), of i] by simp
    with True show ?thesis by (simp add: queued_ids_def claim_set_def)
  next
    case False
    then show ?thesis using claim_view_miss [OF False] fun_cong [OF res(4), of i] by (simp add: queued_ids_def)
  qed
  then show "queued_ids s' = queued_ids s - fst ` set cl" by blast
  have "card (fst ` set cl) = length cl" using dist by (metis distinct_card length_map set_map)
  then show "card (fst ` set cl) = min n (card (queued_ids s))"
    using candidates_all [of n s] res(1) queued_card [OF assms(2)] by (metis length_map)
qed

text \<open>
  Rounds of an otherwise idle system: a poll by a worker with all slots free, then whatever the
  claimed executions and other processes do until the next poll.
\<close>

primrec poll_rounds :: "nat \<Rightarrow> (nat \<Rightarrow> nat \<Rightarrow> string) \<Rightarrow> (nat \<Rightarrow> pg \<Rightarrow> pg) \<Rightarrow> nat \<Rightarrow> pg \<Rightarrow> pg" where
  "poll_rounds m uuid work 0 s = s"
| "poll_rounds m uuid work (Suc k) s =
     work k (fst (snd (pollOnce m (\<lambda>_. False) (uuid k) k (poll_rounds m uuid work k s, fresh_poller))))"

lemma poll_shrinks:
  assumes "pg_up s" "pg_inv s" "pollOnce m (\<lambda>_. False) uuid t (s, fresh_poller) = (cl, s', p')"
  shows "pg_up s' \<and> pg_inv s' \<and> card (queued_ids s') = card (queued_ids s) - m"
proof (cases "m = 0")
  case True
  then show ?thesis using assms by (simp add: pollOnce_def freeSlots_def fresh_poller_def)
next
  case False
  obtain cl1 s1 where c: "claimNextQueued (\<lambda>_. False) uuid m t s = (Inr cl1, s1)" "pg_up s1" "pg_inv s1"
    using claimNextQueued_ok [OF assms(1,2) refl] by blast
  have s': "s' = s1" using assms(3) False c(1) by (simp add: pollOnce_def freeSlots_def fresh_poller_def poll_claim_def)
  note shrink = claim_shrinks [OF assms(1,2) c(1)]
  have "card (queued_ids s1) = card (queued_ids s) - card (fst ` set cl1)"
    unfolding shrink(1) using shrink(2) by (intro card_Diff_subset) auto
  then show ?thesis using c(2,3) s' shrink(3) by auto
qed

lemma rounds_shrink:
  assumes "\<And>k u. pg_up u \<Longrightarrow> pg_inv u \<Longrightarrow> pg_up (work k u) \<and> pg_inv (work k u) \<and> queued_ids (work k u) \<subseteq> queued_ids u"
    and "pg_up s" "pg_inv s"
  shows "pg_up (poll_rounds m uuid work k s) \<and> pg_inv (poll_rounds m uuid work k s) \<and>
    card (queued_ids (poll_rounds m uuid work k s)) \<le> card (queued_ids s) - k * m"
proof (induction k)
  case (Suc k)
  let ?u = "poll_rounds m uuid work k s"
  obtain cl s1 p1 where p: "pollOnce m (\<lambda>_. False) (uuid k) k (?u, fresh_poller) = (cl, s1, p1)" by (metis prod_cases3)
  have s1: "pg_up s1 \<and> pg_inv s1 \<and> card (queued_ids s1) = card (queued_ids ?u) - m"
    using poll_shrinks [OF _ _ p] Suc by blast
  have "finite (queued_ids s1)" using queued_ids_rows s1 by simp
  moreover have "queued_ids (work k s1) \<subseteq> queued_ids s1" using assms(1) s1 by blast
  ultimately have "card (queued_ids (work k s1)) \<le> card (queued_ids s1)" by (rule card_mono)
  then show ?case using p s1 Suc assms(1) by auto
qed (use assms in simp)

section \<open>Lemmas on the heartbeat\<close>

text \<open>A heartbeat changes neither a state nor a token.\<close>

definition token_state :: "pg \<Rightarrow> string \<Rightarrow> (run_state \<times> string option) option" where
  "token_state s i = map_option (\<lambda>r. (jr_state r, jr_dispatch_id r)) (find_run i (pg_db s))"

lemma touchHeartbeat_effect:
  assumes "pg_up s" "pg_inv s"
  shows "\<exists>s'. touchHeartbeat i (Some d) t s =
      (Inr (case token_state s i of Some (st, tk) \<Rightarrow> if tk = Some d \<and> st \<in> {RUNNING, CANCELLING} then Some st else None
            | None \<Rightarrow> None), s') \<and>
    pg_up s' \<and> pg_inv s' \<and> token_state s' = token_state s"
proof -
  let ?Q = "\<lambda>r. Some d \<noteq> None \<and> jr_dispatch_id r = Some d \<and> jr_state r \<in> {RUNNING, CANCELLING}"
  let ?f = "\<lambda>r. r\<lparr>jr_heartbeat_at := Some t, jr_updated_at := t\<rparr>"
  have th: "touchHeartbeat i (Some d) t = andThen (exec (update_runs (\<lambda>r. jr_run_id r = i \<and> ?Q r) ?f))
     (\<lambda>rows. ret (case rows of row # _ \<Rightarrow> Some (jr_state row) | [] \<Rightarrow> None))"
    by (simp add: touchHeartbeat_def)
  show ?thesis
  proof (cases "\<exists>r. find_run i (pg_db s) = Some r \<and> ?Q r")
    case True
    then obtain r where r: "find_run i (pg_db s) = Some r" "?Q r" by blast
    obtain s' where s': "exec (update_runs (\<lambda>r. jr_run_id r = i \<and> ?Q r) ?f) s = (Inr [?f r], s')" "pg_up s'" "pg_inv s'"
      "pg_view s' = (pg_view s)(i \<mapsto> ?f r)"
      using exec_one_hit [OF assms r(1), of ?Q, OF r(2), of ?f] by auto
    have "token_state s' = token_state s"
      using r(1) s'(4) by (auto simp: token_state_def fun_eq_iff)
    then show ?thesis using s' r by (auto simp: th andThen_def token_state_def)
  next
    case False
    have m: "exec (update_runs (\<lambda>r. jr_run_id r = i \<and> ?Q r) ?f) s = (Inr [], s)"
      using update_one_miss [OF assms(2), of i ?Q ?f] False assms(1) by (auto simp: exec_ok)
    have "(case token_state s i of Some (st, tk) \<Rightarrow> if tk = Some d \<and> st \<in> {RUNNING, CANCELLING} then Some st else None
            | None \<Rightarrow> None) = None"
      using False by (auto simp: token_state_def split: option.splits)
    then show ?thesis using m assms by (auto simp: th andThen_def)
  qed
qed

definition cancel_requested :: "pg \<Rightarrow> string \<times> string \<Rightarrow> bool" where
  "cancel_requested s = (\<lambda>(i, d). token_state s i = Some (CANCELLING, Some d))"

lemma heartbeat_loop:
  assumes "pg_up s" "pg_inv s"
  shows "\<exists>s'. forEach (\<lambda>(k, e). heartbeat_one clock k e) (enumerate n owned) (s, c) =
      (Inr (), s', c @ map fst (filter (cancel_requested s) owned)) \<and> pg_up s' \<and> pg_inv s' \<and> token_state s' = token_state s"
  using assms
proof (induction owned arbitrary: n s c)
  case (Cons e owned)
  obtain i d where e: "e = (i, d)" by fastforce
  obtain s1 where s1: "touchHeartbeat i (Some d) (clock n) s =
      (Inr (case token_state s i of Some (st, tk) \<Rightarrow> if tk = Some d \<and> st \<in> {RUNNING, CANCELLING} then Some st else None
            | None \<Rightarrow> None), s1)" "pg_up s1" "pg_inv s1" "token_state s1 = token_state s"
    using touchHeartbeat_effect [OF Cons.prems] by blast
  let ?c = "if cancel_requested s e then c @ [i] else c"
  have one: "heartbeat_one clock n e (s, c) = (Inr (), s1, ?c)"
    using s1(1) by (auto simp: heartbeat_one_def e cancel_requested_def split: option.splits)
  have "cancel_requested s1 = cancel_requested s" using s1(4) by (simp add: cancel_requested_def)
  with Cons.IH [OF s1(2,3), of "Suc n" ?c] one s1(4) show ?case
    by (auto simp: andThen_def e)
qed simp

text \<open>
  A heartbeat never throws; it cancels exactly the owned runs whose row is \<open>CANCELLING\<close> under the token
  this worker holds, in the order they were claimed, and changes no state and no token.
\<close>

lemma heartbeatOnce_cancels:
  assumes "pg_up s" "pg_inv s"
  shows "\<exists>s'. heartbeatOnce clock p (s, []) = (Inr (), s', map fst (filter (cancel_requested s) (pl_owned p))) \<and>
    token_state s' = token_state s"
  using heartbeat_loop [OF assms, of clock 0 "pl_owned p" "[]"] by (auto simp: heartbeatOnce_def)

text \<open>
  The table of owned runs is keyed by the run alone: when an older attempt of a run that this worker
  claimed again settles, the entry of the newer attempt goes, and it is no longer heartbeated.
\<close>

lemma reclaimed_run_loses_heartbeat:
  "let p = cleanup 0 ''a'' (track (''a'', ''new'') (track (''a'', ''old'') fresh_poller)) in
   pl_active p = [(1, ''a'')] \<and> pl_owned p = []"
  by (simp add: cleanup_def track_def fresh_poller_def)

section \<open>Lemmas on the dispatcher\<close>

lemma interval_power: "dc_intervalMs cfg \<le> dc_intervalMs cfg * 2 ^ k" for cfg :: dispatch_cfg
  by simp

lemma backoff_bounds:
  "min (dc_intervalMs cfg) (dc_maxBackoffMs cfg) \<le> backoffMs cfg n" "backoffMs cfg n \<le> max (dc_intervalMs cfg) (dc_maxBackoffMs cfg)"
proof -
  obtain x where x: "dc_intervalMs cfg * 2 ^ (n - dc_backoffThreshold cfg) = x" by blast
  then have "dc_intervalMs cfg \<le> x" using interval_power by metis
  then show "min (dc_intervalMs cfg) (dc_maxBackoffMs cfg) \<le> backoffMs cfg n"
    "backoffMs cfg n \<le> max (dc_intervalMs cfg) (dc_maxBackoffMs cfg)"
    unfolding backoffMs_def x by (auto simp: min_def max_def)
qed

lemma backoff_mono:
  assumes "dc_intervalMs cfg \<le> dc_maxBackoffMs cfg" "m \<le> n"
  shows "backoffMs cfg m \<le> backoffMs cfg n"
proof -
  have "dc_intervalMs cfg * 2 ^ (m - dc_backoffThreshold cfg) \<le> dc_intervalMs cfg * 2 ^ (n - dc_backoffThreshold cfg)"
    using assms(2) by (intro mult_le_mono power_increasing) auto
  then have "min (dc_intervalMs cfg * 2 ^ (m - dc_backoffThreshold cfg)) (dc_maxBackoffMs cfg) \<le>
      min (dc_intervalMs cfg * 2 ^ (n - dc_backoffThreshold cfg)) (dc_maxBackoffMs cfg)" by (rule min.mono) simp
  moreover have "dc_intervalMs cfg \<le> min (dc_intervalMs cfg * 2 ^ (n - dc_backoffThreshold cfg)) (dc_maxBackoffMs cfg)"
    using assms(1) interval_power by (rule min.boundedI [rotated])
  ultimately show ?thesis using assms(2) by (simp only: backoffMs_def split: if_split) simp
qed

text \<open>A pass ends not running; it stays scheduled unless it was stopped, at most \<open>maxBackoffMs\<close> away.\<close>

lemma pass_scheduled:
  assumes "\<not> dp_running d" "dc_intervalMs cfg \<le> dc_maxBackoffMs cfg"
  shows "\<not> dp_running (pass cfg env stopped d) \<and>
    dp_timer (pass cfg env stopped d) =
      (if stopped \<or> dp_timer d = None then None else Some (backoffMs cfg (dp_consecutiveFailures (pass cfg env stopped d)))) \<and>
    backoffMs cfg (dp_consecutiveFailures (pass cfg env stopped d)) \<le> dc_maxBackoffMs cfg"
  using assms backoff_bounds(2) [of cfg "dp_consecutiveFailures (pass cfg env stopped d)"]
  by (auto simp: pass_def Let_def split: prod.splits sum.splits option.splits)

section \<open>Properties\<close>

text \<open>
  C21. A worker never has more than \<open>maxConcurrency\<close> executions in flight, not even when promises
  settle while a claim is under way, and every run it heartbeats is one it has in flight.
\<close>

theorem poll_capacity:
  assumes "(loop_step maxConcurrency)\<^sup>*\<^sup>* (fresh_loop s) l"
  shows "length (pl_active (lp_poller l)) \<le> maxConcurrency \<and>
    fst ` set (pl_owned (lp_poller l)) \<subseteq> snd ` set (pl_active (lp_poller l))"
  using loop_ok_reachable [OF assms] by (auto simp: loop_ok_def poller_ok_def)

theorem poll_capacity_witness:
  "length (pl_active (snd (snd (pollOnce 1 (\<lambda>_. False) sample_uuid 5 (sample_pg, fresh_poller))))) \<le> 1"
proof -
  obtain cl s p where c: "poll_claim (\<lambda>_. False) sample_uuid 1 5 (sample_pg, fresh_poller) = (cl, s, p)"
    by (metis prod_cases3)
  let ?l = "fresh_loop sample_pg"
  have free: "freeSlots 1 fresh_poller = 1" by (simp add: freeSlots_def fresh_poller_def)
  have 1: "loop_step 1 ?l (?l\<lparr>lp_polling := Some 1\<rparr>)"
    using poll_begins [of ?l 1] free by (simp add: fresh_loop_def)
  have 2: "loop_step 1 (?l\<lparr>lp_polling := Some 1\<rparr>) \<lparr>lp_db = s, lp_poller = p, lp_polling = None\<rparr>"
    by (rule poll_ends [where limit = 1]) (use c in \<open>simp_all add: fresh_loop_def\<close>)
  have "(loop_step 1)\<^sup>*\<^sup>* ?l \<lparr>lp_db = s, lp_poller = p, lp_polling = None\<rparr>" using 1 2 by (meson r_into_rtranclp rtranclp.rtrancl_into_rtrancl)
  from poll_capacity [OF this] c free show ?thesis by (simp add: pollOnce_def)
qed



end
