(* ===== verification/Job_Parameters.thy ===== *)
theory Job_Parameters
  imports Sched_Prelude
begin

text \<open>
  Job parameters from their declaration to the job: the checks of \<open>JobInstanceService\<close>
  (\<open>src/src/services/jobInstanceService.js\<close>), the resolver of sensitive values
  (\<open>src/src/services/secretManagerParameterResolver.js\<close>), its local counterpart
  (\<open>src/src/backends/local/localParameterResolver.js\<close>) and the reader a job uses
  (\<open>src/src/runtime/params.js\<close>). The secret store is a parameter; the names it is asked for are the
  state of the resolver.
\<close>

section \<open>Checks against the definition\<close>

definition string_array :: "js \<Rightarrow> bool" where
  "string_array v = (case v of JArr xs \<Rightarrow> list_all is_string xs | _ \<Rightarrow> False)"

definition validateParameterValue :: "js \<Rightarrow> js \<Rightarrow> js_error option" where
  "validateParameterValue parameter supplied =
     (let name = js_String (js_prop parameter ''name''); type = js_prop parameter ''type'';
          fail = (\<lambda>m. Some (newError (''Parameter '' @ name @ m))) in
      if (case supplied of JObj _ \<Rightarrow> False | _ \<Rightarrow> True) then fail '' must be an object''
      else if js_prop supplied ''type'' \<noteq> type then fail ('' must declare type '' @ js_String type)
      else if type = JStr ''sensitive'' then
        (if \<not> truthy (js_prop supplied ''secretRef'') \<or> \<not> is_string (js_prop supplied ''secretRef'')
         then fail '' must include secretRef'' else None)
      else if type = JStr ''string'' \<and> \<not> is_string (js_prop supplied ''value'') then fail '' must be a string''
      else if type = JStr ''string[]'' \<and> \<not> string_array (js_prop supplied ''value'') then fail '' must be a string array''
      else None)"

fun validate_parameters :: "js \<Rightarrow> js list \<Rightarrow> js_error option" where
  "validate_parameters parameters [] = None"
| "validate_parameters parameters (p # ps) =
     (let supplied = js_prop parameters (js_String (js_prop p ''name'')) in
      if truthy (js_prop p ''required'') \<and> supplied = JUndefined
      then Some (newError (''Missing required parameter: '' @ js_String (js_prop p ''name'')))
      else if supplied = JUndefined then validate_parameters parameters ps
      else case validateParameterValue p supplied of
        Some e \<Rightarrow> Some e
      | None \<Rightarrow> validate_parameters parameters ps)"

definition validateParametersAgainstDefinition :: "js \<Rightarrow> js \<Rightarrow> js_error option" where
  "validateParametersAgainstDefinition parameters parameterSchema =
     validate_parameters parameters (case parameterSchema of JArr ps \<Rightarrow> ps | _ \<Rightarrow> [])"

section \<open>The Secret Manager resolver\<close>

definition DENIED_SECRET_IDS :: "string list" where
  "DENIED_SECRET_IDS = [''iga-scheduler-db-password'', ''iga-scheduler-iga-client-id'',
     ''iga-scheduler-iga-client-secret'', ''iga-scheduler-es-api-key'', ''iga-scheduler-github-token'']"

record resolver =
  rv_projectId :: "string option"
  rv_paramPrefix :: string
  rv_access :: "string \<Rightarrow> js_error + string option"

definition resolutionError :: "string \<Rightarrow> string \<Rightarrow> js_error" where
  "resolutionError code message = (newError message)\<lparr>e_code := JStr code, e_retryable := JBool False\<rparr>"

text \<open>
  The pattern \<open>^projects/([^/]+)/secrets/([^/]+)(?:/versions/(.+))?$\<close>: project, secret and optional
  version. The dot of the version matches anything but a line terminator.
\<close>

definition up_to_slash :: "string \<Rightarrow> string" where
  "up_to_slash = takeWhile (\<lambda>c. c \<noteq> CHR ''/'')"

definition match_secret_ref :: "string \<Rightarrow> (string \<times> string \<times> string option) option" where
  "match_secret_ref ref =
     (if \<not> startsWith ref ''projects/'' then None
      else let r1 = drop 9 ref; project = up_to_slash r1; r2 = drop (length project) r1 in
        if project = [] \<or> \<not> startsWith r2 ''/secrets/'' then None
        else let r3 = drop 9 r2; sid = up_to_slash r3; r4 = drop (length sid) r3 in
          if sid = [] then None
          else if r4 = [] then Some (project, sid, None)
          else if startsWith r4 ''/versions/'' \<and> drop 10 r4 \<noteq> [] \<and> CHR 0x0A \<notin> set (drop 10 r4) \<and> CHR 0x0D \<notin> set (drop 10 r4)
          then Some (project, sid, Some (drop 10 r4))
          else None)"

definition assertAllowed :: "resolver \<Rightarrow> string \<Rightarrow> js_error option" where
  "assertAllowed rv secretId =
     (if secretId \<in> set DENIED_SECRET_IDS
      then Some (resolutionError ''PARAMETER_SECRET_REF_FORBIDDEN'' ''sensitive parameters may not reference platform secrets'')
      else if \<not> startsWith secretId (rv_paramPrefix rv)
      then Some (resolutionError ''PARAMETER_SECRET_REF_FORBIDDEN''
             (''secretRef must reference a job-parameter secret (prefix \"'' @ rv_paramPrefix rv @ ''\")''))
      else None)"

definition project_text :: "resolver \<Rightarrow> string" where
  "project_text rv = (case rv_projectId rv of Some p \<Rightarrow> p | None \<Rightarrow> ''undefined'')"

definition secret_version_name :: "resolver \<Rightarrow> string \<Rightarrow> string \<Rightarrow> string" where
  "secret_version_name rv secretId version =
     ''projects/'' @ project_text rv @ ''/secrets/'' @ secretId @ ''/versions/'' @ version"

definition toSecretVersionName :: "resolver \<Rightarrow> js \<Rightarrow> js_error + string" where
  "toSecretVersionName rv secretRef =
     (case secretRef of
        JStr (c # cs) \<Rightarrow>
          let ref = c # cs;
              finish = (\<lambda>secretId version. case assertAllowed rv secretId of
                          Some e \<Rightarrow> Inl e | None \<Rightarrow> Inr (secret_version_name rv secretId version)) in
          if startsWith ref ''projects/'' then
            (case match_secret_ref ref of
               None \<Rightarrow> Inl (resolutionError ''PARAMETER_SECRET_REF_INVALID'' (''malformed secretRef: '' @ ref))
             | Some (project, sid, ver) \<Rightarrow>
                 if Some project \<noteq> rv_projectId rv
                 then Inl (resolutionError ''PARAMETER_SECRET_REF_FORBIDDEN''
                        (''secretRef must reference a secret in project \"'' @ project_text rv @ ''\"''))
                 else finish sid (case ver of Some v \<Rightarrow> v | None \<Rightarrow> ''latest''))
          else if CHR ''/'' \<in> set ref
          then Inl (resolutionError ''PARAMETER_SECRET_REF_INVALID'' (''malformed secretRef: '' @ ref))
          else if \<not> truthy_str (rv_projectId rv)
          then Inl (resolutionError ''PARAMETER_SECRET_PROJECT_MISSING'' ''GCP_PROJECT_ID is required for short secretRef values'')
          else finish ref ''latest''
      | _ \<Rightarrow> Inl (resolutionError ''PARAMETER_SECRET_REF_INVALID'' ''secretRef is required''))"

text \<open>The state of the resolver's methods is the list of names the secret store was asked for.\<close>

definition resolveSecretValue :: "resolver \<Rightarrow> js \<Rightarrow> (string list, js) eff" where
  "resolveSecretValue rv secretRef =
     (case toSecretVersionName rv secretRef of
        Inl e \<Rightarrow> throw e
      | Inr name \<Rightarrow> (\<lambda>asked.
          (case rv_access rv name of
             Inl e \<Rightarrow> Inl e
           | Inr None \<Rightarrow> Inr (JStr [])
           | Inr (Some data) \<Rightarrow> Inr (JStr data), asked @ [name])))"

fun resolve_entries :: "resolver \<Rightarrow> js \<Rightarrow> (string \<times> js) list \<Rightarrow> (string list, js) eff" where
  "resolve_entries rv resolved [] = ret resolved"
| "resolve_entries rv resolved ((name, parameter) # rest) =
     (let type = js_prop parameter ''type'' in
      if type = JStr ''sensitive'' then
        andThen (resolveSecretValue rv (js_prop parameter ''secretRef'')) (\<lambda>v. resolve_entries rv (js_set resolved name v) rest)
      else if type = JStr ''string'' \<or> type = JStr ''string[]''
      then resolve_entries rv (js_set resolved name (js_prop parameter ''value'')) rest
      else resolve_entries rv resolved rest)"

definition resolveParameters :: "resolver \<Rightarrow> js \<Rightarrow> (string list, js) eff" where
  "resolveParameters rv parameters = resolve_entries rv (JObj []) (object_entries (js_or parameters (JObj [])))"

section \<open>The local resolver\<close>

text \<open>\<open>toUpperCase\<close> on the letters of parameter names.\<close>

definition upper_char :: "char \<Rightarrow> char" where
  "upper_char c = (case map_of (zip ''abcdefghijklmnopqrstuvwxyz'' ''ABCDEFGHIJKLMNOPQRSTUVWXYZ'') c of Some d \<Rightarrow> d | None \<Rightarrow> c)"

definition local_resolve_value :: "(string \<Rightarrow> string option) \<Rightarrow> string \<Rightarrow> js \<Rightarrow> js" where
  "local_resolve_value penv key v =
     (if js_prop v ''type'' = JStr ''sensitive''
      then (case penv (''LOCAL_SECRET_'' @ map upper_char key) of
              Some s \<Rightarrow> JStr s
            | None \<Rightarrow> coalesce (js_prop v ''secretRef'') (JStr []))
      else v)"

definition local_resolveParameters :: "(string \<Rightarrow> string option) \<Rightarrow> js \<Rightarrow> js" where
  "local_resolveParameters penv params =
     foldl (\<lambda>resolved (key, v). js_set resolved key (local_resolve_value penv key v)) (JObj [])
       (object_entries (coalesce params (JObj [])))"

section \<open>The reader of a job\<close>

text \<open>Own properties only: a name such as \<open>toString\<close>, which every JavaScript object inherits, is not modelled.\<close>

definition parameterError :: "string \<Rightarrow> string \<Rightarrow> js_error" where
  "parameterError code message = (newError message)\<lparr>e_code := JStr code\<rparr>"

definition reader_get :: "js \<Rightarrow> string \<Rightarrow> js \<Rightarrow> js" where
  "reader_get params name defaultValue = (if js_prop params name = JUndefined then defaultValue else js_prop params name)"

definition reader_require :: "js \<Rightarrow> string \<Rightarrow> js_error + js" where
  "reader_require params name =
     (let v = js_prop params name in
      if nullish v \<or> v = JStr []
      then Inl (parameterError ''RUNTIME_PARAMETER_REQUIRED'' (''required runtime parameter is missing: '' @ name))
      else Inr v)"

definition typeInvalid :: "string \<Rightarrow> string \<Rightarrow> js_error" where
  "typeInvalid name what = parameterError ''RUNTIME_PARAMETER_TYPE_INVALID'' (''runtime parameter '' @ name @ '' must be a '' @ what)"

definition reader_string :: "js \<Rightarrow> string \<Rightarrow> js \<Rightarrow> js_error + js" where
  "reader_string params name defaultValue =
     (let v = reader_get params name defaultValue in
      if v = JUndefined then Inr JUndefined
      else if \<not> is_string v then Inl (typeInvalid name ''string'') else Inr v)"

definition reader_requiredString :: "js \<Rightarrow> string \<Rightarrow> js_error + js" where
  "reader_requiredString params name =
     (case reader_require params name of
        Inl e \<Rightarrow> Inl e
      | Inr v \<Rightarrow> if \<not> is_string v then Inl (typeInvalid name ''string'') else Inr v)"

definition reader_stringArray :: "js \<Rightarrow> string \<Rightarrow> js \<Rightarrow> js_error + js" where
  "reader_stringArray params name defaultValue =
     (let v = reader_get params name defaultValue in
      if v = JUndefined then Inr JUndefined
      else if \<not> string_array v then Inl (typeInvalid name ''string array'') else Inr v)"

definition reader_requiredStringArray :: "js \<Rightarrow> string \<Rightarrow> js_error + js" where
  "reader_requiredStringArray params name =
     (case reader_require params name of
        Inl e \<Rightarrow> Inl e
      | Inr v \<Rightarrow> if \<not> string_array v then Inl (typeInvalid name ''string array'') else Inr v)"

section \<open>Lemmas\<close>

text \<open>The names a resolver may ask for: a job-parameter secret of its own project.\<close>

definition job_secret :: "resolver \<Rightarrow> string \<Rightarrow> bool" where
  "job_secret rv name \<longleftrightarrow> (\<exists>p sid ver. rv_projectId rv = Some p \<and> p \<noteq> [] \<and>
     name = ''projects/'' @ p @ ''/secrets/'' @ sid @ ''/versions/'' @ ver \<and>
     CHR ''/'' \<notin> set sid \<and> startsWith sid (rv_paramPrefix rv) \<and> sid \<notin> set DENIED_SECRET_IDS)"

lemma up_to_slash_free: "CHR ''/'' \<notin> set (up_to_slash s)"
  unfolding up_to_slash_def by (blast dest: set_takeWhileD)

lemma match_secret_ref_parts:
  "match_secret_ref ref = Some (project, sid, ver) \<Longrightarrow> project \<noteq> [] \<and> CHR ''/'' \<notin> set sid"
  by (auto simp: match_secret_ref_def Let_def up_to_slash_free split: if_splits)

lemma toSecretVersionName_job_secret:
  assumes "toSecretVersionName rv secretRef = Inr name"
  shows "job_secret rv name"
proof -
  obtain c cs where ref: "secretRef = JStr (c # cs)"
    using assms by (auto simp: toSecretVersionName_def split: js.splits list.splits)
  have allowed: "job_secret rv name" if "Some p = rv_projectId rv" "p \<noteq> []" "CHR ''/'' \<notin> set sid"
    "(case assertAllowed rv sid of Some e \<Rightarrow> Inl e | None \<Rightarrow> Inr (secret_version_name rv sid ver)) = (Inr name :: js_error + string)"
    for p sid ver
  proof -
    have pid: "rv_projectId rv = Some p" using that(1) by simp
    have "name = secret_version_name rv sid ver \<and> startsWith sid (rv_paramPrefix rv) \<and> sid \<notin> set DENIED_SECRET_IDS"
      using that(4) by (auto simp: assertAllowed_def split: if_splits)
    then show ?thesis
      unfolding job_secret_def using that(2,3) pid
      by (intro exI [of _ p] exI [of _ sid] exI [of _ ver]) (simp add: secret_version_name_def project_text_def)
  qed
  show ?thesis
  proof (cases "startsWith (c # cs) ''projects/''")
    case True
    then obtain project sid ver where m: "match_secret_ref (c # cs) = Some (project, sid, ver)"
      and p: "Some project = rv_projectId rv"
      and n: "(case assertAllowed rv sid of Some e \<Rightarrow> Inl e
                | None \<Rightarrow> Inr (secret_version_name rv sid (case ver of Some v \<Rightarrow> v | None \<Rightarrow> ''latest''))) = (Inr name :: js_error + string)"
      using assms ref by (auto simp: toSecretVersionName_def Let_def split: option.splits if_splits)
    show ?thesis using allowed [OF p _ _ n] match_secret_ref_parts [OF m] by blast
  next
    case False
    with assms ref have s: "CHR ''/'' \<notin> set (c # cs)" "truthy_str (rv_projectId rv)"
      and n: "(case assertAllowed rv (c # cs) of Some e \<Rightarrow> Inl e
                | None \<Rightarrow> Inr (secret_version_name rv (c # cs) ''latest'')) = (Inr name :: js_error + string)"
      by (simp_all add: toSecretVersionName_def Let_def del: set_simps startsWith.simps split: if_splits)
    from s(2) obtain p where "rv_projectId rv = Some p" "p \<noteq> []" by (cases "rv_projectId rv") auto
    with allowed [of p] s(1) n show ?thesis by metis
  qed
qed

text \<open>Whatever the parameters are, every name asked for is one of those.\<close>

definition asks_job_secrets :: "resolver \<Rightarrow> string list \<Rightarrow> string list \<Rightarrow> bool" where
  "asks_job_secrets rv asked asked' \<longleftrightarrow> (\<exists>names. asked' = asked @ names \<and> (\<forall>n \<in> set names. job_secret rv n))"

lemma asks_rules: "reflp (asks_job_secrets rv)" "transp (asks_job_secrets rv)"
  by (auto simp: reflp_def transp_def asks_job_secrets_def)

lemma resolveSecretValue_asks: "keeps (asks_job_secrets rv) (resolveSecretValue rv secretRef)"
  using toSecretVersionName_job_secret [of rv secretRef]
  by (auto simp: resolveSecretValue_def keeps_def asks_job_secrets_def split: sum.splits)

lemma resolve_entries_asks: "keeps (asks_job_secrets rv) (resolve_entries rv resolved kvs)"
proof (induction rv resolved kvs rule: resolve_entries.induct)
  case (1 rv resolved)
  show ?case unfolding resolve_entries.simps by (rule keeps_ret [OF asks_rules(1)])
next
  case (2 rv resolved name parameter rest)
  show ?case
    unfolding resolve_entries.simps Let_def
    using 2 by (auto intro!: keeps_andThen asks_rules resolveSecretValue_asks)
qed

text \<open>What the resolved object holds.\<close>

definition resolved_as :: "js \<Rightarrow> js \<Rightarrow> bool" where
  "resolved_as parameter v \<longleftrightarrow>
     (if js_prop parameter ''type'' = JStr ''sensitive'' then is_string v
      else v = js_prop parameter ''value'')"

lemma resolveSecretValue_string: "resolveSecretValue rv secretRef asked = (Inr v, asked') \<Longrightarrow> is_string v"
  by (auto simp: resolveSecretValue_def is_string_def split: sum.splits option.splits)

lemma resolve_entries_other:
  assumes "resolve_entries rv acc kvs asked = (Inr res, asked')"
    "\<And>v. (n, v) \<in> set kvs \<Longrightarrow> js_prop v ''type'' \<notin> {JStr ''sensitive'', JStr ''string'', JStr ''string[]''}"
  shows "js_prop res n = js_prop acc n"
  using assms
proof (induction rv acc kvs arbitrary: asked rule: resolve_entries.induct)
  case (2 rv resolved name parameter rest)
  from "2.prems"(1) show ?case
    unfolding resolve_entries.simps Let_def
    using "2.IH" "2.prems"(2) by (auto simp: js_prop_set elim!: andThen_cases split: if_splits)
qed simp

lemma resolve_entries_value:
  assumes "resolve_entries rv acc kvs asked = (Inr res, asked')" "distinct (map fst kvs)" "(n, parameter) \<in> set kvs"
    "js_prop parameter ''type'' \<in> {JStr ''sensitive'', JStr ''string'', JStr ''string[]''}"
  shows "resolved_as parameter (js_prop res n)"
  using assms
proof (induction rv acc kvs arbitrary: asked rule: resolve_entries.induct)
  case (2 rv resolved name q rest)
  show ?case
  proof (cases "(n, parameter) \<in> set rest")
    case True
    with "2.prems" "2.IH" show ?thesis
      unfolding resolve_entries.simps Let_def by (auto elim!: andThen_cases split: if_splits)
  next
    case False
    then have nq: "n = name" "parameter = q" using "2.prems"(3) by auto
    have fresh: "(name, v) \<notin> set rest" for v using "2.prems"(2) by force
    show ?thesis
    proof (cases "js_prop q ''type'' = JStr ''sensitive''")
      case True
      with "2.prems"(1) obtain v asked1 where v: "resolveSecretValue rv (js_prop q ''secretRef'') asked = (Inr v, asked1)"
        and r: "resolve_entries rv (js_set resolved name v) rest asked1 = (Inr res, asked')"
        by (auto simp: Let_def elim!: andThen_cases)
      show ?thesis
        using resolve_entries_other [OF r, of name] fresh resolveSecretValue_string [OF v] True nq
        by (simp add: js_prop_set resolved_as_def)
    next
      case False
      with "2.prems"(1,4) nq have r: "resolve_entries rv (js_set resolved name (js_prop q ''value'')) rest asked = (Inr res, asked')"
        by (auto simp: Let_def)
      show ?thesis using resolve_entries_other [OF r, of name] fresh False nq by (simp add: js_prop_set resolved_as_def)
    qed
  qed
qed simp

lemma validate_parameters_each:
  assumes "validate_parameters parameters ps = None" "p \<in> set ps"
  shows "(truthy (js_prop p ''required'') \<longrightarrow> js_prop parameters (js_String (js_prop p ''name'')) \<noteq> JUndefined) \<and>
    (js_prop parameters (js_String (js_prop p ''name'')) \<noteq> JUndefined \<longrightarrow>
       validateParameterValue p (js_prop parameters (js_String (js_prop p ''name''))) = None)"
  using assms by (induction parameters ps rule: validate_parameters.induct) (auto simp: Let_def split: if_splits option.splits)

lemma validateParameterValue_ok:
  assumes "validateParameterValue p v = None"
  shows "js_prop v ''type'' = js_prop p ''type'' \<and>
    (js_prop p ''type'' = JStr ''string'' \<longrightarrow> is_string (js_prop v ''value'')) \<and>
    (js_prop p ''type'' = JStr ''string[]'' \<longrightarrow> string_array (js_prop v ''value''))"
  using assms by (auto simp: validateParameterValue_def Let_def split: if_splits js.splits)

section \<open>Sample data\<close>

definition sample_resolver :: resolver where
  "sample_resolver = \<lparr>rv_projectId = Some ''prod'', rv_paramPrefix = ''job-param-'', rv_access = (\<lambda>_. Inr (Some ''s3cret''))\<rparr>"

definition sample_schema :: js where
  "sample_schema = JArr [JObj [(''name'', JStr ''pw''), (''type'', JStr ''sensitive''), (''required'', JBool True)],
     JObj [(''name'', JStr ''who''), (''type'', JStr ''string''), (''required'', JBool True)]]"

definition sample_params :: "(string \<times> js) list" where
  "sample_params = [(''pw'', JObj [(''type'', JStr ''sensitive''), (''secretRef'', JStr ''job-param-x'')]),
     (''who'', JObj [(''type'', JStr ''string''), (''value'', JStr ''ann'')])]"

lemma sample_params_valid: "validateParametersAgainstDefinition (JObj sample_params) sample_schema = None"
  by (simp add: validateParametersAgainstDefinition_def sample_params_def sample_schema_def validateParameterValue_def
      is_string_def Let_def)

text \<open>The local resolver hands a job the declaration of a plain parameter; the production resolver hands it the value.\<close>

lemma local_resolver_differs:
  "js_prop (local_resolveParameters (\<lambda>_. None) (JObj sample_params)) ''who'' = JObj [(''type'', JStr ''string''), (''value'', JStr ''ann'')]"
  "\<exists>res asked. resolveParameters sample_resolver (JObj sample_params) [] = (Inr res, asked) \<and> js_prop res ''who'' = JStr ''ann''"
  by (simp add: local_resolveParameters_def sample_params_def coalesce_def local_resolve_value_def js_prop_set)
    (simp add: resolveParameters_def sample_params_def js_or_def Let_def andThen_def resolveSecretValue_def
      toSecretVersionName_def assertAllowed_def sample_resolver_def DENIED_SECRET_IDS_def js_prop_set)

section \<open>Properties\<close>

text \<open>
  C25. Whatever parameters an instance carries, the resolver asks the secret store only for versions of
  secrets in its own project whose identifier carries the job-parameter prefix and is not one of the
  platform's own secrets; this holds also for the names asked for before a later parameter fails.
\<close>

theorem resolveParameters_only_job_secrets:
  "\<exists>names. snd (resolveParameters rv parameters asked) = asked @ names \<and> list_all (job_secret rv) names"
proof -
  have "asks_job_secrets rv asked (snd (resolveParameters rv parameters asked))"
    using resolve_entries_asks [of rv "JObj []" "object_entries (js_or parameters (JObj []))"]
    by (simp add: resolveParameters_def keeps_def)
  then show ?thesis by (simp add: asks_job_secrets_def list_all_iff)
qed



end
