(* ===== verification/Instance_Service.thy ===== *)
theory Instance_Service
  imports Instance_Store Job_Parameters
begin

text \<open>
  \<open>JobInstanceService\<close> of \<open>src/src/services/jobInstanceService.js\<close> over the instance store interface,
  and the handlers of \<open>src/src/routes/jobInstances.js\<close>. The schemas of
  \<open>src/src/validation/jobInstanceSchema.js\<close> are applied by the zod library, a parameter here: a parser
  gives the issues of a \<open>ZodError\<close> or the parsed value. The definitions index is a parameter too.
\<close>

section \<open>The service\<close>

record parsed_create =
  pc_instanceId :: string
  pc_enabled :: bool
  pc_schedule :: schedule
  pc_parameters :: js

record parsed_patch =
  pp_enabled :: "bool option"
  pp_schedule :: "schedule option"
  pp_parameters :: "js option"

record 'db instance_env =
  ie_store :: "'db instance_store"
  ie_esGet :: "string \<Rightarrow> js_error + js"
  ie_parseCreate :: "js \<Rightarrow> js + parsed_create"
  ie_parsePatch :: "js \<Rightarrow> js + parsed_patch"
  ie_cron :: cron
  ie_now :: "nat \<Rightarrow> instant"

definition zodError :: "js \<Rightarrow> js_error" where
  "zodError issues = (newError (js_String issues))\<lparr>e_name := ''ZodError'', e_issues := issues\<rparr>"

text \<open>A number that is an integer, such as a definition's version.\<close>

definition js_int :: "js \<Rightarrow> int" where
  "js_int v = (case v of JNum (Fin q) \<Rightarrow> \<lfloor>q\<rfloor> | _ \<Rightarrow> 0)"

definition getActiveDefinition :: "'db instance_env \<Rightarrow> string \<Rightarrow> js_error + js" where
  "getActiveDefinition env definitionId =
     (case ie_esGet env definitionId of
        Inl e \<Rightarrow> Inl e
      | Inr d \<Rightarrow>
          if js_prop d ''enabled'' \<noteq> JBool True \<or> js_prop d ''state'' \<noteq> JStr ''ACTIVE''
          then Inl (newError (''Job definition '' @ definitionId @ '' is not active'')) else Inr d)"

definition new_instance :: "string \<Rightarrow> js \<Rightarrow> parsed_create \<Rightarrow> instant \<Rightarrow> instant \<Rightarrow> inst_doc" where
  "new_instance definitionId d parsed now nextFireAt =
     \<lparr>in_instanceId = pc_instanceId parsed, in_tenantId = None, in_definitionId = definitionId,
      in_definitionVersion = js_int (js_prop d ''version''),
      in_definitionParameterSchema = js_or (js_prop d ''parameters'') (JArr []), in_enabled = pc_enabled parsed,
      in_state = (if pc_enabled parsed then ACTIVE else PAUSED), in_schedule = pc_schedule parsed,
      in_nextFireAt = Some nextFireAt, in_lastFireAt = None, in_parameters = pc_parameters parsed,
      in_createdAt = now, in_updatedAt = now\<rparr>"

definition svc_createInstance :: "'db instance_env \<Rightarrow> string \<Rightarrow> js \<Rightarrow> ('db, inst_doc) eff" where
  "svc_createInstance env definitionId body =
     (case getActiveDefinition env definitionId of
        Inl e \<Rightarrow> throw e
      | Inr d \<Rightarrow>
          (case ie_parseCreate env body of
             Inl issues \<Rightarrow> throw (zodError issues)
           | Inr parsed \<Rightarrow>
               (case validateParametersAgainstDefinition (pc_parameters parsed) (js_or (js_prop d ''parameters'') (JArr [])) of
                  Some e \<Rightarrow> throw e
                | None \<Rightarrow>
                    (case computeNextFireAt (ie_cron env) (Some (pc_schedule parsed)) (ie_now env 1) of
                       Inl e \<Rightarrow> throw e
                     | Inr nextFireAt \<Rightarrow>
                         is_createInstance (ie_store env) (new_instance definitionId d parsed (ie_now env 0) nextFireAt)))))"

definition requireInstance :: "'db instance_env \<Rightarrow> string \<Rightarrow> ('db, inst_doc) eff" where
  "requireInstance env instanceId =
     andThen (is_getInstance (ie_store env) instanceId) (\<lambda>found. case found of
       None \<Rightarrow> throw instanceNotFound | Some inst \<Rightarrow> ret inst)"

text \<open>\<open>{ ...existing, ...parsed }\<close>: the fields the patch has.\<close>

definition merge_patch :: "inst_doc \<Rightarrow> parsed_patch \<Rightarrow> inst_doc" where
  "merge_patch existing parsed =
     existing\<lparr>in_enabled := (case pp_enabled parsed of Some b \<Rightarrow> b | None \<Rightarrow> in_enabled existing),
              in_schedule := (case pp_schedule parsed of Some sc \<Rightarrow> sc | None \<Rightarrow> in_schedule existing),
              in_parameters := (case pp_parameters parsed of Some ps \<Rightarrow> ps | None \<Rightarrow> in_parameters existing)\<rparr>"

definition patched :: "inst_doc \<Rightarrow> instant option \<Rightarrow> instant \<Rightarrow> inst_doc" where
  "patched next nextFireAt updatedAt =
     next\<lparr>in_nextFireAt := nextFireAt, in_state := (if in_enabled next then ACTIVE else PAUSED), in_updatedAt := updatedAt\<rparr>"

text \<open>The lines of \<open>patchInstance\<close> between the read and the write.\<close>

definition patch_plan :: "'db instance_env \<Rightarrow> inst_doc \<Rightarrow> js + parsed_patch \<Rightarrow> js_error + inst_doc" where
  "patch_plan env existing parse =
     (case parse of
        Inl issues \<Rightarrow> Inl (zodError issues)
      | Inr parsed \<Rightarrow>
          let next = merge_patch existing parsed in
          case (case pp_parameters parsed of None \<Rightarrow> None
                | Some ps \<Rightarrow> validateParametersAgainstDefinition ps (js_or (in_definitionParameterSchema existing) (JArr []))) of
            Some e \<Rightarrow> Inl e
          | None \<Rightarrow>
              if pp_schedule parsed \<noteq> None \<or> pp_enabled parsed = Some True
              then (case computeNextFireAt (ie_cron env) (Some (in_schedule next)) (ie_now env 0) of
                      Inl e \<Rightarrow> Inl e
                    | Inr nextFireAt \<Rightarrow> Inr (patched next (Some nextFireAt) (ie_now env 1)))
              else Inr (patched next (in_nextFireAt next) (ie_now env 1)))"

definition svc_patchParsed :: "'db instance_env \<Rightarrow> string \<Rightarrow> js + parsed_patch \<Rightarrow> ('db, inst_doc) eff" where
  "svc_patchParsed env instanceId parse =
     andThen (requireInstance env instanceId) (\<lambda>existing.
       case patch_plan env existing parse of
         Inl e \<Rightarrow> throw e
       | Inr next \<Rightarrow> is_updateInstance (ie_store env) instanceId next)"

definition svc_patchInstance :: "'db instance_env \<Rightarrow> string \<Rightarrow> js \<Rightarrow> ('db, inst_doc) eff" where
  "svc_patchInstance env instanceId body = svc_patchParsed env instanceId (ie_parsePatch env body)"

definition svc_pauseInstance :: "'db instance_env \<Rightarrow> string \<Rightarrow> ('db, inst_doc) eff" where
  "svc_pauseInstance env instanceId = svc_patchInstance env instanceId (JObj [(''enabled'', JBool False)])"

definition svc_resumeInstance :: "'db instance_env \<Rightarrow> string \<Rightarrow> ('db, inst_doc) eff" where
  "svc_resumeInstance env instanceId = svc_patchInstance env instanceId (JObj [(''enabled'', JBool True)])"

definition svc_deleteInstance :: "'db instance_env \<Rightarrow> string \<Rightarrow> ('db, inst_doc) eff" where
  "svc_deleteInstance env instanceId =
     andThen (requireInstance env instanceId) (\<lambda>existing.
       is_updateInstance (ie_store env) instanceId
         (existing\<lparr>in_enabled := False, in_state := DELETED, in_updatedAt := ie_now env 0\<rparr>))"

section \<open>The routes\<close>

datatype 'a reply = Reply nat 'a | ErrorReply nat js

definition error_body :: "string \<Rightarrow> js" where
  "error_body m = JObj [(''error'', JStr m)]"

definition js_status :: "js \<Rightarrow> nat" where
  "js_status v = (case js_Number v of Fin q \<Rightarrow> nat \<lfloor>q\<rfloor> | _ \<Rightarrow> 0)"

definition inst_handleError :: "js_error \<Rightarrow> 'a reply" where
  "inst_handleError e =
     (if e_name e = ''ZodError''
      then ErrorReply 400 (JObj [(''error'', JStr ''validation failed''), (''details'', e_issues e)])
      else if truthy (e_statusCode e) then ErrorReply (js_status (e_statusCode e)) (error_body (e_message e))
      else if e_meta_statusCode e = JInt 409 then ErrorReply 409 (error_body ''instance already exists'')
      else if e_meta_statusCode e = JInt 404 then ErrorReply 404 (error_body ''not found'')
      else ErrorReply 500 (JObj [(''error'', JStr ''internal error''), (''message'', JStr (e_message e))]))"

definition inst_handler :: "nat \<Rightarrow> ('db, 'a) eff \<Rightarrow> 'db \<Rightarrow> 'a reply \<times> 'db" where
  "inst_handler ok m db = (case m db of (Inl e, db') \<Rightarrow> (inst_handleError e, db') | (Inr a, db') \<Rightarrow> (Reply ok a, db'))"

datatype instance_request =
    PostInstance string js
  | PatchInstance string js
  | PauseInstance string
  | ResumeInstance string
  | DeleteInstance string

fun handle_instance_request :: "'db instance_env \<Rightarrow> instance_request \<Rightarrow> 'db \<Rightarrow> inst_doc reply \<times> 'db" where
  "handle_instance_request env (PostInstance definitionId body) = inst_handler 201 (svc_createInstance env definitionId body)"
| "handle_instance_request env (PatchInstance i body) = inst_handler 200 (svc_patchInstance env i body)"
| "handle_instance_request env (PauseInstance i) = inst_handler 200 (svc_pauseInstance env i)"
| "handle_instance_request env (ResumeInstance i) = inst_handler 200 (svc_resumeInstance env i)"
| "handle_instance_request env (DeleteInstance i) = inst_handler 200 (svc_deleteInstance env i)"

definition get_instance_route :: "'db instance_env \<Rightarrow> string \<Rightarrow> 'db \<Rightarrow> inst_doc reply \<times> 'db" where
  "get_instance_route env i db =
     (case is_getInstance (ie_store env) i db of
        (Inl e, db') \<Rightarrow> (inst_handleError e, db')
      | (Inr None, db') \<Rightarrow> (ErrorReply 404 (error_body ''instance not found''), db')
      | (Inr (Some inst), db') \<Rightarrow> (Reply 200 inst, db'))"

definition list_instances_route :: "'db instance_env \<Rightarrow> string \<Rightarrow> 'db \<Rightarrow> inst_doc list reply \<times> 'db" where
  "list_instances_route env definitionId = inst_handler 200 (is_listInstancesForDefinition (ie_store env) definitionId)"

text \<open>The run a \<open>run-now\<close> request queues.\<close>

definition manual_run :: "string \<Rightarrow> instant \<Rightarrow> inst_doc \<Rightarrow> run_doc" where
  "manual_run uuid now inst =
     \<lparr>rn_runId = in_instanceId inst @ '':manual:'' @ uuid, rn_tenantId = in_tenantId inst,
      rn_instanceId = in_instanceId inst, rn_definitionId = in_definitionId inst,
      rn_definitionVersion = Some (in_definitionVersion inst), rn_scheduledFireTime = now, rn_state = QUEUED,
      rn_attempt = Some 1, rn_dispatchId = None, rn_params = coalesce (in_parameters inst) (JObj []),
      rn_status = JObj [(''phase'', JStr ''queued''), (''message'', JStr ''Run queued by run-now'')],
      rn_result = JNull, rn_error = JNull, rn_executionMetadata = JUndefined, rn_runtimeExecution = JUndefined,
      rn_parentRunId = None, rn_redriveOfRunId = None, rn_cancelRequestedAt = None, rn_cancelledAt = None,
      rn_cancelledBy = None, rn_cancelReason = None, rn_createdAt = now, rn_startedAt = None, rn_endedAt = None,
      rn_heartbeatAt = None, rn_updatedAt = now\<rparr>"

definition runNow :: "'db instance_env \<Rightarrow> 'db run_store option \<Rightarrow> string \<Rightarrow> string \<Rightarrow> 'db \<Rightarrow> js reply \<times> 'db" where
  "runNow env rs uuid i db =
     (case rs of
        None \<Rightarrow> (ErrorReply 503 (error_body ''runStore not available''), db)
      | Some store \<Rightarrow>
          (case is_getInstance (ie_store env) i db of
             (Inl e, db') \<Rightarrow> (inst_handleError e, db')
           | (Inr None, db') \<Rightarrow> (ErrorReply 404 (error_body ''instance not found''), db')
           | (Inr (Some inst), db') \<Rightarrow>
               if in_state inst = DELETED then (ErrorReply 409 (error_body ''instance is deleted''), db')
               else let run = manual_run uuid (ie_now env 0) inst in
                 (case rs_createRun store run db' of
                    (Inl e, db'') \<Rightarrow> (inst_handleError e, db'')
                  | (Inr _, db'') \<Rightarrow>
                      (Reply 201 (JObj [(''runId'', JStr (rn_runId run)), (''state'', JStr ''QUEUED''),
                                        (''instanceId'', JStr (in_instanceId inst))]), db''))))"

section \<open>Lemmas\<close>

text \<open>What the scheduler relies on: an instance is enabled exactly while it is \<open>ACTIVE\<close>, and then has a next fire time.\<close>

definition inst_ok :: "inst_row \<Rightarrow> bool" where
  "inst_ok r \<longleftrightarrow> (ji_enabled r \<longleftrightarrow> ji_state r = ACTIVE) \<and> (ji_enabled r \<longrightarrow> ji_next_fire_at r \<noteq> None)"

definition effect_ok ::
  "(string \<Rightarrow> inst_row option) \<Rightarrow> js_error + inst_doc \<Rightarrow> (string \<Rightarrow> inst_row option) \<Rightarrow> bool" where
  "effect_ok v r v' \<longleftrightarrow>
     (case r of
        Inl _ \<Rightarrow> v' = v
      | Inr doc \<Rightarrow> \<exists>row. v' = v(ji_instance_id row \<mapsto> row) \<and> inst_ok row \<and> in_instanceId doc = ji_instance_id row \<and>
          in_state doc = ji_state row \<and> in_enabled doc = ji_enabled row)"

lemma new_instance_ok: "inst_ok (inst_documentToRow (new_instance definitionId d parsed now next))"
  by (simp add: inst_ok_def inst_documentToRow_def new_instance_def)

lemma patched_ok:
  assumes "inst_ok r" "pp_enabled parsed = Some True \<Longrightarrow> n \<noteq> None" "n \<noteq> None \<or> n = ji_next_fire_at r"
  shows "inst_ok ((inst_documentToRow (patched (merge_patch (inst_rowToDocument r) parsed) n u))\<lparr>ji_instance_id := i\<rparr>)"
  using assms
  by (auto simp: inst_ok_def inst_documentToRow_def patched_def merge_patch_def inst_rowToDocument_def split: option.splits bool.splits)

lemma patch_plan_ok:
  assumes "patch_plan env (inst_rowToDocument r) parse = Inr doc" "inst_ok r"
  shows "inst_ok ((inst_documentToRow doc)\<lparr>ji_instance_id := i\<rparr>)"
proof -
  obtain p n u where doc: "doc = patched (merge_patch (inst_rowToDocument r) p) n u"
    and n: "pp_enabled p = Some True \<Longrightarrow> n \<noteq> None" "n \<noteq> None \<or> n = in_nextFireAt (merge_patch (inst_rowToDocument r) p)"
    using assms(1) by (fastforce simp: patch_plan_def Let_def split: sum.splits option.splits if_splits)
  have "in_nextFireAt (merge_patch (inst_rowToDocument r) p) = ji_next_fire_at r"
    by (simp add: merge_patch_def inst_rowToDocument_def)
  with n patched_ok [OF assms(2) n(1)] show ?thesis unfolding doc by metis
qed

context instance_store_laws
begin

lemma update_effect:
  assumes "inv db" "up db" "view db i = Some r" "inst_ok ((inst_documentToRow doc)\<lparr>ji_instance_id := i\<rparr>)"
  shows "effect_ok (view db) (fst (is_updateInstance S i doc db)) (view (snd (is_updateInstance S i doc db))) \<and>
    inv (snd (is_updateInstance S i doc db)) \<and> up (snd (is_updateInstance S i doc db))"
proof -
  let ?row = "(inst_documentToRow doc)\<lparr>ji_instance_id := i\<rparr>"
  obtain db' where u: "is_updateInstance S i doc db = (Inr (inst_rowToDocument ?row), db')" "inv db'" "up db'"
    "view db' = (view db)(i \<mapsto> ?row)"
    using update_law [OF assms(1-3)] by blast
  have "effect_ok (view db) (Inr (inst_rowToDocument ?row)) (view db')"
    unfolding effect_ok_def using u(4) assms(4) by (auto intro!: exI [of _ ?row] simp: inst_rowToDocument_def)
  with u show ?thesis by simp
qed

lemma require_cases:
  assumes "inv db" "up db" "ie_store env = S"
  shows "requireInstance env i db =
    (case view db i of None \<Rightarrow> (Inl instanceNotFound, db) | Some r \<Rightarrow> (Inr (inst_rowToDocument r), db))"
  using assms by (auto simp: requireInstance_def andThen_def get_law split: option.splits)

lemma create_effect:
  assumes "inv db" "up db" "ie_store env = S" "svc_createInstance env definitionId body db = (r, db')"
  shows "effect_ok (view db) r (view db') \<and> inv db' \<and> up db'"
proof (cases "\<exists>doc. r = fst (is_createInstance S doc db) \<and> db' = snd (is_createInstance S doc db) \<and> inst_ok (inst_documentToRow doc)")
  case True
  then obtain doc where doc: "r = fst (is_createInstance S doc db)" "db' = snd (is_createInstance S doc db)"
    "inst_ok (inst_documentToRow doc)" by blast
  show ?thesis
  proof (cases "\<exists>x. view db (in_instanceId doc) = Some x \<and> ji_state x \<noteq> DELETED")
    case True
    then show ?thesis using create_live_law [OF assms(1,2)] doc assms(1,2) by (auto simp: effect_ok_def)
  next
    case False
    obtain db'' where c: "is_createInstance S doc db = (Inr doc, db'')" "inv db''" "up db''"
      "view db'' = (view db)(in_instanceId doc \<mapsto> inst_documentToRow doc)"
      using create_free_law [OF assms(1,2), of doc] False by blast
    have "effect_ok (view db) (Inr doc) (view db'')"
      unfolding effect_ok_def using c(4) doc(3) by (auto intro!: exI [of _ "inst_documentToRow doc"] simp: inst_documentToRow_def)
    with c doc show ?thesis by simp
  qed
next
  case False
  have "\<exists>e. r = Inl e \<and> db' = db"
    using assms(3,4) False new_instance_ok
    by (auto simp: svc_createInstance_def split: sum.splits option.splits) (metis fst_conv snd_conv)+
  then show ?thesis using assms(1,2) by (auto simp: effect_ok_def)
qed

lemma patch_effect:
  assumes "inv db" "up db" "ie_store env = S" "\<And>i x. view db i = Some x \<Longrightarrow> inst_ok x"
    "svc_patchParsed env i parse db = (r, db')"
  shows "effect_ok (view db) r (view db') \<and> inv db' \<and> up db'"
proof (cases "view db i")
  case None
  then show ?thesis using assms(1,2,5) require_cases [OF assms(1-3), of i]
    by (auto simp: svc_patchParsed_def andThen_def effect_ok_def)
next
  case (Some x)
  show ?thesis
  proof (cases "patch_plan env (inst_rowToDocument x) parse")
    case (Inl e)
    then have "r = Inl e \<and> db' = db"
      using Some assms(5) require_cases [OF assms(1-3), of i] by (simp add: svc_patchParsed_def andThen_def)
    then show ?thesis using assms(1,2) by (simp add: effect_ok_def)
  next
    case (Inr doc)
    then have "is_updateInstance S i doc db = (r, db')"
      using Some assms(3,5) require_cases [OF assms(1-3), of i] by (simp add: svc_patchParsed_def andThen_def)
    with update_effect [OF assms(1,2) Some patch_plan_ok [OF Inr assms(4) [OF Some]]] show ?thesis by simp
  qed
qed

lemma delete_effect:
  assumes "inv db" "up db" "ie_store env = S" "svc_deleteInstance env i db = (r, db')"
  shows "effect_ok (view db) r (view db') \<and> inv db' \<and> up db'"
proof (cases "view db i")
  case None
  then show ?thesis using assms require_cases [OF assms(1-3), of i]
    by (simp add: svc_deleteInstance_def andThen_def effect_ok_def) (auto simp: effect_ok_def)
next
  case (Some x)
  let ?doc = "(inst_rowToDocument x)\<lparr>in_enabled := False, in_state := DELETED, in_updatedAt := ie_now env 0\<rparr>"
  have ok: "inst_ok ((inst_documentToRow ?doc)\<lparr>ji_instance_id := i\<rparr>)" by (simp add: inst_ok_def inst_documentToRow_def)
  have "is_updateInstance S i ?doc db = (r, db')"
    using assms(3,4) Some require_cases [OF assms(1-3), of i] by (simp add: svc_deleteInstance_def andThen_def)
  with update_effect [OF assms(1,2) Some ok] show ?thesis by simp
qed

text \<open>All five requests, as the routes answer them.\<close>

lemma request_effect:
  assumes "inv db" "up db" "ie_store env = S" "\<And>i x. view db i = Some x \<Longrightarrow> inst_ok x"
    "handle_instance_request env req db = (rep, db')"
  shows "inv db' \<and> up db' \<and> (\<forall>i x. view db' i = Some x \<longrightarrow> inst_ok x) \<and>
    (case rep of ErrorReply _ _ \<Rightarrow> view db' = view db
     | Reply _ doc \<Rightarrow> \<exists>row. view db' = (view db)(in_instanceId doc \<mapsto> row) \<and> in_state doc = ji_state row \<and> in_enabled doc = ji_enabled row)"
proof -
  have handled: ?thesis if "inst_handler ok m db = (rep, db')" "effect_ok (view db) (fst (m db)) (view (snd (m db))) \<and> inv (snd (m db)) \<and> up (snd (m db))" for ok m
  proof (cases "m db")
    case (Pair r d)
    then show ?thesis using that assms(4)
      by (cases r) (auto simp: inst_handler_def effect_ok_def inst_handleError_def split: if_splits)
  qed
  have patches: "effect_ok (view db) (fst (svc_patchParsed env i p db)) (view (snd (svc_patchParsed env i p db))) \<and>
    inv (snd (svc_patchParsed env i p db)) \<and> up (snd (svc_patchParsed env i p db))" for i p
    by (rule patch_effect [OF assms(1-3) _ surjective_pairing]) (rule assms(4))
  show ?thesis
  proof (cases req)
    case (PostInstance di body)
    then show ?thesis using assms(5) create_effect [OF assms(1-3) surjective_pairing] by (intro handled) auto
  next
    case (PatchInstance i body)
    then show ?thesis using assms(5) patches by (intro handled) (auto simp: svc_patchInstance_def)
  next
    case (PauseInstance i)
    then show ?thesis using assms(5) patches by (intro handled) (auto simp: svc_patchInstance_def svc_pauseInstance_def)
  next
    case (ResumeInstance i)
    then show ?thesis using assms(5) patches by (intro handled) (auto simp: svc_patchInstance_def svc_resumeInstance_def)
  next
    case (DeleteInstance i)
    then show ?thesis using assms(5) delete_effect [OF assms(1-3) surjective_pairing] by (intro handled) auto
  qed
qed

text \<open>A patch of a deleted instance brings it back.\<close>

lemma patch_resurrects:
  assumes "inv db" "up db" "ie_store env = S" "view db i = Some x" "ji_state x = DELETED"
    "computeNextFireAt (ie_cron env) (Some (ji_schedule x)) (ie_now env 0) = Inr n"
    "parse = Inr \<lparr>pp_enabled = Some True, pp_schedule = None, pp_parameters = None\<rparr>"
  shows "\<exists>doc db' y. svc_patchParsed env i parse db = (Inr doc, db') \<and> view db' i = Some y \<and> ji_state y = ACTIVE"
proof -
  let ?p = "\<lparr>pp_enabled = Some True, pp_schedule = None, pp_parameters = None\<rparr>"
  let ?doc = "patched (merge_patch (inst_rowToDocument x) ?p) (Some n) (ie_now env 1)"
  obtain db' where u: "is_updateInstance S i ?doc db = (Inr (inst_rowToDocument ((inst_documentToRow ?doc)\<lparr>ji_instance_id := i\<rparr>)), db')"
    "view db' = (view db)(i \<mapsto> (inst_documentToRow ?doc)\<lparr>ji_instance_id := i\<rparr>)"
    using update_law [OF assms(1,2,4)] by blast
  have "in_schedule (merge_patch (inst_rowToDocument x) ?p) = ji_schedule x" by (simp add: merge_patch_def inst_rowToDocument_def)
  then have "svc_patchParsed env i parse db = is_updateInstance S i ?doc db"
    using assms require_cases [OF assms(1-3), of i] by (simp add: svc_patchParsed_def andThen_def patch_plan_def Let_def)
  moreover have "ji_state ((inst_documentToRow ?doc)\<lparr>ji_instance_id := i\<rparr>) = ACTIVE"
    by (simp add: inst_documentToRow_def patched_def merge_patch_def)
  ultimately show ?thesis using u by auto
qed

end

section \<open>Sample data\<close>

definition sample_instance_env :: "pg instance_env" where
  "sample_instance_env =
     \<lparr>ie_store = InstanceStore,
      ie_esGet = (\<lambda>_. Inr (JObj [(''enabled'', JBool True), (''state'', JStr ''ACTIVE''), (''version'', JInt 3)])),
      ie_parseCreate = (\<lambda>_. Inr \<lparr>pc_instanceId = ''nightly'', pc_enabled = True,
         pc_schedule = \<lparr>sc_type = ''cron'', sc_expression = ''0 0 * * *'', sc_cron = [], sc_timezone = ''UTC''\<rparr>, pc_parameters = JObj []\<rparr>),
      ie_parsePatch = (\<lambda>_. Inl JNull), ie_cron = (\<lambda>_ _ t. Inr (t + 60)), ie_now = (\<lambda>k. 100 + k)\<rparr>"

definition empty_pg :: pg where
  "empty_pg = \<lparr>pg_db = \<lparr>job_runs = [], job_instances = []\<rparr>, pg_faults = []\<rparr>"

section \<open>Properties\<close>

text \<open>
  C38. Every request of the instance routes keeps the state the scheduler relies on: an instance is
  enabled exactly while it is \<open>ACTIVE\<close> and an enabled instance has a next fire time. A request that
  is answered with an error changes nothing; one that succeeds writes exactly the row of the instance
  it answers with.
\<close>

theorem instance_requests_keep_invariant:
  assumes "ie_store env = InstanceStore" and "keys_ok (pg_db s)" and "pg_faults s = []"
    and "\<forall>i x. find_instance i (pg_db s) = Some x \<longrightarrow> inst_ok x"
    and "handle_instance_request env req s = (rep, s')"
  shows "keys_ok (pg_db s') \<and> (\<forall>i x. find_instance i (pg_db s') = Some x \<longrightarrow> inst_ok x) \<and>
    (case rep of ErrorReply _ _ \<Rightarrow> (\<lambda>i. find_instance i (pg_db s')) = (\<lambda>i. find_instance i (pg_db s))
     | Reply _ doc \<Rightarrow> \<exists>row. (\<lambda>i. find_instance i (pg_db s')) = (\<lambda>i. find_instance i (pg_db s))(in_instanceId doc \<mapsto> row) \<and>
         in_state doc = ji_state row \<and> in_enabled doc = ji_enabled row)"
  using pgi.request_effect [OF assms(2,3,1) _ assms(5)] assms(4) by blast

theorem instance_requests_keep_invariant_witness:
  "\<exists>doc s' row. handle_instance_request sample_instance_env (PostInstance ''def'' JNull) empty_pg = (Reply 201 doc, s') \<and>
     find_instance ''nightly'' (pg_db s') = Some row \<and> inst_ok row"
proof -
  have store: "ie_store sample_instance_env = InstanceStore" by (simp add: sample_instance_env_def)
  have db: "keys_ok (pg_db empty_pg)" "pg_faults empty_pg = []" "find_instance i (pg_db empty_pg) = None" for i
    by (simp_all add: empty_pg_def keys_ok_def find_instance_def)
  obtain doc s' where run: "handle_instance_request sample_instance_env (PostInstance ''def'' JNull) empty_pg = (Reply 201 doc, s')"
    and id: "in_instanceId doc = ''nightly''"
  proof -
    let ?d = "JObj [(''enabled'', JBool True), (''state'', JStr ''ACTIVE''), (''version'', JInt 3)]"
    let ?p = "\<lparr>pc_instanceId = ''nightly'', pc_enabled = True,
         pc_schedule = \<lparr>sc_type = ''cron'', sc_expression = ''0 0 * * *'', sc_cron = [], sc_timezone = ''UTC''\<rparr>, pc_parameters = JObj []\<rparr>"
    let ?doc = "new_instance ''def'' ?d ?p 100 161"
    have "svc_createInstance sample_instance_env ''def'' JNull = is_createInstance InstanceStore ?doc"
      by (rule ext) (simp add: svc_createInstance_def sample_instance_env_def getActiveDefinition_def
          validateParametersAgainstDefinition_def computeNextFireAt_def js_or_def str_or_def)
    moreover obtain s' where "is_createInstance InstanceStore ?doc empty_pg = (Inr ?doc, s')"
      using pgi.create_free_law [OF db(1,2), of ?doc] db(3) by auto
    ultimately have "handle_instance_request sample_instance_env (PostInstance ''def'' JNull) empty_pg = (Reply 201 ?doc, s')"
      by (simp add: inst_handler_def)
    then show ?thesis by (rule that) (simp add: new_instance_def)
  qed
  have "\<forall>i x. find_instance i (pg_db empty_pg) = Some x \<longrightarrow> inst_ok x" using db(3) by simp
  from instance_requests_keep_invariant [OF store db(1,2) this run] obtain row where
    "find_instance ''nightly'' (pg_db s') = Some row" "inst_ok row"
    using id by (auto simp: fun_eq_iff)
  with run show ?thesis by blast
qed

end
