(* ===== verification/Run_Lifecycle.thy ===== *)
theory Run_Lifecycle
  imports Scheduler_Tick Run_Control Stale_Sweeper Worker_Loop Instance_Service
begin

text \<open>
  The life of a run as an abstract machine, and the processes of the system (the tick, the workers,
  the operators' requests, the sweeper) as steps on the shared database. Every process is shown to
  move each run along the machine only, provided that the processes it interleaves with do.
\<close>

section \<open>The machine\<close>

text \<open>The columns no operation rewrites.\<close>

definition same_identity :: "run_row \<Rightarrow> run_row \<Rightarrow> bool" where
  "same_identity r r' \<longleftrightarrow>
     jr_run_id r' = jr_run_id r \<and> jr_tenant_id r' = jr_tenant_id r \<and> jr_instance_id r' = jr_instance_id r \<and>
     jr_definition_id r' = jr_definition_id r \<and> jr_definition_version r' = jr_definition_version r \<and>
     jr_scheduled_fire_time r' = jr_scheduled_fire_time r \<and> jr_params r' = jr_params r \<and>
     jr_execution_metadata r' = jr_execution_metadata r \<and> jr_parent_run_id r' = jr_parent_run_id r \<and>
     jr_redrive_of_run_id r' = jr_redrive_of_run_id r \<and> jr_created_at r' = jr_created_at r"

fun allowed :: "run_state \<Rightarrow> run_state \<Rightarrow> bool" where
  "allowed QUEUED RUNNING = True"
| "allowed QUEUED CANCELLED = True"
| "allowed RUNNING SUCCEEDED = True"
| "allowed RUNNING FAILED = True"
| "allowed RUNNING CANCELLING = True"
| "allowed CANCELLING CANCELLED = True"
| "allowed FAILED QUEUED = True"
| "allowed _ _ = False"

text \<open>
  A step of an existing run. A running or cancelling run may also be written without a change of
  state (heartbeats, the dispatch record). The token changes with a claim or a retry, the attempt
  number with a retry.
\<close>

definition row_step :: "run_row \<Rightarrow> run_row \<Rightarrow> bool" where
  "row_step r r' \<longleftrightarrow> same_identity r r' \<and>
     (allowed (jr_state r) (jr_state r') \<or> jr_state r' = jr_state r \<and> jr_state r \<in> {RUNNING, CANCELLING}) \<and>
     (jr_dispatch_id r' \<noteq> jr_dispatch_id r \<longrightarrow>
        jr_state r = QUEUED \<and> jr_state r' = RUNNING \<or> jr_state r = FAILED \<and> jr_state r' = QUEUED) \<and>
     (jr_attempt r' \<noteq> jr_attempt r \<longrightarrow> jr_state r = FAILED \<and> jr_state r' = QUEUED)"

inductive lifecycle_step :: "run_row option \<Rightarrow> run_row option \<Rightarrow> bool" where
  created: "jr_state r = QUEUED \<Longrightarrow> jr_attempt r = 1 \<Longrightarrow> lifecycle_step None (Some r)"
| advanced: "row_step r r' \<Longrightarrow> lifecycle_step (Some r) (Some r')"

inductive_cases lifecycle_from_Some: "lifecycle_step (Some r) y"

definition evolves :: "pg \<Rightarrow> pg \<Rightarrow> bool" where
  "evolves s s' \<longleftrightarrow> (\<forall>j. lifecycle_step\<^sup>*\<^sup>* (find_run j (pg_db s)) (find_run j (pg_db s')))"

definition rely :: "(nat \<Rightarrow> pg \<Rightarrow> pg) \<Rightarrow> bool" where
  "rely others \<longleftrightarrow> (\<forall>k s. evolves s (others k s))"

section \<open>The processes\<close>

inductive system_step :: "pg \<Rightarrow> pg \<Rightarrow> bool" where
  sys_tick: "tick cronNext getDef locked t batchSize dryRun s = (r, s') \<Longrightarrow> system_step s s'"
| sys_poll: "pollOnce maxConcurrency locked uuid t (s, p) = (claimed, s', p') \<Longrightarrow> system_step s s'"
| sys_heartbeat: "heartbeatOnce clock p (s, c) = (r, s', c') \<Longrightarrow> system_step s s'"
| sys_execute_claimed: "we_store env = RunStore \<Longrightarrow> rely (we_others env) \<Longrightarrow>
     executeClaimedRun env runId dispatchId w = (r, w') \<Longrightarrow> system_step (wk_db w) (wk_db w')"
| sys_execute: "we_store env = RunStore \<Longrightarrow> rely (we_others env) \<Longrightarrow>
     executeRun env runId w = (r, w') \<Longrightarrow> system_step (wk_db w) (wk_db w')"
| sys_complete: "we_store env = RunStore \<Longrightarrow> rely (we_others env) \<Longrightarrow>
     completeRun env runId completion reportedEnd w = (r, w') \<Longrightarrow> system_step (wk_db w) (wk_db w')"
| sys_retry: "rely others \<Longrightarrow> retryRun RunStore others t dbNow uuid runId s = (r, s') \<Longrightarrow> system_step s s'"
| sys_cancel: "rely others \<Longrightarrow> cancelRun RunStore launcher others t dbNow reason cancelledBy runId s = (r, s') \<Longrightarrow>
     system_step s s'"
| sys_redrive: "rely others \<Longrightarrow> redriveRun RunStore others t uuid1 uuid2 runId s = (r, s') \<Longrightarrow> system_step s s'"
| sys_sweep: "rely others \<Longrightarrow> sweep others clock dbNow thresholdMs batchSize (s, b) = (r, s', b') \<Longrightarrow> system_step s s'"
| sys_run_now: "ie_store env = InstanceStore \<Longrightarrow> runNow env (Some RunStore) uuid instanceId s = (r, s') \<Longrightarrow> system_step s s'"
| sys_instance: "ie_store env = InstanceStore \<Longrightarrow> handle_instance_request env req s = (r, s') \<Longrightarrow> system_step s s'"

section \<open>Statements\<close>

lemma evolves_reflp: "reflp evolves"
  by (simp add: reflp_def evolves_def)

lemma evolves_transp: "transp evolves"
  unfolding transp_def evolves_def by (blast intro: rtranclp_trans)

lemma evolves_refl [simp]: "evolves s s"
  by (simp add: evolves_def)

lemma evolves_trans: "evolves a b \<Longrightarrow> evolves b c \<Longrightarrow> evolves a c"
  using evolves_transp by (blast dest: transpD)

lemma evolves_runs: "job_runs (pg_db s') = job_runs (pg_db s) \<Longrightarrow> evolves s s'"
  by (simp add: evolves_def find_run_def)

lemma evolves_db: "pg_db s1 = pg_db s \<Longrightarrow> pg_db s2 = pg_db s' \<Longrightarrow> evolves s1 s2 = evolves s s'"
  by (simp add: evolves_def)

lemma keeps_exec_evolves:
  assumes "\<And>d j. lifecycle_step\<^sup>*\<^sup>* (find_run j d) (find_run j (snd (f d)))"
  shows "keeps evolves (exec f)"
  unfolding keeps_def evolves_def
proof (intro allI)
  fix s j
  show "lifecycle_step\<^sup>*\<^sup>* (find_run j (pg_db s)) (find_run j (pg_db (snd (exec f s))))"
    using exec_db [of f s] assms [of j "pg_db s"] by (elim disjE) simp_all
qed

lemma keeps_exec_runs: "(\<And>d. job_runs (snd (f d)) = job_runs d) \<Longrightarrow> keeps evolves (exec f)"
  by (rule keeps_exec_evolves) (simp add: find_run_def)

lemma keeps_exec_update:
  assumes "\<And>x. jr_run_id (f x) = jr_run_id x" "\<And>x. P x \<Longrightarrow> row_step x (f x)"
  shows "keeps evolves (exec (update_runs P f))"
proof (rule keeps_exec_evolves)
  fix d j
  show "lifecycle_step\<^sup>*\<^sup>* (find_run j d) (find_run j (snd (update_runs P f d)))"
    by (cases "find_run j d") (auto simp: update_runs_find [OF assms(1)] intro!: r_into_rtranclp lifecycle_step.advanced assms(2))
qed

lemma keeps_exec_insert:
  assumes "jr_state row = QUEUED" "jr_attempt row = 1"
  shows "keeps evolves (exec (insert_run row))"
proof (rule keeps_exec_evolves)
  fix d j
  have "find_run j (snd (insert_run row d)) = (if find_run j d = None \<and> j = jr_run_id row then Some row else find_run j d)"
    by (auto simp: insert_run_def find_run_def find_snoc split: option.splits)
  then show "lifecycle_step\<^sup>*\<^sup>* (find_run j d) (find_run j (snd (insert_run row d)))"
    using lifecycle_step.created [OF assms] by (auto intro: r_into_rtranclp)
qed

lemma keeps_transaction:
  assumes "keeps evolves body"
  shows "keeps evolves (transaction body)"
  unfolding keeps_def
proof
  fix s
  obtain r t where t: "transaction body s = (r, t)" by fastforce
  from transaction_atomic [OF t] show "evolves s (snd (transaction body s))"
  proof (elim disjE exE conjE)
    fix a s1 s2
    assume "pg_db s1 = pg_db s" "body s1 = (Inr a, s2)" "pg_db t = pg_db s2"
    then show ?thesis using keepsD [OF assms] t evolves_db [of s1 s s2 t] by simp
  qed (simp add: t evolves_runs)
qed

lemma Pair_evolves: "keeps evolves (Pair x)"
  by (simp add: keeps_def)

lemmas evolving = Pair_evolves keeps_andThen keeps_tryCatch keeps_ret keeps_throw keeps_forEach evolves_reflp evolves_transp

section \<open>The stores\<close>

lemma row_step_sets:
  "jr_state r = QUEUED \<Longrightarrow> row_step r (claim_set u t st r)"
  "jr_state r = RUNNING \<Longrightarrow> row_step r (succeeded_set t res st r)"
  "jr_state r = RUNNING \<Longrightarrow> row_step r (failed_set t er st r)"
  "jr_state r = CANCELLING \<Longrightarrow> row_step r (cancelled_set t er st r)"
  by (simp_all add: row_step_def same_identity_def claim_set_def succeeded_set_def failed_set_def cancelled_set_def)

lemma row_step_assigns:
  "jr_state r = FAILED \<Longrightarrow> row_step r (assign_all (retry_assigns n u t) dbNow r)"
  "jr_state r = RUNNING \<Longrightarrow> row_step r (assign_all (cancelling_assigns t who reason) dbNow r)"
  "jr_state r = QUEUED \<Longrightarrow> row_step r (assign_all (cancelled_assigns t who reason) dbNow r)"
  "jr_state r = CANCELLING \<Longrightarrow> row_step r (assign_all (killed_assigns t m) dbNow r)"
  by (simp_all add: row_step_def same_identity_def assign_all_def retry_assigns_def cancelling_assigns_def
      cancelled_assigns_def killed_assigns_def)

lemma read_evolves: "keeps evolves (exec (\<lambda>d. (f d, d)))"
  by (rule keeps_exec_runs) simp

lemma control_evolves: "keeps evolves exec_control"
  unfolding exec_control_def by (rule read_evolves)

lemma run_store_evolves:
  "keeps evolves (getRun i)"
  "keeps evolves (claimRun u i t st)"
  "keeps evolves (recordRuntimeExecution i x t st d)"
  "keeps evolves (markSucceeded i t res st d)"
  "keeps evolves (markFailed i t er st d)"
  "keeps evolves (markCancelled i t er st)"
  "keeps evolves (touchHeartbeat i d t)"
  "keeps evolves (listQueuedRunIds n)"
  "keeps evolves (listStaleRunningIds t th n)"
  "keeps evolves (listStaleCancellingIds t th n)"
  unfolding getRun_def claimRun_def recordRuntimeExecution_def markSucceeded_def markFailed_def markCancelled_def
    touchHeartbeat_def listQueuedRunIds_def listStaleRunningIds_def listStaleCancellingIds_def
  by (auto intro!: evolving read_evolves keeps_exec_update row_step_sets split: list.split)
    (auto simp: row_step_def same_identity_def)

lemma createRun_evolves:
  assumes "rn_state doc = QUEUED" "rn_attempt doc = Some 1"
  shows "keeps evolves (createRun doc)" "keeps evolves (createRunTx doc)"
  unfolding createRun_def createRunTx_def
  by (auto intro!: evolving keeps_exec_insert simp: documentToRow_def assms)

lemma transition_evolves:
  assumes "\<And>r. jr_state r \<in> set from \<Longrightarrow> row_step r (assign_all assigns dbNow r)"
  shows "keeps evolves (transition i from assigns dbNow)"
  unfolding transition_def by (intro evolving keeps_exec_update) (auto intro: assms)

lemma claimNextQueued_evolves: "keeps evolves (claimNextQueued locked uuid n t)"
proof -
  have "keeps evolves (claim_loop uuid t i ids)" for i ids
    by (induction uuid t i ids rule: claim_loop.induct) (auto intro!: evolving keeps_exec_update row_step_sets)
  then show ?thesis
    unfolding claimNextQueued_def by (intro evolving control_evolves keeps_transaction read_evolves)
qed

lemma instance_store_evolves:
  "keeps evolves (createInstance doc)" "keeps evolves (getInstance i)" "keeps evolves (updateInstance i doc)"
  "keeps evolves (claimDueInstances locked t n forUpdate)" "keeps evolves (advanceInstance i t1 t2 t3)"
  unfolding createInstance_def getInstance_def updateInstance_def claimDueInstances_def advanceInstance_def
  by (auto intro!: evolving keeps_exec_runs simp: upsert_instance_def update_instances_def Let_def split: list.split option.split)

section \<open>The services\<close>

lemma rely_alone: "rely (\<lambda>_ s. s)"
  by (simp add: rely_def)

lemma relyD: "rely others \<Longrightarrow> keeps evolves (interleave (others k))" "rely others \<Longrightarrow> keeps evolves (meanwhile (others k))"
  by (simp_all add: rely_def keeps_def interleave_def meanwhile_def)

lemma RunStore_ops:
  "rs_getRun RunStore = getRun" "rs_createRun RunStore = createRun" "rs_claimRun RunStore = claimRun"
  "rs_recordRuntimeExecution RunStore = recordRuntimeExecution" "rs_markSucceeded RunStore = markSucceeded"
  "rs_markFailed RunStore = markFailed" "rs_transition RunStore = transition"
  "rs_listQueuedRunIds RunStore = listQueuedRunIds"
  by (simp_all add: RunStore_def)

lemma retry_evolves: "rely others \<Longrightarrow> keeps evolves (retryRun RunStore others t dbNow uuid i)"
  unfolding retryRun_def RunStore_ops Let_def
  by (auto intro!: evolving run_store_evolves relyD transition_evolves row_step_assigns split: option.split)

lemma cancel_evolves: "rely others \<Longrightarrow> keeps evolves (cancelRun RunStore launcher others t dbNow reason who i)"
  unfolding cancelRun_def cancelRuntimeExecution_def RunStore_ops Let_def
  by (auto intro!: evolving run_store_evolves relyD transition_evolves row_step_assigns split: option.split sum.split)

lemma redrive_evolves: "rely others \<Longrightarrow> keeps evolves (redriveRun RunStore others t u1 u2 i)"
  unfolding redriveRun_def RunStore_ops Let_def
  by (auto intro!: evolving run_store_evolves relyD createRun_evolves simp: redrive_document_def split: option.split)

lemma sweep_evolves:
  assumes "rely others" "sweep others clock dbNow th n (s, b) = (r, s', b')"
  shows "evolves s s'"
proof -
  have one: "keeps evolves (sweep_one_running others clock x)" "keeps evolves (sweep_one_cancelling others clock y)" for x y
    unfolding sweep_one_running_def sweep_one_cancelling_def
    by (auto intro!: evolving run_store_evolves relyD assms(1) split: prod.split)
  have "keeps evolves (andThen (sweepRunning others clock dbNow th n) (\<lambda>_. sweepCancelling others clock dbNow th n))"
    unfolding sweepRunning_def sweepCancelling_def
    by (intro evolving run_store_evolves) (auto intro!: evolving one split: option.split)
  from keepsD [OF this] show ?thesis using assms(2) by (auto simp: sweep_def split: if_splits prod.splits)
qed

section \<open>The tick\<close>

abbreviation tick_evolves :: "pg \<times> tick_summary \<Rightarrow> pg \<times> tick_summary \<Rightarrow> bool" where
  "tick_evolves \<equiv> (\<lambda>a b. evolves (fst a) (fst b))"

lemma tick_evolves_rules: "reflp tick_evolves" "transp tick_evolves"
  by (auto simp: reflp_def transp_def intro: evolves_trans)

lemma on_db_evolves: "keeps evolves m \<Longrightarrow> keeps tick_evolves (on_db m)"
  by (auto simp: keeps_def on_db_def split: prod.splits) (metis snd_conv)

lemma tally_evolves: "keeps tick_evolves (tally f)"
  by (auto simp: keeps_def tally_def)

lemma tick_prepare_queued:
  assumes "tick_prepare cronNext getDef t inst = Inr (n, doc)"
  shows "rn_state doc = QUEUED" "rn_attempt doc = Some 1"
proof -
  obtain i fire meta where "doc = buildRunDocument i inst fire t meta"
    using assms by (simp add: tick_prepare_def Let_def split: sum.splits) metis
  then show "rn_state doc = QUEUED" "rn_attempt doc = Some 1" by (simp_all add: buildRunDocument_def)
qed

lemma tick_body_evolves: "keeps tick_evolves (tick_body cronNext getDef t inst)"
proof (cases "tick_prepare cronNext getDef t inst")
  case (Inr p)
  obtain n doc where p: "p = (n, doc)" by (cases p)
  with Inr have "rn_state doc = QUEUED" "rn_attempt doc = Some 1" using tick_prepare_queued by simp_all
  then show ?thesis unfolding tick_body_def Inr p sum.case prod.case
    by (intro keeps_andThen tick_evolves_rules on_db_evolves tally_evolves createRun_evolves instance_store_evolves control_evolves)
qed (simp add: tick_body_def keeps_throw tick_evolves_rules)

lemma tick_instance_evolves: "keeps tick_evolves (tick_instance cronNext getDef t inst)"
  unfolding tick_instance_def
proof (intro keeps_andThen tick_evolves_rules on_db_evolves control_evolves)
  show "keeps tick_evolves (\<lambda>s. tryCatch (tick_body cronNext getDef t inst)
      (\<lambda>_. andThen (on_db (rollback_to (pg_db (fst s)))) (\<lambda>_. tally (\<lambda>c. c\<lparr>ts_failed := Suc (ts_failed c)\<rparr>))) s)"
    unfolding keeps_def
  proof
    fix s :: "pg \<times> tick_summary"
    let ?h = "andThen (on_db (rollback_to (pg_db (fst s)))) (\<lambda>_. tally (\<lambda>c. c\<lparr>ts_failed := Suc (ts_failed c)\<rparr>))"
    obtain q u where q: "tick_body cronNext getDef t inst s = (q, u)" by (metis surj_pair)
    have body: "evolves (fst s) (fst u)" by (rule keepsD [OF tick_body_evolves q])
    have "pg_db (fst (snd (?h u))) \<in> {pg_db (fst u), pg_db (fst s)}"
      using exec_db [of "\<lambda>_. ((), pg_db (fst s))" "fst u"]
      by (auto simp: andThen_def on_db_def tally_def rollback_to_def split: prod.splits sum.splits)
    then have "evolves (fst s) (fst (snd (?h u)))"
      using body evolves_db [of "fst s" "fst s" "fst (snd (?h u))" "fst u"] by (auto intro: evolves_runs)
    then show "evolves (fst s) (fst (snd (tryCatch (tick_body cronNext getDef t inst) (\<lambda>_. ?h) s)))"
      using q body by (cases q) (simp_all add: tryCatch_def)
  qed
qed

lemma tick_system_evolves: "keeps evolves (tick cronNext getDef locked t n dryRun)"
proof -
  have loop: "keeps evolves (tick_loop cronNext getDef t insts)" for insts
    unfolding keeps_def
  proof
    fix s
    let ?c = "(emptySummary False)\<lparr>ts_checked := length insts\<rparr>"
    obtain q u where q: "forEach (tick_instance cronNext getDef t) insts (s, ?c) = (q, u)" by (metis surj_pair)
    have "keeps tick_evolves (forEach (tick_instance cronNext getDef t) insts)"
      by (intro keeps_forEach tick_evolves_rules tick_instance_evolves)
    from keepsD [OF this q] show "evolves s (snd (tick_loop cronNext getDef t insts s))"
      using q by (cases u; cases q) (simp_all add: tick_loop_def)
  qed
  show ?thesis unfolding tick_def
    by (auto intro!: evolving control_evolves keeps_transaction instance_store_evolves loop)
qed

section \<open>The workers\<close>

abbreviation worker_evolves :: "pg worker \<Rightarrow> pg worker \<Rightarrow> bool" where
  "worker_evolves \<equiv> (\<lambda>a b. evolves (wk_db a) (wk_db b))"

lemma worker_evolves_rules: "reflp worker_evolves" "transp worker_evolves"
  by (auto simp: reflp_def transp_def intro: evolves_trans)

lemma worker_parts_evolve:
  "keeps worker_evolves (now env)" "keeps worker_evolves (randomUUID env)" "keeps worker_evolves (audit env a b c x)"
  "keeps worker_evolves (outcome v)"
  by (auto simp: keeps_def now_def randomUUID_def outcome_def split: sum.split)

lemma store_call_evolves:
  assumes "rely (we_others env)" "keeps evolves m"
  shows "keeps worker_evolves (store_call env m)"
  unfolding keeps_def
proof
  fix w :: "pg worker"
  have "evolves (wk_db w) (we_others env (wk_step w) (wk_db w))" using assms(1) by (simp add: rely_def)
  moreover have "evolves (we_others env (wk_step w) (wk_db w)) (snd (m (we_others env (wk_step w) (wk_db w))))"
    using assms(2) by (simp add: keeps_def)
  ultimately show "evolves (wk_db w) (wk_db (snd (store_call env m w)))"
    by (auto simp: store_call_def Let_def split: prod.splits intro: evolves_trans)
qed

lemmas working = keeps_andThen keeps_tryCatch keeps_ret keeps_throw worker_evolves_rules worker_parts_evolve
  store_call_evolves run_store_evolves

lemma claimed_run_evolves:
  assumes "we_store env = RunStore" "rely (we_others env)"
  shows "keeps worker_evolves (fail_run env i run t e)" "keeps worker_evolves (runClaimedLocally env run t)"
    "keeps worker_evolves (executeClaimedRun env i d)" "keeps worker_evolves (claimQueuedRun env i)"
proof -
  show f: "keeps worker_evolves (fail_run env i run t e)" for i run t e
    unfolding fail_run_def worker_markFailed_def assms(1) RunStore_ops Let_def by (intro working assms(2))
  have "keeps worker_evolves (finish_run env run x v t res)" for x v res run t
    unfolding finish_run_def worker_markSucceeded_def assms(1) RunStore_ops Let_def
    by (auto intro!: working assms(2))
  then show l: "keeps worker_evolves (runClaimedLocally env run t)" for run t
    unfolding runClaimedLocally_def run_pipeline_def by (intro working f)
  show "keeps worker_evolves (executeClaimedRun env i d)"
    unfolding executeClaimedRun_def assms(1) RunStore_ops by (auto intro!: working assms(2) l split: option.split)
  show "keeps worker_evolves (claimQueuedRun env i)"
    unfolding claimQueuedRun_def assms(1) RunStore_ops Let_def
    by (auto intro!: working assms(2) split: option.split claim.split)
qed

lemma executeRun_evolves:
  assumes "we_store env = RunStore" "rely (we_others env)"
  shows "keeps worker_evolves (executeRun env i)"
proof -
  have internal: "keeps worker_evolves (executeRunLocallyInternal env i)"
    unfolding executeRunLocallyInternal_def by (auto intro!: working claimed_run_evolves assms split: sum.split)
  have "keeps worker_evolves (executeRunLocally env i)"
    unfolding keeps_def
  proof
    fix w :: "pg worker"
    obtain q u where q: "executeRunLocallyInternal env i (w\<lparr>wk_localRunning := wk_localRunning w + 1\<rparr>) = (q, u)" by fastforce
    show "evolves (wk_db w) (wk_db (snd (executeRunLocally env i w)))"
      using keepsD [OF internal q] q by (simp add: executeRunLocally_def)
  qed
  moreover have "keeps worker_evolves (dispatch_pipeline env launch i run t)" for launch run t
    unfolding dispatch_pipeline_def assms(1) RunStore_ops by (intro working assms(2))
  then have "keeps worker_evolves (dispatchRun env i)"
    unfolding dispatchRun_def by (auto intro!: working claimed_run_evolves assms split: sum.split option.split)
  ultimately show ?thesis by (simp add: executeRun_def)
qed

lemma completeRun_evolves:
  assumes "we_store env = RunStore" "rely (we_others env)"
  shows "keeps worker_evolves (completeRun env i completion reportedEnd)"
  unfolding completeRun_def worker_markFailed_def worker_markSucceeded_def assms(1) RunStore_ops Let_def
  by (auto intro!: working assms(2) split: option.split)

section \<open>Polls, heartbeats and instance requests\<close>

lemma poll_evolves: "pollOnce m locked uuid t (s, p) = (cl, s', p') \<Longrightarrow> evolves s s'"
  using keepsD [OF claimNextQueued_evolves, of locked uuid _ t s]
  by (auto simp: pollOnce_def poll_claim_def split: if_splits prod.splits sum.splits)

lemma heartbeat_evolves: "keeps (\<lambda>a b. evolves (fst a) (fst b)) (heartbeatOnce clock p)"
  unfolding heartbeatOnce_def
proof (rule keeps_forEach)
  show "reflp (\<lambda>a b. evolves (fst a) (fst b))" "transp (\<lambda>a b. evolves (fst a) (fst b))"
    by (auto simp: reflp_def transp_def intro: evolves_trans)
  show "keeps (\<lambda>a b. evolves (fst a) (fst b)) (case x of (k, e) \<Rightarrow> heartbeat_one clock k e)" for x
    unfolding keeps_def
    using keepsD [OF run_store_evolves(7)] by (auto simp: heartbeat_one_def split: prod.splits sum.splits)
qed

lemma InstanceStore_ops:
  "is_createInstance InstanceStore = createInstance" "is_getInstance InstanceStore = getInstance"
  "is_updateInstance InstanceStore = updateInstance"
  by (simp_all add: InstanceStore_def)

lemma run_now_evolves:
  assumes "ie_store env = InstanceStore" "runNow env (Some RunStore) uuid i s = (r, s')"
  shows "evolves s s'"
proof -
  obtain q u where q: "getInstance i s = (q, u)" by fastforce
  have g: "evolves s u" by (rule keepsD [OF instance_store_evolves(2) q])
  have c: "evolves u (snd (createRun (manual_run uuid (ie_now env 0) inst) u))" for inst
    using createRun_evolves(1) [of "manual_run uuid (ie_now env 0) inst"] by (simp add: keeps_def manual_run_def)
  show ?thesis using assms(2) q g
    by (auto simp: runNow_def assms(1) InstanceStore_ops RunStore_ops Let_def split: sum.splits option.splits if_splits prod.splits)
      (metis c evolves_trans snd_conv)+
qed

lemma instance_request_evolves:
  assumes "ie_store env = InstanceStore"
  shows "evolves s (snd (handle_instance_request env req s))"
proof -
  have r: "keeps evolves (requireInstance env i)" for i
    unfolding requireInstance_def assms InstanceStore_ops by (auto intro!: evolving instance_store_evolves split: option.split)
  have p: "keeps evolves (svc_patchInstance env i body)" for i body
    unfolding svc_patchInstance_def svc_patchParsed_def assms InstanceStore_ops
    by (auto intro!: evolving r instance_store_evolves split: sum.split)
  have c: "keeps evolves (svc_createInstance env i body)" "keeps evolves (svc_deleteInstance env i)" for i body
    unfolding svc_createInstance_def svc_deleteInstance_def assms InstanceStore_ops
    by (auto intro!: evolving r instance_store_evolves split: sum.split option.split)
  have h: "evolves s (snd (inst_handler n m s))" if "keeps evolves m" for n and m :: "(pg, inst_doc) eff"
    using keepsD [OF that, of s] by (cases "m s") (auto simp: inst_handler_def split: sum.split)
  show ?thesis by (cases req) (auto simp: svc_pauseInstance_def svc_resumeInstance_def intro!: h p c)
qed

section \<open>The system\<close>

lemma system_step_evolves: "system_step s s' \<Longrightarrow> evolves s s'"
proof (induction rule: system_step.induct)
  case sys_tick
  then show ?case by (rule keepsD [OF tick_system_evolves])
next
  case (sys_heartbeat clock p s c r s' c')
  from keepsD [OF heartbeat_evolves this] show ?case by simp
next
  case (sys_instance env req s r s')
  from instance_request_evolves [OF sys_instance(1), of s req] sys_instance(2) show ?case by simp
qed (blast intro: poll_evolves keepsD [OF claimed_run_evolves(3)] keepsD [OF executeRun_evolves] keepsD [OF completeRun_evolves]
    keepsD [OF retry_evolves] keepsD [OF cancel_evolves] keepsD [OF redrive_evolves] sweep_evolves run_now_evolves)+

lemma system_evolves: "system_step\<^sup>*\<^sup>* s s' \<Longrightarrow> evolves s s'"
  by (induction rule: rtranclp_induct) (auto intro: system_step_evolves evolves_trans)

text \<open>What the machine keeps of a run, whatever happens to it.\<close>

lemma lifecycle_keeps:
  assumes "lifecycle_step\<^sup>*\<^sup>* (Some r) y"
  shows "\<exists>r'. y = Some r' \<and> same_identity r r' \<and> (jr_state r \<in> {SUCCEEDED, CANCELLED} \<longrightarrow> r' = r)"
  using assms
proof (induction rule: rtranclp_induct)
  case base
  then show ?case by (simp add: same_identity_def)
next
  case (step y z)
  then obtain r' where r': "y = Some r'" "same_identity r r'" "jr_state r \<in> {SUCCEEDED, CANCELLED} \<longrightarrow> r' = r" by blast
  with step(2) obtain q where q: "z = Some q" "row_step r' q" by (auto elim: lifecycle_from_Some)
  have "same_identity r q" using r'(2) q(2) by (simp add: row_step_def same_identity_def)
  moreover have "jr_state r \<notin> {SUCCEEDED, CANCELLED}"
  proof
    assume "jr_state r \<in> {SUCCEEDED, CANCELLED}"
    then show False using r'(3) q(2) by (cases "jr_state q") (auto simp: row_step_def)
  qed
  ultimately show ?case using q(1) by blast
qed

end
