(* ===== verification/Http_Service.thy ===== *)
theory Http_Service
  imports Iga_Gateway Run_Lifecycle
begin

text \<open>
  The HTTP surface that \<open>src/src/createApp.js\<close> puts together: the routers of \<open>src/src/routes\<close> behind the
  authentication of their mount point, the error handlers, and the checks of the configuration at startup
  (\<open>src/src/config/productionValidation.js\<close>, \<open>src/src/main.js\<close>). Routing itself is done by the express
  library; a request is given by the route it matched.
\<close>

section \<open>Errors and parameters\<close>

text \<open>The error handler of the internal run router and the global one; the status is compared as a number.\<close>

definition internal_error_reply :: "js_error \<Rightarrow> 'a reply" where
  "internal_error_reply e =
     ErrorReply (js_status (js_or (e_statusCode e) (JInt 500))) (error_body (e_message e))"

definition globalErrorHandler :: "js_error \<Rightarrow> string \<Rightarrow> 'a reply" where
  "globalErrorHandler error requestId =
     (let statusCode = js_or (js_or (e_statusCode error) (e_meta_statusCode error)) (JInt 500);
          safeStatusCode = (case js_Number statusCode of Fin q \<Rightarrow> if 400 \<le> q \<and> q < 600 then js_status statusCode else 500 | _ \<Rightarrow> 500) in
      ErrorReply safeStatusCode (JObj [(''error'', JStr (if safeStatusCode \<ge> 500 then ''internal error'' else e_message error)),
        (''requestId'', JStr requestId)]))"

definition assignRequestId :: "string option \<Rightarrow> string \<Rightarrow> string" where
  "assignRequestId header uuid = (if truthy_str header then the header else uuid)"

text \<open>\<open>decodeURIComponent\<close> on bytes; \<open>None\<close> where it throws.\<close>

fun decodeURIComponent :: "string \<Rightarrow> string option" where
  "decodeURIComponent [] = Some []"
| "decodeURIComponent (c # s) =
     (if c = CHR ''%''
      then (case s of
              a # b # rest \<Rightarrow>
                (case radix_value 16 0 [a, b] of
                   Some n \<Rightarrow> map_option (Cons (char_of n)) (decodeURIComponent rest)
                 | None \<Rightarrow> None)
            | _ \<Rightarrow> None)
      else map_option (Cons c) (decodeURIComponent s))"

text \<open>\<open>parseInt(s, 10)\<close>; \<open>None\<close> for NaN.\<close>

definition parseInt10 :: "string \<Rightarrow> int option" where
  "parseInt10 s =
     (let t = dropWhile js_space s; neg = startsWith t ''-''; u = (if startsWith t ''-'' \<or> startsWith t ''+'' then tl t else t);
          ds = takeWhile is_digit u in
      if ds = [] then None
      else map_option (\<lambda>n. if neg then - int n else int n) (radix_value 10 0 ds))"

definition runs_limit :: "string option \<Rightarrow> int" where
  "runs_limit q =
     (let n = parseInt10 (if truthy_str q then the q else ''50'') in
      min (case n of None \<Rightarrow> 50 | Some k \<Rightarrow> if k = 0 then 50 else k) 200)"

definition reason_of :: "js \<Rightarrow> string" where
  "reason_of body = (let v = js_prop body ''reason'' in if truthy v then js_String v else [])"

section \<open>Runs\<close>

definition toPublicRun :: "run_doc \<Rightarrow> run_doc" where
  "toPublicRun run = run\<lparr>rn_runtimeExecution := JUndefined\<rparr>"

definition get_run_route :: "'db run_store option \<Rightarrow> string \<Rightarrow> ('db, run_doc reply) eff" where
  "get_run_route rs runId =
     (case rs of
        None \<Rightarrow> ret (ErrorReply 503 (error_body ''runStore not available''))
      | Some S \<Rightarrow> andThen (rs_getRun S runId) (\<lambda>run. ret (case run of
          None \<Rightarrow> ErrorReply 404 (error_body ''run not found'') | Some r \<Rightarrow> Reply 200 (toPublicRun r))))"

text \<open>A negative limit is an error of the database.\<close>

definition list_runs_route :: "bool \<Rightarrow> string \<Rightarrow> string option \<Rightarrow> string option \<Rightarrow> (pg, run_doc list reply) eff" where
  "list_runs_route hasStore instanceId limitText st =
     (if \<not> hasStore then ret (ErrorReply 503 (error_body ''runStore not available''))
      else if runs_limit limitText < 0 then throw dbError
      else andThen (listRunsForInstance instanceId (nat (runs_limit limitText)) (if truthy_str st then st else None))
             (\<lambda>items. ret (Reply 200 (map toPublicRun items))))"

record control_env =
  ce_others :: "nat \<Rightarrow> pg \<Rightarrow> pg"
  ce_now :: instant
  ce_dbNow :: instant
  ce_uuid1 :: string
  ce_uuid2 :: string

definition post_cancel_route :: "control_env \<Rightarrow> js \<Rightarrow> string \<Rightarrow> js \<Rightarrow> (pg, js reply) eff" where
  "post_cancel_route env clientId runId body =
     andThen (cancelRun RunStore None (ce_others env) (ce_now env) (ce_dbNow env) (reason_of body)
       (if truthy clientId then js_String clientId else ''admin-ui'') runId) (\<lambda>result. ret (Reply 202 result))"

datatype control_request = PostRetry string | PostCancel string js | PostRedrive string

fun control_call :: "control_env \<Rightarrow> control_request \<Rightarrow> (pg, js) eff" where
  "control_call env (PostRetry i) =
     (case decodeURIComponent i of None \<Rightarrow> throw (newError ''URI malformed'')
      | Some runId \<Rightarrow> retryRun RunStore (ce_others env) (ce_now env) (ce_dbNow env) (ce_uuid1 env) runId)"
| "control_call env (PostCancel i body) =
     (case decodeURIComponent i of None \<Rightarrow> throw (newError ''URI malformed'')
      | Some runId \<Rightarrow> cancelRun RunStore None (ce_others env) (ce_now env) (ce_dbNow env) (reason_of body) ''operator'' runId)"
| "control_call env (PostRedrive i) =
     (case decodeURIComponent i of None \<Rightarrow> throw (newError ''URI malformed'')
      | Some runId \<Rightarrow> redriveRun RunStore (ce_others env) (ce_now env) (ce_uuid1 env) (ce_uuid2 env) runId)"

definition internal_run_route :: "control_env \<Rightarrow> control_request \<Rightarrow> pg \<Rightarrow> js reply \<times> pg" where
  "internal_run_route env req s =
     (case control_call env req s of (Inl e, s') \<Rightarrow> (internal_error_reply e, s') | (Inr v, s') \<Rightarrow> (Reply 202 v, s'))"

section \<open>The tick\<close>

record tick_env =
  te_cron :: cron
  te_getDef :: "(string \<Rightarrow> js_error + js) option"
  te_locked :: "string \<Rightarrow> bool"
  te_now :: instant
  te_batchSize :: nat
  te_rowCount :: "js \<Rightarrow> nat option"

text \<open>The limit of a tick: the default when none is given. What row count the database reads from a value of
  \<open>LIMIT\<close>, or that it refuses it, is a parameter.\<close>

definition tick_limit :: "tick_env \<Rightarrow> js \<Rightarrow> nat option" where
  "tick_limit env v = (if v = JUndefined then Some (te_batchSize env) else te_rowCount env v)"

definition tick_failed :: "js_error \<Rightarrow> 'a reply" where
  "tick_failed e = ErrorReply 500 (JObj [(''error'', JStr ''scheduler tick failed''), (''message'', JStr (e_message e))])"

definition tick_route :: "tick_env \<Rightarrow> js \<Rightarrow> pg \<Rightarrow> tick_summary reply \<times> pg" where
  "tick_route env body s =
     (case tick_limit env (js_prop body ''batchSize'') of
        None \<Rightarrow> (tick_failed dbError, s)
      | Some n \<Rightarrow>
          (case tick (te_cron env) (te_getDef env) (te_locked env) (te_now env) n (js_prop body ''dryRun'' = JBool True) s of
             (Inl e, s') \<Rightarrow> (tick_failed e, s')
           | (Inr summary, s') \<Rightarrow> (Reply 200 summary, s')))"

section \<open>The IGA routes\<close>

definition runtime_iga_route :: "pg gateway_env \<Rightarrow> js \<Rightarrow> js \<Rightarrow> (pg gateway, js) eff" where
  "runtime_iga_route env prin body =
     proxy_request env (js_prop body ''runId'') (js_prop body ''dispatchId'') (js_prop body ''method'') (js_prop body ''path'')
       (js_prop body ''body'') prin"

definition iga_health_route :: "pg gateway_env \<Rightarrow> pg gateway \<Rightarrow> js reply \<times> pg gateway" where
  "iga_health_route env g =
     (case getAccessToken env g of
        (Inr _, g') \<Rightarrow> (Reply 200 (JObj [(''status'', JStr ''ok''), (''oauth'', JStr ''ok''), (''iga'', JStr ''not_checked''),
          (''message'', JStr ''OAuth token acquisition succeeded. Configure IGA_HEALTH_PATH to validate an IGA API endpoint.'')]), g')
      | (Inl _, g') \<Rightarrow> (ErrorReply 500 (JObj [(''status'', JStr ''error''), (''oauth'', JStr ''error''), (''iga'', JStr ''not_checked''),
          (''message'', JStr ''OAuth token acquisition failed'')]), g'))"

definition iga_api_health_route :: "pg gateway_env \<Rightarrow> string option \<Rightarrow> pg gateway \<Rightarrow> js reply \<times> pg gateway" where
  "iga_api_health_route env healthPath g =
     (if \<not> truthy_str healthPath
      then (ErrorReply 400 (JObj [(''status'', JStr ''error''), (''message'', JStr ''IGA_HEALTH_PATH is not configured'')]), g)
      else case iga_request env ''GET'' (the healthPath) JUndefined True g of
        (Inr res, g') \<Rightarrow> (Reply 200 (JObj [(''status'', JStr ''ok''), (''oauth'', JStr ''ok''), (''iga'', JStr ''ok''),
          (''path'', JStr (the healthPath)), (''result'', res)]), g')
      | (Inl _, g') \<Rightarrow> (ErrorReply 500 (JObj [(''status'', JStr ''error''), (''oauth'', JStr ''ok''), (''iga'', JStr ''error''),
          (''path'', JStr (the healthPath)), (''message'', JStr ''IGA API health check failed'')]), g'))"

section \<open>Probes\<close>

definition health_route :: "js reply" where
  "health_route = Reply 200 (JObj [(''status'', JStr ''ok'')])"

definition ready_route :: "(js_error + unit) option \<Rightarrow> js \<Rightarrow> js reply" where
  "ready_route ping cachedReadiness =
     (case ping of
        None \<Rightarrow> Reply 200 cachedReadiness
      | Some (Inl _) \<Rightarrow> ErrorReply 503 (js_set (js_set cachedReadiness ''status'' (JStr ''unavailable'')) ''esConnected'' (JBool False))
      | Some (Inr _) \<Rightarrow> Reply 200 (js_set cachedReadiness ''esConnected'' (JBool True)))"

definition createDefaultReadiness :: "process_env \<Rightarrow> js" where
  "createDefaultReadiness env =
     JObj [(''status'', JStr ''ok''),
           (''environment'', JStr (if truthy_str (env ''NODE_ENV'') then the (env ''NODE_ENV'') else ''development'')),
           (''executionMode'', JStr (if truthy_str (env ''WORKER_EXECUTION_MODE'') then the (env ''WORKER_EXECUTION_MODE'') else ''local'')),
           (''runtimeJobConfigured'', JBool (truthy_str (env ''RUNTIME_CLOUD_RUN_JOB_NAME''))),
           (''runtimeServiceAccountConfigured'', JBool (truthy_str (env ''RUNTIME_SERVICE_ACCOUNT_EMAIL''))),
           (''runtimeBrokerConfigured'', JBool (truthy_str (env ''RUNTIME_BROKER_URL'')))]"

section \<open>The application\<close>

text \<open>The channel a route is mounted behind: the audience and the account it expects, or the scope, and the verifier.\<close>

record internal_channel =
  ch_audience :: string
  ch_email :: string
  ch_verify :: "string \<Rightarrow> js_error + js"

record app_env =
  ae_worker :: internal_channel
  ae_scheduler :: internal_channel
  ae_runtime :: internal_channel
  ae_scope :: "string option"
  ae_verifyPublic :: "string \<Rightarrow> js_error + js"
  ae_control :: control_env
  ae_tick :: tick_env
  ae_gateway :: "pg gateway_env"
  ae_instances :: "pg instance_env"
  ae_healthPath :: "string option"
  ae_uuid :: string
  ae_ping :: "(js_error + unit) option"
  ae_readiness :: js

datatype app_request =
    ControlRoute control_request
  | TickRoute js
  | RuntimeIgaRoute js
  | IgaHealth
  | IgaApiHealth
  | InstanceRoute instance_request
  | RunNowRoute string
  | CancelRoute string js
  | GetRunRoute string
  | ListRunsRoute string "string option" "string option"
  | Health
  | Ready

fun reply_status :: "'a reply \<Rightarrow> nat" where
  "reply_status (Reply n _) = n"
| "reply_status (ErrorReply n _) = n"

definition check_channel :: "internal_channel \<Rightarrow> string option \<Rightarrow> auth_result" where
  "check_channel ch = internalAuth (ch_audience ch) (ch_email ch) (ch_verify ch)"

text \<open>The authentication a route is mounted behind; the probes have none.\<close>

fun authenticate :: "app_env \<Rightarrow> app_request \<Rightarrow> string option \<Rightarrow> auth_result" where
  "authenticate env (ControlRoute _) = check_channel (ae_worker env)"
| "authenticate env (TickRoute _) = check_channel (ae_scheduler env)"
| "authenticate env (RuntimeIgaRoute _) = check_channel (ae_runtime env)"
| "authenticate env IgaHealth = check_channel (ae_worker env)"
| "authenticate env IgaApiHealth = check_channel (ae_worker env)"
| "authenticate env (InstanceRoute _) = publicAuth (ae_scope env) (ae_verifyPublic env)"
| "authenticate env (RunNowRoute _) = publicAuth (ae_scope env) (ae_verifyPublic env)"
| "authenticate env (CancelRoute _ _) = publicAuth (ae_scope env) (ae_verifyPublic env)"
| "authenticate env (GetRunRoute _) = publicAuth (ae_scope env) (ae_verifyPublic env)"
| "authenticate env (ListRunsRoute _ _ _) = publicAuth (ae_scope env) (ae_verifyPublic env)"
| "authenticate env Health = (\<lambda>_. Next JUndefined JUndefined)"
| "authenticate env Ready = (\<lambda>_. Next JUndefined JUndefined)"

text \<open>A handler on the database, as the status it answers and the state it leaves.\<close>

definition on_tables :: "(pg \<Rightarrow> 'a reply \<times> pg) \<Rightarrow> pg gateway \<Rightarrow> nat \<times> pg gateway" where
  "on_tables h g = (let (r, d) = h (gw_db g) in (reply_status r, g\<lparr>gw_db := d\<rparr>))"

text \<open>A handler whose rejection reaches the global error handler.\<close>

definition or_global :: "(pg, 'a reply) eff \<Rightarrow> pg \<Rightarrow> 'a reply \<times> pg" where
  "or_global h s = (case h s of (Inr r, s') \<Rightarrow> (r, s') | (Inl e, s') \<Rightarrow> (globalErrorHandler e [], s'))"

text \<open>The handler of a route, given the principal its authentication established.\<close>

fun serve :: "app_env \<Rightarrow> js \<Rightarrow> app_request \<Rightarrow> pg gateway \<Rightarrow> nat \<times> pg gateway" where
  "serve env prin (ControlRoute req) = on_tables (internal_run_route (ae_control env) req)"
| "serve env prin (TickRoute body) = on_tables (tick_route (ae_tick env) body)"
| "serve env prin (RuntimeIgaRoute body) = (\<lambda>g.
     case runtime_iga_route (ae_gateway env) prin body g of
       (Inr _, g') \<Rightarrow> (200, g')
     | (Inl e, g') \<Rightarrow> (reply_status (globalErrorHandler e [] :: unit reply), g'))"
| "serve env prin IgaHealth = (\<lambda>g. let (r, g') = iga_health_route (ae_gateway env) g in (reply_status r, g'))"
| "serve env prin IgaApiHealth = (\<lambda>g. let (r, g') = iga_api_health_route (ae_gateway env) (ae_healthPath env) g in (reply_status r, g'))"
| "serve env prin (InstanceRoute req) = on_tables (handle_instance_request (ae_instances env) req)"
| "serve env prin (RunNowRoute i) = on_tables (runNow (ae_instances env) (Some RunStore) (ae_uuid env) i)"
| "serve env prin (CancelRoute i body) = on_tables (or_global (post_cancel_route (ae_control env) prin i body))"
| "serve env prin (GetRunRoute i) = on_tables (or_global (get_run_route (Some RunStore) i))"
| "serve env prin (ListRunsRoute i limit st) = on_tables (or_global (list_runs_route True i limit st))"
| "serve env prin Health = Pair (reply_status health_route)"
| "serve env prin Ready = Pair (reply_status (ready_route (ae_ping env) (ae_readiness env)))"

definition handle_request :: "app_env \<Rightarrow> string option \<Rightarrow> app_request \<Rightarrow> pg gateway \<Rightarrow> nat \<times> pg gateway" where
  "handle_request env authorization req g =
     (case authenticate env req authorization of
        Deny n m \<Rightarrow> (n, g)
      | Next prin claims \<Rightarrow> serve env prin req g)"

section \<open>Startup\<close>

definition missing :: "process_env \<Rightarrow> string list \<Rightarrow> string list" where
  "missing env names = filter (\<lambda>n. \<not> truthy_str (env n)) names"

definition worker_required :: "string list" where
  "worker_required = [''GCP_PROJECT_ID'', ''RUNTIME_SERVICE_ACCOUNT_EMAIL'', ''RUNTIME_BROKER_URL'', ''JOB_ZIP_BUCKET'',
     ''ES_ENDPOINT'', ''ES_API_KEY'']"

definition validateWorkerStartupConfig :: "process_env \<Rightarrow> js_error + js" where
  "validateWorkerStartupConfig env =
     (if env ''NODE_ENV'' = Some ''test''
      then Inr (JObj [(''status'', JStr ''skipped''), (''reason'', JStr ''test_environment'')])
      else if missing env worker_required \<noteq> []
      then Inl (newError (''Missing required worker environment variables: '' @ join_with '', '' (missing env worker_required)))
      else if env ''WORKER_REQUIRE_RUNTIME_ISOLATION'' \<noteq> Some ''false''
      then Inl (newError (''WORKER_REQUIRE_RUNTIME_ISOLATION must be set to 'false' in the worker service '' @ em_dash @
             '' the Cloud Run container boundary is the isolation layer''))
      else Inr (JObj [(''status'', JStr ''ok'')]))"

definition production_required :: "string list" where
  "production_required = [''GCP_PROJECT_ID'', ''JOB_ZIP_BUCKET'', ''ES_ENDPOINT'', ''ES_API_KEY'', ''WORKER_OIDC_AUDIENCE'',
     ''WORKER_INVOKER_SERVICE_ACCOUNT_EMAIL'', ''SCHEDULER_OIDC_AUDIENCE'', ''SCHEDULER_INVOKER_SERVICE_ACCOUNT_EMAIL'',
     ''WORKER_EXECUTION_MODE'', ''RUNTIME_SERVICE_ACCOUNT_EMAIL'', ''RUNTIME_BROKER_URL'', ''IGA_TOKEN_ENDPOINT'',
     ''IGA_CLIENT_ID'', ''IGA_CLIENT_SECRET'', ''IGA_BASE_URL'', ''PUBLIC_API_ISSUER'', ''PUBLIC_API_AUDIENCE'']"

text \<open>The last part of the production check: the database.\<close>

definition validate_db_engine :: "process_env \<Rightarrow> js_error + js" where
  "validate_db_engine env =
     (let ok = Inr (JObj [(''status'', JStr ''ok'')]); cloud = missing env [''DB_INSTANCE_CONNECTION_NAME'', ''DB_USER'', ''DB_NAME''] in
      if \<not> truthy_str (env ''DB_ENGINE'') then Inl (newError ''Missing required production environment variables: DB_ENGINE'')
      else if env ''DB_ENGINE'' = Some ''cloud-sql''
      then (if cloud \<noteq> []
            then Inl (newError (''Missing required production environment variables for DB_ENGINE=cloud-sql: '' @ join_with '', '' cloud)) else ok)
      else if env ''DB_ENGINE'' = Some ''direct''
      then (if \<not> truthy_str (env ''DATABASE_URL'')
            then Inl (newError ''Missing required production environment variables for DB_ENGINE=direct: DATABASE_URL'')
            else if \<not> truthy_str (env ''DB_ALLOW_DIRECT'')
            then Inl (newError (''DB_ENGINE=direct is not allowed in production without DB_ALLOW_DIRECT=true '' @
                   ''(use for AlloyDB Auth Proxy or other sidecar deployments)''))
            else ok)
      else Inl (newError (''unsupported DB_ENGINE: '' @ the (env ''DB_ENGINE''))))"

definition validateProductionStartupConfig :: "process_env \<Rightarrow> js_error + js" where
  "validateProductionStartupConfig env =
     (if env ''NODE_ENV'' = Some ''test''
      then Inr (JObj [(''status'', JStr ''skipped''), (''reason'', JStr ''test_environment'')])
      else if missing env production_required \<noteq> []
      then Inl (newError (''Missing required production environment variables: '' @ join_with '', '' (missing env production_required)))
      else if env ''WORKER_EXECUTION_MODE'' \<noteq> Some ''isolated''
      then Inl (newError ''WORKER_EXECUTION_MODE must be isolated in production'')
      else if env ''RUNTIME_SERVICE_ACCOUNT_EMAIL'' = env ''WORKER_INVOKER_SERVICE_ACCOUNT_EMAIL''
      then Inl (newError ''RUNTIME_SERVICE_ACCOUNT_EMAIL must be separate from the worker invoker service account'')
      else if env ''RUNTIME_SERVICE_ACCOUNT_EMAIL'' = env ''SCHEDULER_INVOKER_SERVICE_ACCOUNT_EMAIL''
      then Inl (newError ''RUNTIME_SERVICE_ACCOUNT_EMAIL must be separate from the scheduler invoker service account'')
      else if truthy_str (env ''WORKER_RUNTIME_ISOLATION'')
      then Inl (newError ''WORKER_RUNTIME_ISOLATION is not a production isolation control; use WORKER_EXECUTION_MODE=isolated'')
      else validate_db_engine env)"

definition resolveAppMode :: "process_env \<Rightarrow> js_error + string" where
  "resolveAppMode env =
     (let mode = (if truthy_str (env ''APP_MODE'') then the (env ''APP_MODE'') else ''production'') in
      if mode = ''local'' \<and> env ''NODE_ENV'' = Some ''production''
      then Inl (newError (''APP_MODE=local is incompatible with NODE_ENV=production; '' @
             ''refusing to start the local/dev backend in a production environment''))
      else Inr mode)"

text \<open>The first of some variables that is set: \<open>env.A || env.B\<close>.\<close>

fun env_or :: "process_env \<Rightarrow> string list \<Rightarrow> string option" where
  "env_or env [] = None"
| "env_or env (n # ns) = (if truthy_str (env n) then env n else env_or env ns)"

text \<open>The internal channels as the routers build them from the environment; the verifier is given the audience.\<close>

definition worker_channel :: "process_env \<Rightarrow> (string \<Rightarrow> string \<Rightarrow> js_error + js) \<Rightarrow> internal_channel" where
  "worker_channel env verify =
     (let a = the (env_or env [''WORKER_OIDC_AUDIENCE'', ''WORKER_BASE_URL'']) in
      \<lparr>ch_audience = a, ch_email = the (env ''WORKER_INVOKER_SERVICE_ACCOUNT_EMAIL''), ch_verify = (\<lambda>t. verify t a)\<rparr>)"

definition scheduler_channel :: "process_env \<Rightarrow> (string \<Rightarrow> string \<Rightarrow> js_error + js) \<Rightarrow> internal_channel" where
  "scheduler_channel env verify =
     (let a = the (env ''SCHEDULER_OIDC_AUDIENCE'') in
      \<lparr>ch_audience = a, ch_email = the (env ''SCHEDULER_INVOKER_SERVICE_ACCOUNT_EMAIL''), ch_verify = (\<lambda>t. verify t a)\<rparr>)"

definition runtime_channel :: "process_env \<Rightarrow> (string \<Rightarrow> string \<Rightarrow> js_error + js) \<Rightarrow> internal_channel" where
  "runtime_channel env verify =
     (let a = the (env_or env [''RUNTIME_BROKER_URL'', ''WORKER_OIDC_AUDIENCE'', ''WORKER_BASE_URL'']) in
      \<lparr>ch_audience = a, ch_email = the (env_or env [''RUNTIME_SERVICE_ACCOUNT_EMAIL'', ''WORKER_INVOKER_SERVICE_ACCOUNT_EMAIL'']),
       ch_verify = (\<lambda>t. verify t a)\<rparr>)"

section \<open>Who may change what\<close>

lemma runs_limit_le: "runs_limit q \<le> 200"
  by (simp add: runs_limit_def Let_def)

text \<open>A negative limit passes the cap: the statement fails and the request ends as an internal error.\<close>

lemma negative_limit_fails: "serve env prin (ListRunsRoute i (Some ''-5'') st) g = (500, g)"
proof -
  have "runs_limit (Some ''-5'') = - 5" by code_simp
  then show ?thesis by (simp add: on_tables_def or_global_def list_runs_route_def throw_def globalErrorHandler_def dbError_def newError_def Let_def js_or_def js_status_def js_int_def)
qed

text \<open>The runs of a page are never more than the limit, and none carries the launch metadata.\<close>

lemma toPublicRun_hides: "rn_runtimeExecution (toPublicRun run) = JUndefined" "rn_runId (toPublicRun run) = rn_runId run"
  by (simp_all add: toPublicRun_def)

text \<open>The statuses of a refusal.\<close>

lemma check_channel_refuses:
  "(\<exists>prin claims. check_channel ch hdr = Next prin claims) \<or> (\<exists>n \<in> {401, 403}. \<exists>m. check_channel ch hdr = Deny n m)"
  by (auto simp: check_channel_def internalAuth_def Let_def split: option.split sum.split)

lemma check_channel_Next:
  assumes "check_channel ch hdr = Next prin claims"
  shows "\<exists>h t. hdr = Some h \<and> bearer_token h = Some t \<and> ch_verify ch t = Inr claims \<and> js_prop claims ''aud'' = JStr (ch_audience ch) \<and>
    js_or (js_prop claims ''email'') (js_prop claims ''sub'') = JStr (ch_email ch)"
  using assms by (auto simp: check_channel_def internalAuth_def Let_def bearer_token_Nil split: option.splits sum.splits if_splits)

lemma refused_unchanged:
  assumes "authenticate env req hdr = Deny n m"
  shows "handle_request env hdr req g = (n, g)"
  using assms by (simp add: handle_request_def)

text \<open>A configuration that passes the production check separates the accounts.\<close>

lemma production_accounts:
  assumes "validateProductionStartupConfig env = Inr v" "env ''NODE_ENV'' \<noteq> Some ''test''"
  shows "\<forall>n \<in> set production_required. \<exists>c cs. env n = Some (c # cs)"
    and "env ''RUNTIME_SERVICE_ACCOUNT_EMAIL'' \<noteq> env ''WORKER_INVOKER_SERVICE_ACCOUNT_EMAIL''"
    and "env ''RUNTIME_SERVICE_ACCOUNT_EMAIL'' \<noteq> env ''SCHEDULER_INVOKER_SERVICE_ACCOUNT_EMAIL''"
proof -
  have "missing env production_required = []"
    using assms by (auto simp: validateProductionStartupConfig_def split: if_splits)
  then have t: "truthy_str (env n)" if "n \<in> set production_required" for n
    using that by (simp add: missing_def filter_empty_conv)
  show "\<forall>n \<in> set production_required. \<exists>c cs. env n = Some (c # cs)"
  proof
    fix n assume "n \<in> set production_required"
    from t [OF this] show "\<exists>c cs. env n = Some (c # cs)" by (cases "env n") (auto simp: neq_Nil_conv)
  qed
  show "env ''RUNTIME_SERVICE_ACCOUNT_EMAIL'' \<noteq> env ''WORKER_INVOKER_SERVICE_ACCOUNT_EMAIL''"
    "env ''RUNTIME_SERVICE_ACCOUNT_EMAIL'' \<noteq> env ''SCHEDULER_INVOKER_SERVICE_ACCOUNT_EMAIL''"
    using assms by (auto simp: validateProductionStartupConfig_def split: if_splits)
qed

text \<open>The account of a validated runtime channel is neither that of the worker channel nor that of the scheduler channel.\<close>

lemma runtime_account_apart:
  assumes "validateProductionStartupConfig penv = Inr v" "penv ''NODE_ENV'' \<noteq> Some ''test''"
  shows "ch_email (runtime_channel penv verify) \<noteq> ch_email (worker_channel penv verify)"
    and "ch_email (runtime_channel penv verify) \<noteq> ch_email (scheduler_channel penv verify)"
  using production_accounts [OF assms] by (auto simp: production_required_def runtime_channel_def worker_channel_def scheduler_channel_def Let_def)

text \<open>One token, presented to two channels of different accounts, passes at most one of them.\<close>

lemma channels_exclusive:
  assumes fixed: "\<And>t c d. ch_verify ch t = Inr c \<Longrightarrow> ch_verify ch' t = Inr d \<Longrightarrow> c = d"
    and acct: "ch_email ch \<noteq> ch_email ch'" and acc: "check_channel ch hdr = Next prin claims"
  shows "\<exists>n \<in> {401, 403}. \<exists>m. check_channel ch' hdr = Deny n m"
proof -
  have "check_channel ch' hdr \<noteq> Next p c" for p c
  proof
    assume "check_channel ch' hdr = Next p c"
    from check_channel_Next [OF acc] check_channel_Next [OF this] fixed acct show False by fastforce
  qed
  then show ?thesis using check_channel_refuses [of ch' hdr] by blast
qed

section \<open>Sample data\<close>

definition sample_process_env :: process_env where
  "sample_process_env = (\<lambda>n. if n = ''NODE_ENV'' \<or> n = ''WORKER_RUNTIME_ISOLATION'' then None
     else if n = ''WORKER_EXECUTION_MODE'' then Some ''isolated'' else if n = ''DB_ENGINE'' then Some ''cloud-sql'' else Some n)"

definition sample_verify :: "string \<Rightarrow> string \<Rightarrow> js_error + js" where
  "sample_verify t a =
     (if t = ''runtime'' \<and> a = ''RUNTIME_BROKER_URL''
      then Inr (JObj [(''aud'', JStr a), (''email'', JStr ''RUNTIME_SERVICE_ACCOUNT_EMAIL'')])
      else Inl (newError ''wrong recipient''))"

definition sample_app_env :: app_env where
  "sample_app_env = \<lparr>ae_worker = worker_channel sample_process_env sample_verify,
     ae_scheduler = scheduler_channel sample_process_env sample_verify, ae_runtime = runtime_channel sample_process_env sample_verify,
     ae_scope = None, ae_verifyPublic = (\<lambda>_. Inl (newError [])),
     ae_control = \<lparr>ce_others = (\<lambda>_ s. s), ce_now = 5, ce_dbNow = 6, ce_uuid1 = ''new'', ce_uuid2 = ''n2''\<rparr>,
     ae_tick = \<lparr>te_cron = (\<lambda>_ _ t. Inr (t + 1)), te_getDef = None, te_locked = (\<lambda>_. False), te_now = 0, te_batchSize = 100,
       te_rowCount = (\<lambda>_. None)\<rparr>,
     ae_gateway = sample_gateway_env, ae_instances = sample_instance_env, ae_healthPath = None, ae_uuid = ''u'',
     ae_ping = None, ae_readiness = createDefaultReadiness sample_process_env\<rparr>"

section \<open>Properties\<close>

text \<open>
  C10. The token of a running job opens the IGA proxy and no other internal route: under a configuration the
  production check accepts, an \<open>Authorization\<close> header that passes the runtime channel is refused, with 401
  or 403 and with no effect on the tables or the outside world, by the routes that retry, cancel or redrive runs,
  by the tick and by the IGA health routes. The verifier of Google's library returns the payload of the token,
  whatever audience it was asked to check.
\<close>

theorem runtime_token_confined:
  assumes "validateProductionStartupConfig penv = Inr v" and "penv ''NODE_ENV'' \<noteq> Some ''test''"
    and "ae_runtime env = runtime_channel penv verify" and "ae_worker env = worker_channel penv verify"
    and "ae_scheduler env = scheduler_channel penv verify"
    and "\<And>t a b c d. verify t a = Inr c \<Longrightarrow> verify t b = Inr d \<Longrightarrow> c = d"
    and "authenticate env (RuntimeIgaRoute body) hdr = Next prin claims"
    and "req \<in> {ControlRoute c, TickRoute b, IgaHealth, IgaApiHealth}"
  shows "handle_request env hdr req g \<in> {401, 403} \<times> {g}"
proof -
  have rt: "check_channel (runtime_channel penv verify) hdr = Next prin claims" using assms(3,7) by simp
  have payload: "ch_verify (runtime_channel penv verify) t = Inr c \<Longrightarrow> ch_verify ch t = Inr d \<Longrightarrow> c = d"
    if "ch \<in> {worker_channel penv verify, scheduler_channel penv verify}" for ch t c d
    using that assms(6) by (auto simp: runtime_channel_def worker_channel_def scheduler_channel_def Let_def)
  have denied: "\<exists>n \<in> {401, 403}. \<exists>m. check_channel ch hdr = Deny n m"
    if "ch \<in> {worker_channel penv verify, scheduler_channel penv verify}" for ch
  proof (rule channels_exclusive [OF _ _ rt])
    show "ch_email (runtime_channel penv verify) \<noteq> ch_email ch" using that runtime_account_apart [OF assms(1,2)] by auto
  qed (rule payload [OF that])
  have "\<exists>n \<in> {401, 403}. \<exists>m. authenticate env req hdr = Deny n m"
    using assms(4,5,8) denied [of "worker_channel penv verify"] denied [of "scheduler_channel penv verify"] by auto
  then show ?thesis using refused_unchanged by fastforce
qed

theorem runtime_token_confined_witness:
  "handle_request sample_app_env (Some ''Bearer runtime'') (ControlRoute (PostRetry ''a'')) sample_gateway \<in> {401, 403} \<times> {sample_gateway}"
proof (rule runtime_token_confined [where penv = sample_process_env and verify = sample_verify and body = JNull])
  show "validateProductionStartupConfig sample_process_env = Inr (JObj [(''status'', JStr ''ok'')])"
    by (simp add: validateProductionStartupConfig_def validate_db_engine_def missing_def production_required_def sample_process_env_def)
  show "authenticate sample_app_env (RuntimeIgaRoute JNull) (Some ''Bearer runtime'') =
      Next (JStr ''RUNTIME_SERVICE_ACCOUNT_EMAIL'') (JObj [(''aud'', JStr ''RUNTIME_BROKER_URL''), (''email'', JStr ''RUNTIME_SERVICE_ACCOUNT_EMAIL'')])"
  proof -
    have "bearer_token ''Bearer runtime'' = Some ''runtime''" by code_simp
    then show ?thesis by (simp add: sample_app_env_def check_channel_def internalAuth_def runtime_channel_def sample_verify_def
        sample_process_env_def Let_def js_or_def)
  qed
  show "ControlRoute (PostRetry ''a'') \<in> {ControlRoute (PostRetry ''a''), TickRoute JNull, IgaHealth, IgaApiHealth}" by simp
qed (simp_all add: sample_app_env_def sample_process_env_def sample_verify_def split: if_splits)

end
