(* ===== verification/Deploy_Config.thy ===== *)
theory Deploy_Config
  imports Http_Service
begin

text \<open>
  The configuration a deployment reads and the checks an operator runs on it: \<open>src/src/config/index.js\<close>,
  the choice of the database of \<open>src/src/clients/pgClient.js\<close>, the index names of
  \<open>src/src/elasticsearch/schedulerIndexMappings.js\<close>, the helpers of \<open>src/scripts/prod/lib.js\<close> and the first part
  of \<open>src/scripts/prod/preflight.js\<close>.
\<close>

section \<open>Configuration\<close>

text \<open>\<open>env.A || d\<close>.\<close>

definition env_default :: "process_env \<Rightarrow> string \<Rightarrow> string \<Rightarrow> string" where
  "env_default env n d = (if truthy_str (env n) then the (env n) else d)"

record config =
  cf_gcpProjectId :: string
  cf_jobZipBucket :: string
  cf_esEndpoint :: string
  cf_esApiKey :: string
  cf_definitionsIndex :: string
  cf_auditIndex :: string
  cf_dbEngine :: string

definition getConfig :: "process_env \<Rightarrow> js_error + config" where
  "getConfig env =
     (let m = missing env [''GCP_PROJECT_ID'', ''JOB_ZIP_BUCKET'', ''ES_ENDPOINT'', ''ES_API_KEY''] in
      if m \<noteq> [] then Inl (newError (''Missing required environment variables: '' @ join_with '', '' m))
      else Inr \<lparr>cf_gcpProjectId = the (env ''GCP_PROJECT_ID''), cf_jobZipBucket = the (env ''JOB_ZIP_BUCKET''),
        cf_esEndpoint = the (env ''ES_ENDPOINT''), cf_esApiKey = the (env ''ES_API_KEY''),
        cf_definitionsIndex = env_default env ''ES_DEFINITIONS_INDEX'' ''scheduler_definitions_v1'',
        cf_auditIndex = env_default env ''ES_AUDIT_INDEX'' ''scheduler_audit_v1'',
        cf_dbEngine = env_default env ''DB_ENGINE'' ''direct''\<rparr>)"

text \<open>The indices every script creates or checks, with the bodies they are created with. The scripts pass no names of their own.\<close>

definition of_type :: "string \<Rightarrow> js" where
  "of_type t = JObj [(''type'', JStr t)]"

definition index_body :: "(string \<times> js) list \<Rightarrow> js" where
  "index_body properties = JObj [(''mappings'', JObj [(''dynamic'', JBool False), (''properties'', JObj properties)])]"

definition getSchedulerIndexDefinitions :: "string \<Rightarrow> string \<Rightarrow> (string \<times> js) list" where
  "getSchedulerIndexDefinitions definitionsName auditName =
     [(definitionsName, index_body [
        (''definitionId'', of_type ''keyword''),
        (''name'', JObj [(''type'', JStr ''text''), (''fields'', JObj [(''keyword'', of_type ''keyword'')])]),
        (''runtime'', of_type ''keyword''), (''runtimeVersion'', of_type ''keyword''), (''wrapperVersion'', of_type ''keyword''),
        (''entrypoint'', of_type ''keyword''), (''parameters'', JObj [(''type'', JStr ''object''), (''enabled'', JBool False)]),
        (''timeoutSeconds'', of_type ''integer''), (''memoryMb'', of_type ''integer''), (''version'', of_type ''integer''),
        (''state'', of_type ''keyword''), (''enabled'', of_type ''boolean''),
        (''jobZip'', JObj [(''type'', JStr ''object''), (''enabled'', JBool False)]),
        (''validation'', JObj [(''type'', JStr ''object''), (''enabled'', JBool False)]), (''createdAt'', of_type ''date''),
        (''updatedAt'', of_type ''date'')]),
      (auditName, index_body [
        (''eventId'', of_type ''keyword''), (''eventType'', of_type ''keyword''), (''actor'', of_type ''keyword''),
        (''targetType'', of_type ''keyword''), (''targetId'', of_type ''keyword''), (''outcome'', of_type ''keyword''),
        (''createdAt'', of_type ''date''), (''details'', JObj [(''type'', JStr ''object''), (''enabled'', JBool False)])])]"

abbreviation index_names :: "string list" where
  "index_names \<equiv> map fst (getSchedulerIndexDefinitions ''scheduler_definitions_v1'' ''scheduler_audit_v1'')"

section \<open>The database\<close>

text \<open>\<open>s.includes(t)\<close>.\<close>

fun js_includes :: "string \<Rightarrow> string \<Rightarrow> bool" where
  "js_includes [] t = (t = [])"
| "js_includes (c # s) t = (startsWith (c # s) t \<or> js_includes s t)"

text \<open>What the pool is opened with; the password of Cloud SQL may be absent.\<close>

datatype pool_spec =
    DirectPool string
  | CloudSqlPool string string string string "string option"

definition required_var :: "process_env \<Rightarrow> string \<Rightarrow> js_error + string" where
  "required_var env n =
     (if \<not> truthy_str (env n)
      then Inl (newError (n @ '' is required for DB_ENGINE='' @ (case env ''DB_ENGINE'' of Some e \<Rightarrow> e | None \<Rightarrow> ''undefined'')))
      else Inr (the (env n)))"

definition db_secretVersionName :: "string \<Rightarrow> process_env \<Rightarrow> js_error + string" where
  "db_secretVersionName secretRef env =
     (if startsWith secretRef ''projects/''
      then Inr (if js_includes secretRef ''/versions/'' then secretRef else secretRef @ ''/versions/latest'')
      else if \<not> truthy_str (env ''GCP_PROJECT_ID'')
      then Inl (newError ''GCP_PROJECT_ID is required to resolve a bare DB_PASSWORD_SECRET id'')
      else Inr (''projects/'' @ the (env ''GCP_PROJECT_ID'') @ ''/secrets/'' @ secretRef @ ''/versions/latest''))"

text \<open>\<open>access\<close> is Secret Manager: the data of a version, \<open>None\<close> for an empty payload.\<close>

definition resolveCloudSqlPassword :: "(string \<Rightarrow> js_error + string option) \<Rightarrow> process_env \<Rightarrow> js_error + string option" where
  "resolveCloudSqlPassword access env =
     (if \<not> truthy_str (env ''DB_PASSWORD_SECRET'') then Inr None
      else case db_secretVersionName (the (env ''DB_PASSWORD_SECRET'')) env of Inl e \<Rightarrow> Inl e | Inr name \<Rightarrow> access name)"

definition bind_sum :: "'e + 'a \<Rightarrow> ('a \<Rightarrow> 'e + 'b) \<Rightarrow> 'e + 'b" where
  "bind_sum r k = (case r of Inl e \<Rightarrow> Inl e | Inr a \<Rightarrow> k a)"

text \<open>\<open>getOptions\<close> is the Cloud SQL connector.\<close>

definition createPgPool ::
  "(string \<Rightarrow> js_error + string option) \<Rightarrow> (string \<Rightarrow> string \<Rightarrow> js_error + unit) \<Rightarrow> process_env \<Rightarrow> js_error + pool_spec" where
  "createPgPool access getOptions env =
     (let engine = env_default env ''DB_ENGINE'' ''direct'' in
      if engine \<notin> {''cloud-sql'', ''direct''} then Inl (newError (''unsupported DB_ENGINE: '' @ engine))
      else if engine = ''direct''
      then (if \<not> truthy_str (env ''DATABASE_URL'') then Inl (newError ''DATABASE_URL is required when DB_ENGINE=direct'')
            else Inr (DirectPool (the (env ''DATABASE_URL''))))
      else bind_sum (required_var env ''DB_INSTANCE_CONNECTION_NAME'') (\<lambda>inst.
           bind_sum (required_var env ''DB_USER'') (\<lambda>user.
           bind_sum (required_var env ''DB_NAME'') (\<lambda>database.
           bind_sum (resolveCloudSqlPassword access env) (\<lambda>password.
           bind_sum (getOptions inst (env_default env ''DB_IP_TYPE'' ''PRIVATE'')) (\<lambda>_.
           Inr (CloudSqlPool inst (env_default env ''DB_IP_TYPE'' ''PRIVATE'') user database password)))))))"

section \<open>Command-line defaults\<close>

fun cli_flag :: "string \<Rightarrow> string list \<Rightarrow> string option" where
  "cli_flag name [] = None"
| "cli_flag name (a # rest) =
     (if startsWith a (''--'' @ name @ ''='') then Some (drop (length (''--'' @ name @ ''='')) a)
      else if a = ''--'' @ name \<and> (case rest of b # _ \<Rightarrow> b \<noteq> [] \<and> \<not> startsWith b ''--'' | [] \<Rightarrow> False) then Some (hd rest)
      else cli_flag name rest)"

definition seed_var :: "string list \<Rightarrow> string \<times> string \<Rightarrow> process_env \<Rightarrow> process_env" where
  "seed_var argv v env =
     (if truthy_str (env (fst v)) then env
      else let val = cli_flag (snd v) argv in if truthy_str val then env(fst v := val) else env)"

definition applyCliDefaults :: "string list \<Rightarrow> process_env \<Rightarrow> process_env" where
  "applyCliDefaults argv env =
     (if env_default env ''APP_MODE'' ''production'' = ''local'' then env
      else fold (seed_var argv) [(''ES_API_KEY'', ''es-api-key''), (''ES_ENDPOINT'', ''es-endpoint''), (''GCP_PROJECT_ID'', ''gcp-project'')] env)"

section \<open>The environment part of the preflight\<close>

text \<open>A line of output: \<open>ok\<close>, \<open>fail\<close>, \<open>warn\<close> and \<open>dim\<close> of the scripts. Only \<open>Fault\<close> counts as a failure.\<close>

datatype report = Pass string string | Fault string string | Warn string string | Dim string

fun is_fault :: "report \<Rightarrow> bool" where
  "is_fault (Fault _ _) = True"
| "is_fault _ = False"

definition AUTH_REQUIRED :: "string list" where
  "AUTH_REQUIRED = [''PUBLIC_API_ISSUER'', ''PUBLIC_API_AUDIENCE'', ''WORKER_OIDC_AUDIENCE'', ''WORKER_INVOKER_SERVICE_ACCOUNT_EMAIL'',
     ''SCHEDULER_OIDC_AUDIENCE'', ''SCHEDULER_INVOKER_SERVICE_ACCOUNT_EMAIL'']"

definition PROD_CORE :: "string list" where
  "PROD_CORE = [''GCP_PROJECT_ID'', ''JOB_ZIP_BUCKET'', ''ES_ENDPOINT'', ''ES_API_KEY'', ''DB_ENGINE'']"

definition RUNTIME_REQUIRED :: "string list" where
  "RUNTIME_REQUIRED = [''WORKER_EXECUTION_MODE'', ''RUNTIME_WORKER_URL'', ''RUNTIME_SERVICE_ACCOUNT_EMAIL'', ''RUNTIME_BROKER_URL'',
     ''IGA_TOKEN_ENDPOINT'', ''IGA_CLIENT_ID'', ''IGA_CLIENT_SECRET'', ''IGA_BASE_URL'']"

definition check_vars :: "process_env \<Rightarrow> string \<Rightarrow> string list \<Rightarrow> report list" where
  "check_vars env okText names =
     (let m = missing env names in if m = [] then [Pass ''env'' okText] else map (\<lambda>v. Fault ''env'' (''missing: '' @ v)) m)"

definition checked :: "string \<Rightarrow> string list \<Rightarrow> string" where
  "checked what names = what @ '' vars present ('' @ nat_text (length names) @ '' checked)''"

definition db_checks :: "process_env \<Rightarrow> report list" where
  "db_checks env =
     (if env ''DB_ENGINE'' = Some ''cloud-sql''
      then check_vars env ''DB_ENGINE=cloud-sql vars present'' [''DB_INSTANCE_CONNECTION_NAME'', ''DB_USER'', ''DB_NAME'']
      else if env ''DB_ENGINE'' = Some ''direct''
      then (if truthy_str (env ''DATABASE_URL'') then [Pass ''env'' ''DB_ENGINE=direct DATABASE_URL present'']
            else [Fault ''env'' ''missing: DATABASE_URL (required for DB_ENGINE=direct)'']) @
           (if truthy_str (env ''DB_ALLOW_DIRECT'') then []
            else [Warn ''env'' (''DB_ALLOW_DIRECT not set '' @ em_dash @ '' production validation will reject DB_ENGINE=direct without it'')])
      else if truthy_str (env ''DB_ENGINE'')
      then [Fault ''env'' (''DB_ENGINE='' @ the (env ''DB_ENGINE'') @ '' is not a supported value (use cloud-sql or direct)'')]
      else [])"

definition same_account :: "process_env \<Rightarrow> string \<Rightarrow> report list" where
  "same_account env other =
     (if truthy_str (env ''RUNTIME_SERVICE_ACCOUNT_EMAIL'') \<and> truthy_str (env other) \<and> env ''RUNTIME_SERVICE_ACCOUNT_EMAIL'' = env other
      then [Fault ''env'' (''RUNTIME_SERVICE_ACCOUNT_EMAIL must differ from '' @ other)] else [])"

definition preflight_env :: "process_env \<Rightarrow> report list" where
  "preflight_env env =
     check_vars env (checked ''auth'' AUTH_REQUIRED) AUTH_REQUIRED @
     (if env_default env ''APP_MODE'' ''production'' = ''local''
      then [Dim (''  APP_MODE=local '' @ em_dash @ '' GCP, ES, DB, and runtime vars not required'')]
      else check_vars env (checked ''core'' PROD_CORE) PROD_CORE @ check_vars env (checked ''runtime'' RUNTIME_REQUIRED) RUNTIME_REQUIRED @
        db_checks env @
        (if truthy_str (env ''WORKER_EXECUTION_MODE'') \<and> env ''WORKER_EXECUTION_MODE'' \<noteq> Some ''isolated''
         then [Fault ''env'' ''WORKER_EXECUTION_MODE must be 'isolated' in production''] else []) @
        same_account env ''WORKER_INVOKER_SERVICE_ACCOUNT_EMAIL'' @ same_account env ''SCHEDULER_INVOKER_SERVICE_ACCOUNT_EMAIL'')"

section \<open>The preflight and the startup check\<close>

abbreviation clean :: "report list \<Rightarrow> bool" where
  "clean rs \<equiv> filter is_fault rs = []"

lemma missing_none: "missing env ns = [] \<longleftrightarrow> (\<forall>n \<in> set ns. truthy_str (env n))"
  by (auto simp: missing_def filter_empty_conv)

lemma check_vars_clean: "clean (check_vars env t ns) \<longleftrightarrow> (\<forall>n \<in> set ns. truthy_str (env n))"
  by (auto simp: check_vars_def Let_def missing_none filter_empty_conv missing_def)

lemma db_checks_clean:
  assumes "truthy_str (env ''DB_ENGINE'')" "env ''DB_ENGINE'' = Some ''direct'' \<longrightarrow> truthy_str (env ''DB_ALLOW_DIRECT'')"
  shows "clean (db_checks env) \<longleftrightarrow> (\<exists>v. validate_db_engine env = Inr v)"
  using assms by (auto simp: db_checks_def validate_db_engine_def check_vars_clean missing_none Let_def)

text \<open>The variables both checks ask for.\<close>

lemma required_everywhere:
  "set AUTH_REQUIRED \<union> set PROD_CORE \<union> set RUNTIME_REQUIRED = set production_required \<union> {''DB_ENGINE'', ''RUNTIME_WORKER_URL''}"
  by (auto simp: AUTH_REQUIRED_def PROD_CORE_def RUNTIME_REQUIRED_def production_required_def)

lemma same_account_clean:
  assumes "truthy_str (env ''RUNTIME_SERVICE_ACCOUNT_EMAIL'')" "truthy_str (env n)"
  shows "clean (same_account env n) \<longleftrightarrow> env ''RUNTIME_SERVICE_ACCOUNT_EMAIL'' \<noteq> env n"
  using assms by (simp add: same_account_def)

lemma validate_ok:
  assumes "env ''NODE_ENV'' \<noteq> Some ''test''"
  shows "(\<exists>v. validateProductionStartupConfig env = Inr v) \<longleftrightarrow>
    (\<forall>n \<in> set production_required. truthy_str (env n)) \<and> env ''WORKER_EXECUTION_MODE'' = Some ''isolated'' \<and>
    env ''RUNTIME_SERVICE_ACCOUNT_EMAIL'' \<noteq> env ''WORKER_INVOKER_SERVICE_ACCOUNT_EMAIL'' \<and>
    env ''RUNTIME_SERVICE_ACCOUNT_EMAIL'' \<noteq> env ''SCHEDULER_INVOKER_SERVICE_ACCOUNT_EMAIL'' \<and>
    \<not> truthy_str (env ''WORKER_RUNTIME_ISOLATION'') \<and> (\<exists>v. validate_db_engine env = Inr v)"
  using assms by (simp add: validateProductionStartupConfig_def missing_none [symmetric])

lemma preflight_clean:
  assumes "env_default env ''APP_MODE'' ''production'' \<noteq> ''local''"
  shows "clean (preflight_env env) \<longleftrightarrow>
    (\<forall>n \<in> set AUTH_REQUIRED \<union> set PROD_CORE \<union> set RUNTIME_REQUIRED. truthy_str (env n)) \<and> clean (db_checks env) \<and>
    (truthy_str (env ''WORKER_EXECUTION_MODE'') \<longrightarrow> env ''WORKER_EXECUTION_MODE'' = Some ''isolated'') \<and>
    clean (same_account env ''WORKER_INVOKER_SERVICE_ACCOUNT_EMAIL'') \<and> clean (same_account env ''SCHEDULER_INVOKER_SERVICE_ACCOUNT_EMAIL'')"
  using assms check_vars_clean [of env] by (auto simp: preflight_env_def)

text \<open>What the preflight lets through and the startup check refuses: it only warns of a missing \<open>DB_ALLOW_DIRECT\<close>.\<close>

lemma preflight_gap:
  assumes "env ''DB_ENGINE'' = Some ''direct''" "\<not> truthy_str (env ''DB_ALLOW_DIRECT'')" "truthy_str (env ''DATABASE_URL'')"
  shows "clean (db_checks env) \<and> isl (validate_db_engine env)"
  using assms by (simp add: db_checks_def validate_db_engine_def)

text \<open>The scripts always work on the default indices, whatever index the services are configured to use.\<close>

lemma scripts_ignore_configured_index:
  assumes "getConfig env = Inr c" "env ''ES_DEFINITIONS_INDEX'' = Some ''custom''"
  shows "cf_definitionsIndex c \<notin> set index_names"
  using assms by (auto simp: getConfig_def getSchedulerIndexDefinitions_def env_default_def Let_def split: if_splits)

text \<open>A flag never overrides a variable that is set, and a variable it does not name is untouched.\<close>

lemma seed_var_keeps: "truthy_str (env n) \<Longrightarrow> seed_var argv v env n = env n"
  by (auto simp: seed_var_def Let_def)

lemma applyCliDefaults_keeps:
  assumes "truthy_str (env n) \<or> n \<notin> {''ES_API_KEY'', ''ES_ENDPOINT'', ''GCP_PROJECT_ID''}"
  shows "applyCliDefaults argv env n = env n"
  using assms by (auto simp: applyCliDefaults_def seed_var_def Let_def)

section \<open>Properties\<close>



end
