(* ===== verification/Deploy_Scripts.thy ===== *)
theory Deploy_Scripts
  imports Deploy_Config
begin

text \<open>
  The calls and the output of the deployment scripts, and the connectivity part of \<open>src/scripts/prod/preflight.js\<close>.
  The services the scripts talk to are parameters: a call is answered by a function of the calls made before it. The
  state of a script is the calls made, the lines printed, its failure counter and the manifest files on disk. A script
  returns its exit code, or throws where a rejection ends the process.
\<close>

section \<open>Calls and output\<close>

datatype deploy_call =
    EsPing
  | CatIndices
  | IndexExists string
  | IndexCreate string
  | IndexDelete string
  | PgInfo
  | PgTables
  | PgIndexes
  | PgProbeTable
  | PgMigrations
  | PgMigrateUp
  | PgMigrateDown nat
  | PgEnd
  | BucketExists string
  | ObjectSave string
  | ObjectDelete string
  | HttpGet string
  | SecretAccess string
  | Confirm string

text \<open>
  \<open>dv_access\<close> and \<open>dv_connector\<close> are Secret Manager and the Cloud SQL connector as \<open>createPgPool\<close> uses them,
  \<open>dv_migrations\<close> the files of the migrations directory, \<open>dv_stamp\<close> the digits of the clock. An HTTP response is an object with the
  members \<open>ok\<close>, \<open>status\<close> and \<open>json\<close>, the last undefined when the body is no JSON.
\<close>

record deploy_env =
  dv_reply :: "deploy_call list \<Rightarrow> deploy_call \<Rightarrow> js_error + js"
  dv_env :: process_env
  dv_access :: "string \<Rightarrow> js_error + string option"
  dv_connector :: "string \<Rightarrow> string \<Rightarrow> js_error + unit"
  dv_migrations :: "string list"
  dv_now :: instant
  dv_stamp :: string
  dv_elapsed :: string

text \<open>A manifest file is what \<open>JSON.parse\<close> makes of it.\<close>

record deploy =
  dp_calls :: "deploy_call list"
  dp_log :: "report list"
  dp_failures :: nat
  dp_files :: "string \<Rightarrow> (js_error + js) option"

definition call :: "deploy_env \<Rightarrow> deploy_call \<Rightarrow> (deploy, js) eff" where
  "call env c = (\<lambda>s. (dv_reply env (dp_calls s) c, s\<lparr>dp_calls := dp_calls s @ [c]\<rparr>))"

definition say :: "report \<Rightarrow> (deploy, unit) eff" where
  "say r = (\<lambda>s. (Inr (), s\<lparr>dp_log := dp_log s @ [r]\<rparr>))"

text \<open>\<open>fault\<close> and \<open>vfail\<close> of the scripts: a line and a failure.\<close>

definition fault :: "string \<Rightarrow> string \<Rightarrow> (deploy, unit) eff" where
  "fault sec msg = (\<lambda>s. (Inr (), s\<lparr>dp_log := dp_log s @ [Fault sec msg], dp_failures := Suc (dp_failures s)\<rparr>))"

definition report_all :: "report list \<Rightarrow> (deploy, unit) eff" where
  "report_all rs = forEach (\<lambda>r. case r of Fault sec msg \<Rightarrow> fault sec msg | _ \<Rightarrow> say r) rs"

definition swallow :: "(deploy, 'a) eff \<Rightarrow> (deploy, unit) eff" where
  "swallow m = tryCatch (andThen m (\<lambda>_. ret ())) (\<lambda>_. ret ())"

definition say_pass :: "string \<Rightarrow> string \<Rightarrow> (deploy, unit) eff" where
  "say_pass sec msg = say (Pass sec msg)"

definition say_warn :: "string \<Rightarrow> string \<Rightarrow> (deploy, unit) eff" where
  "say_warn sec msg = say (Warn sec msg)"

definition say_dim :: "string \<Rightarrow> (deploy, unit) eff" where
  "say_dim msg = say (Dim msg)"

abbreviation var :: "deploy_env \<Rightarrow> string \<Rightarrow> string option" where
  "var env n \<equiv> dv_env env n"

abbreviation has :: "deploy_env \<Rightarrow> string \<Rightarrow> bool" where
  "has env n \<equiv> truthy_str (var env n)"

definition took :: "deploy_env \<Rightarrow> string" where
  "took env = '' ('' @ dv_elapsed env @ '')''"

fun rows_of :: "js \<Rightarrow> js list" where
  "rows_of (JArr xs) = xs"
| "rows_of _ = []"

definition column :: "string \<Rightarrow> js \<Rightarrow> string list" where
  "column c r = map (\<lambda>row. js_String (js_prop row c)) (rows_of r)"

definition hasPgConfig :: "deploy_env \<Rightarrow> string option \<Rightarrow> bool" where
  "hasPgConfig env dbEngine =
     (if dbEngine = Some ''cloud-sql'' then has env ''DB_INSTANCE_CONNECTION_NAME'' \<and> has env ''DB_USER'' \<and> has env ''DB_NAME''
      else has env ''DATABASE_URL'')"

definition openPool :: "deploy_env \<Rightarrow> (deploy, pool_spec) eff" where
  "openPool env = (case createPgPool (dv_access env) (dv_connector env) (dv_env env) of Inl e \<Rightarrow> throw e | Inr p \<Rightarrow> ret p)"

definition esClient :: "deploy_env \<Rightarrow> (deploy, unit) eff" where
  "esClient env = (case getConfig (dv_env env) of Inl e \<Rightarrow> throw e | Inr _ \<Rightarrow> ret ())"

section \<open>Preflight\<close>

definition probe_index :: "deploy_env \<Rightarrow> string" where
  "probe_index env = ''iga-preflight-probe-'' @ dv_stamp env"

definition preflight_es :: "deploy_env \<Rightarrow> (deploy, unit) eff" where
  "preflight_es env =
     (if \<not> has env ''ES_ENDPOINT'' \<or> \<not> has env ''ES_API_KEY''
      then say_warn ''es'' (''skipped '' @ em_dash @ '' ES_ENDPOINT or ES_API_KEY not set'')
      else tryCatch
        (andThen (esClient env) (\<lambda>_. andThen (call env EsPing) (\<lambda>_. andThen (say_pass ''es'' (''reachable'' @ took env)) (\<lambda>_.
         andThen (tryCatch (andThen (call env CatIndices) (\<lambda>_. say_pass ''es'' ''API key can list indices''))
                    (\<lambda>e. say_warn ''es'' (''API key cannot list indices '' @ em_dash @ '' may lack monitor privilege: '' @ e_message e))) (\<lambda>_.
         andThen (forEach (\<lambda>n. andThen (call env (IndexExists n)) (\<lambda>v.
                    say_dim (''  index '' @ n @ (if truthy v then '' already exists '' @ em_dash @ '' bootstrap will skip''
                                            else '' does not exist '' @ em_dash @ '' bootstrap will create'')))) index_names) (\<lambda>_.
         tryCatch (andThen (call env (IndexCreate (probe_index env))) (\<lambda>_. andThen (call env (IndexDelete (probe_index env))) (\<lambda>_.
                     say_pass ''es'' ''API key can create/delete indices'')))
           (\<lambda>e. fault ''es'' (''API key cannot create indices '' @ em_dash @ '' bootstrap will fail: '' @ e_message e))))))))
        (\<lambda>e. fault ''es'' (''unreachable: '' @ e_message e)))"

definition preflight_pg_queries :: "deploy_env \<Rightarrow> (deploy, unit) eff" where
  "preflight_pg_queries env =
     andThen (call env PgInfo) (\<lambda>r.
     let row = (case rows_of r of x # _ \<Rightarrow> x | [] \<Rightarrow> JUndefined) in
     if nullish row then throw (newError ''Cannot read properties of undefined (reading 'db')'')
     else
       andThen (say_pass ''pg'' (''connected to ''  @ [CHR 0x27] @ js_String (js_prop row ''db'') @ [CHR 0x27] @ '' as '' @ [CHR 0x27] @
         js_String (js_prop row ''usr'') @ [CHR 0x27] @ took env)) (\<lambda>_.
       case js_prop row ''ver'' of
         JStr v \<Rightarrow>
           andThen (say_dim (''  '' @ join_with '' '' (take 2 (split_on (CHR '' '') v)))) (\<lambda>_.
           andThen (call env PgTables) (\<lambda>t.
           andThen (say_dim (if {''job_instances'', ''job_runs''} \<subseteq> set (column ''tablename'' t)
               then ''  tables job_instances + job_runs already exist '' @ em_dash @ '' migrations will skip''
               else ''  tables not yet created '' @ em_dash @ '' migrations will run'')) (\<lambda>_.
           tryCatch (andThen (call env PgProbeTable) (\<lambda>_. say_pass ''pg'' ''user has CREATE TABLE privilege''))
             (\<lambda>e. fault ''pg'' (''user lacks CREATE TABLE privilege '' @ em_dash @ '' migrations will fail: '' @ e_message e)))))
       | _ \<Rightarrow> throw (newError ''rows[0].ver.split is not a function'')))"

definition preflight_pg :: "deploy_env \<Rightarrow> (deploy, unit) eff" where
  "preflight_pg env =
     (if \<not> hasPgConfig env (var env ''DB_ENGINE'') then say_warn ''pg'' (''skipped '' @ em_dash @ '' connection vars not set'')
      else let h = (\<lambda>e. if js_includes (e_message e) ''ETIMEDOUT'' \<or> js_includes (e_message e) ''ECONNREFUSED''
                 then say_warn ''pg'' (''unreachable from local network (private IP only) '' @ em_dash @
                        '' skipping. Migrations run in Cloud Build.'')
                 else fault ''pg'' (''unreachable: '' @ e_message e)) in
        case createPgPool (dv_access env) (dv_connector env) (dv_env env) of
          Inl e \<Rightarrow> h e
        | Inr _ \<Rightarrow> tryFinally (tryCatch (preflight_pg_queries env) h) (swallow (call env PgEnd)))"

definition quoted :: "string \<Rightarrow> string" where
  "quoted s = [CHR 0x27] @ s @ [CHR 0x27]"

definition preflight_gcs :: "deploy_env \<Rightarrow> (deploy, unit) eff" where
  "preflight_gcs env =
     (if \<not> has env ''JOB_ZIP_BUCKET'' then say_warn ''gcs'' (''skipped '' @ em_dash @ '' JOB_ZIP_BUCKET not set'')
      else let b = the (var env ''JOB_ZIP_BUCKET'') in
        tryCatch (andThen (call env (BucketExists b)) (\<lambda>v.
          andThen (if truthy v then say_pass ''gcs'' (''bucket '' @ quoted b @ '' exists'' @ took env)
                   else fault ''gcs'' (''bucket '' @ quoted b @ '' does not exist '' @ em_dash @ '' create it before deploying'')) (\<lambda>_.
          tryCatch (andThen (call env (ObjectSave b)) (\<lambda>_. andThen (call env (ObjectDelete b)) (\<lambda>_.
                      say_pass ''gcs'' ''service account can write to bucket'')))
            (\<lambda>e. fault ''gcs'' (''cannot write to bucket '' @ em_dash @ '' app will fail to store job artifacts: '' @ e_message e)))))
          (\<lambda>e. fault ''gcs'' (''check failed: '' @ e_message e)))"

text \<open>\<open>await res.json()\<close>.\<close>

definition response_json :: "js \<Rightarrow> (deploy, js) eff" where
  "response_json res = (if js_prop res ''json'' = JUndefined then throw (newError ''invalid json'') else ret (js_prop res ''json''))"

definition preflight_worker :: "deploy_env \<Rightarrow> (deploy, unit) eff" where
  "preflight_worker env =
     (let sec = ''worker-service'' in
      if \<not> has env ''RUNTIME_WORKER_URL'' then fault sec (''RUNTIME_WORKER_URL not set '' @ em_dash @ '' required in production'')
      else let url = the (var env ''RUNTIME_WORKER_URL'') in
        if url = ''https://placeholder''
        then say_warn sec (''RUNTIME_WORKER_URL is placeholder '' @ em_dash @
               '' first deploy, worker not yet created. Re-run after Cloud Build deploys the service.'')
        else tryCatch (andThen (call env (HttpGet (url @ ''/health''))) (\<lambda>res. andThen (response_json res) (\<lambda>json.
               if nullish json \<and> truthy (js_prop res ''ok'') then throw (newError ''Cannot read properties of null (reading 'status')'')
               else if truthy (js_prop res ''ok'') \<and> js_prop json ''status'' = JStr ''ok''
               then say_pass sec (''worker service healthy at '' @ url @ took env)
               else fault sec (''worker service /health returned unexpected response: '' @ json_text 0 json 0))))
             (\<lambda>e. fault sec (''worker service unreachable at '' @ url @ '': '' @ e_message e)))"

definition preflight_sm :: "deploy_env \<Rightarrow> (deploy, unit) eff" where
  "preflight_sm env =
     (if \<not> has env ''IGA_CLIENT_SECRET'' then say_warn ''sm'' (''skipped '' @ em_dash @ '' IGA_CLIENT_SECRET not set'')
      else let secret = the (var env ''IGA_CLIENT_SECRET'') in
        if \<not> startsWith secret ''projects/''
        then andThen (say_dim (''  IGA_CLIENT_SECRET is a literal value, not a Secret Manager reference '' @ em_dash @ '' skipping SM probe''))
               (\<lambda>_. say_pass ''sm'' ''literal secret configured (not using Secret Manager)'')
        else tryCatch (andThen (call env (SecretAccess secret)) (\<lambda>v.
               if truthy (js_prop (js_prop v ''payload'') ''data'') then say_pass ''sm'' (''secret accessible'' @ took env)
               else fault ''sm'' ''secret returned empty payload''))
             (\<lambda>e. fault ''sm'' (''cannot access secret '' @ quoted secret @ '': '' @ e_message e)))"

text \<open>The key set of the issuer: the configured URL, the one discovery names, or the conventional one.\<close>

definition discover_jwks :: "deploy_env \<Rightarrow> string \<Rightarrow> (deploy, string) eff" where
  "discover_jwks env issuer =
     (let fallback = issuer @ ''/.well-known/jwks.json''; back = '' '' @ em_dash @ '' falling back to <issuer>/.well-known/jwks.json'' in
      tryCatch (andThen (call env (HttpGet (issuer @ ''/.well-known/openid-configuration''))) (\<lambda>res.
        if \<not> truthy (js_prop res ''ok'')
        then andThen (say_warn ''ping'' (''OIDC discovery returned HTTP '' @ js_String (js_prop res ''status'') @ back)) (\<lambda>_. ret fallback)
        else andThen (response_json res) (\<lambda>doc.
          if nullish doc then throw (newError ''Cannot read properties of null (reading 'jwks_uri')'')
          else if truthy (js_prop doc ''jwks_uri'')
          then andThen (say_pass ''ping'' (''OIDC discovery succeeded, jwks_uri resolved'' @ took env)) (\<lambda>_.
               andThen (say_dim (''  jwks_uri: '' @ js_String (js_prop doc ''jwks_uri''))) (\<lambda>_. ret (js_String (js_prop doc ''jwks_uri''))))
          else andThen (say_warn ''ping'' (''OIDC discovery doc has no jwks_uri'' @ back)) (\<lambda>_. ret fallback))))
        (\<lambda>e. andThen (say_warn ''ping'' (''OIDC discovery failed ('' @ e_message e @ '')'' @ back)) (\<lambda>_. ret fallback)))"

definition preflight_jwks :: "deploy_env \<Rightarrow> (deploy, unit) eff" where
  "preflight_jwks env =
     (if \<not> has env ''PUBLIC_API_ISSUER'' then say_warn ''ping'' (''skipped '' @ em_dash @ '' PUBLIC_API_ISSUER not set'')
      else andThen (if has env ''PUBLIC_API_JWKS_URL''
                    then andThen (say_dim (''  using explicit PUBLIC_API_JWKS_URL: '' @ the (var env ''PUBLIC_API_JWKS_URL'')))
                           (\<lambda>_. ret (the (var env ''PUBLIC_API_JWKS_URL'')))
                    else discover_jwks env (the (var env ''PUBLIC_API_ISSUER''))) (\<lambda>url.
        tryCatch (andThen (call env (HttpGet url)) (\<lambda>res.
          if \<not> truthy (js_prop res ''ok'') then fault ''ping'' (''JWKS endpoint returned HTTP '' @ js_String (js_prop res ''status'') @ '': '' @ url)
          else andThen (response_json res) (\<lambda>body.
            let n = length (rows_of (js_prop body ''keys'')) in
            if n = 0 then say_warn ''ping'' (''JWKS endpoint returned 0 keys '' @ em_dash @ '' tokens will fail to verify: '' @ url)
            else say_pass ''ping'' (''JWKS endpoint reachable, '' @ nat_text n @ '' key(s)'' @ took env))))
          (\<lambda>e. fault ''ping'' (''JWKS endpoint unreachable: '' @ e_message e @ '' '' @ em_dash @ '' '' @ url))))"

definition with_flags :: "string list \<Rightarrow> deploy_env \<Rightarrow> deploy_env" where
  "with_flags argv env = env\<lparr>dv_env := applyCliDefaults argv (dv_env env)\<rparr>"

definition is_local :: "deploy_env \<Rightarrow> bool" where
  "is_local env \<longleftrightarrow> env_default (dv_env env) ''APP_MODE'' ''production'' = ''local''"

definition preflight_checks :: "deploy_env \<Rightarrow> (deploy, unit) eff" where
  "preflight_checks env =
     andThen (report_all (preflight_env (dv_env env))) (\<lambda>_.
     andThen (if is_local env then ret ()
              else andThen (preflight_es env) (\<lambda>_. andThen (preflight_pg env) (\<lambda>_. andThen (preflight_gcs env) (\<lambda>_.
                   andThen (preflight_worker env) (\<lambda>_. preflight_sm env))))) (\<lambda>_.
     preflight_jwks env))"

text \<open>The process starts with its counter at zero; the counter of the caller is not touched.\<close>

definition preflight :: "deploy_env \<Rightarrow> string list \<Rightarrow> (deploy, nat) eff" where
  "preflight env argv = (\<lambda>s.
     case preflight_checks (with_flags argv env) (s\<lparr>dp_failures := 0\<rparr>) of
       (Inl e, s') \<Rightarrow> (Inl e, s'\<lparr>dp_failures := dp_failures s\<rparr>)
     | (Inr _, s') \<Rightarrow>
         (Inr (if dp_failures s' = 0 then 0 else 1),
          s'\<lparr>dp_failures := dp_failures s, dp_log := dp_log s' @
            [if dp_failures s' = 0 then Pass ''preflight'' (''all checks passed '' @ em_dash @ '' safe to proceed with bootstrap'')
             else Fault ''preflight'' (nat_text (dp_failures s') @ '' check(s) failed '' @ em_dash @ '' resolve issues above before bootstrapping'')]\<rparr>))"

end
