(* ===== verification/Public_Auth.thy ===== *)
theory Public_Auth
  imports Deploy_Scripts
begin

text \<open>
  The tokens of the public API: \<open>createPublicAuthMiddleware\<close>, \<open>resolveJwksUrl\<close> and \<open>createJoseVerifier\<close> of
  \<open>src/src/middleware/publicAuth.js\<close>, around the check of one request that \<open>Iga_Gateway\<close> models as \<open>publicAuth\<close>. The state is the
  promise of the key set, which the first token without a configured URL fills, and the number of requests sent. \<open>fetch\<close>, the
  \<open>URL\<close> constructor and \<open>jwtVerify\<close> of the jose library are parameters.
\<close>

section \<open>The verifier\<close>

text \<open>\<open>au_jwtVerify\<close> takes the URL of the key set, the issuer, the audience, the allowed algorithms and the token.\<close>

record auth_env =
  au_issuer :: "string option"
  au_audience :: "string option"
  au_requiredScope :: "string option"
  au_jwksUrl :: "string option"
  au_algorithms :: "string list option"
  au_fetch :: "nat \<Rightarrow> string \<Rightarrow> js_error + js"
  au_newUrl :: "string \<Rightarrow> js_error option"
  au_jwtVerify :: "string \<Rightarrow> string \<Rightarrow> string \<Rightarrow> string list \<Rightarrow> string \<Rightarrow> js_error + js"

record verifier =
  vf_jwksPromise :: "(js_error + string) option"
  vf_fetches :: nat

text \<open>The options that come from the environment.\<close>

definition auth_options :: "process_env \<Rightarrow> auth_env \<Rightarrow> auth_env" where
  "auth_options env a = a\<lparr>au_issuer := env ''PUBLIC_API_ISSUER'', au_audience := env ''PUBLIC_API_AUDIENCE'',
     au_requiredScope := env ''PUBLIC_API_REQUIRED_SCOPE'', au_jwksUrl := env ''PUBLIC_API_JWKS_URL'',
     au_algorithms := map_option (\<lambda>s. map js_trim (split_on (CHR '','') s)) (env ''PUBLIC_API_ALGORITHMS'')\<rparr>"

definition auth_fetch :: "auth_env \<Rightarrow> string \<Rightarrow> (verifier, js) eff" where
  "auth_fetch env url = (\<lambda>s. (au_fetch env (vf_fetches s) url, s\<lparr>vf_fetches := Suc (vf_fetches s)\<rparr>))"

definition json_body :: "js \<Rightarrow> (verifier, js) eff" where
  "json_body res = (if js_prop res ''json'' = JUndefined then throw (newError ''invalid json'') else ret (js_prop res ''json''))"

definition resolveJwksUrl :: "auth_env \<Rightarrow> string \<Rightarrow> (verifier, js) eff" where
  "resolveJwksUrl env issuer =
     (let fallback = ret (JStr (issuer @ ''/.well-known/jwks.json'')) in
      tryCatch (andThen (auth_fetch env (issuer @ ''/.well-known/openid-configuration'')) (\<lambda>res.
          if truthy (js_prop res ''ok'')
          then andThen (json_body res) (\<lambda>doc.
            if nullish doc then throw (newError ''Cannot read properties of null (reading 'jwks_uri')'')
            else if truthy (js_prop doc ''jwks_uri'') then ret (js_prop doc ''jwks_uri'') else fallback)
          else fallback))
        (\<lambda>_. fallback))"

text \<open>\<open>createRemoteJWKSet(new URL(url))\<close>: the key set at a URL, which is not requested yet.\<close>

definition createRemoteJWKSet :: "auth_env \<Rightarrow> string \<Rightarrow> js_error + string" where
  "createRemoteJWKSet env url = (case au_newUrl env url of Some e \<Rightarrow> Inl e | None \<Rightarrow> Inr url)"

definition createJoseVerifier :: "auth_env \<Rightarrow> js_error + verifier" where
  "createJoseVerifier env =
     (if truthy_str (au_jwksUrl env)
      then bind_sum (createRemoteJWKSet env (the (au_jwksUrl env))) (\<lambda>u. Inr \<lparr>vf_jwksPromise = Some (Inr u), vf_fetches = 0\<rparr>)
      else Inr \<lparr>vf_jwksPromise = None, vf_fetches = 0\<rparr>)"

definition getJwks :: "auth_env \<Rightarrow> string \<Rightarrow> (verifier, string) eff" where
  "getJwks env issuer = (\<lambda>s.
     case vf_jwksPromise s of
       Some r \<Rightarrow> (r, s)
     | None \<Rightarrow>
         (let (u, s') = resolveJwksUrl env issuer s;
              r = bind_sum u (\<lambda>v. createRemoteJWKSet env (js_String v)) in
          (r, s'\<lparr>vf_jwksPromise := Some r\<rparr>)))"

definition allowed_algorithms :: "auth_env \<Rightarrow> string list" where
  "allowed_algorithms env = (case au_algorithms env of Some as \<Rightarrow> as | None \<Rightarrow> [''RS256'', ''ES256'', ''PS256''])"

definition verifyJoseToken :: "auth_env \<Rightarrow> string \<Rightarrow> (verifier, js) eff" where
  "verifyJoseToken env token =
     andThen (getJwks env (the (au_issuer env))) (\<lambda>jwks s.
     (au_jwtVerify env jwks (the (au_issuer env)) (the (au_audience env)) (allowed_algorithms env) token, s))"

definition createPublicAuthMiddleware :: "auth_env \<Rightarrow> js_error + verifier" where
  "createPublicAuthMiddleware env =
     (if \<not> truthy_str (au_issuer env) then Inl (newError ''PUBLIC_API_ISSUER is required'')
      else if \<not> truthy_str (au_audience env) then Inl (newError ''PUBLIC_API_AUDIENCE is required'')
      else createJoseVerifier env)"

text \<open>One request: the verifier is asked when there is a token.\<close>

definition auth_request :: "auth_env \<Rightarrow> string option \<Rightarrow> verifier \<Rightarrow> auth_result \<times> verifier" where
  "auth_request env authorization s =
     (publicAuth (au_requiredScope env) (\<lambda>t. fst (verifyJoseToken env t s)) authorization,
      case bearer_token (case authorization of Some h \<Rightarrow> h | None \<Rightarrow> []) of
        None \<Rightarrow> s | Some t \<Rightarrow> snd (verifyJoseToken env t s))"

fun auth_requests :: "auth_env \<Rightarrow> string option list \<Rightarrow> verifier \<Rightarrow> verifier" where
  "auth_requests env [] s = s"
| "auth_requests env (h # hs) s = auth_requests env hs (snd (auth_request env h s))"

section \<open>Lemmas\<close>

lemma resolveJwksUrl_total: "\<exists>u s'. resolveJwksUrl env issuer s = (Inr u, s')"
  by (auto simp: resolveJwksUrl_def Let_def tryCatch_def andThen_def ret_def split: prod.split sum.split)

lemma getJwks_caches: "vf_jwksPromise (snd (getJwks env issuer s)) = Some (fst (getJwks env issuer s))"
  by (auto simp: getJwks_def Let_def split: option.split prod.split)

lemma getJwks_cached: "vf_jwksPromise s = Some r \<Longrightarrow> getJwks env issuer s = (r, s)"
  by (simp add: getJwks_def)

lemma verify_state: "snd (verifyJoseToken env t s) = snd (getJwks env (the (au_issuer env)) s)"
  by (auto simp: verifyJoseToken_def andThen_def split: prod.split sum.split)

text \<open>Once the promise is there it never changes, and no further discovery request is sent.\<close>

lemma auth_request_cached: "vf_jwksPromise s = Some r \<Longrightarrow> snd (auth_request env h s) = s"
  by (auto simp: auth_request_def verify_state getJwks_cached split: option.split)

lemma auth_requests_cached: "vf_jwksPromise s = Some r \<Longrightarrow> auth_requests env hs s = s"
  by (induction hs arbitrary: s) (simp_all add: auth_request_cached)

text \<open>
  A discovery that fails for the first token is never repeated: the verifier keeps the conventional URL, whatever the discovery
  document would say later.
\<close>

lemma failed_discovery_sticks:
  assumes "vf_jwksPromise s = None" "isl (au_fetch env (vf_fetches s) (the (au_issuer env) @ ''/.well-known/openid-configuration''))"
    and "au_newUrl env (the (au_issuer env) @ ''/.well-known/jwks.json'') = None"
    and "bearer_token h = Some t"
  shows "vf_jwksPromise (auth_requests env hs (snd (auth_request env (Some h) s))) = Some (Inr (the (au_issuer env) @ ''/.well-known/jwks.json''))"
proof -
  have "fst (getJwks env (the (au_issuer env)) s) = Inr (the (au_issuer env) @ ''/.well-known/jwks.json'')"
    using assms(1-3) by (auto simp: getJwks_def resolveJwksUrl_def Let_def tryCatch_def andThen_def auth_fetch_def ret_def
        createRemoteJWKSet_def bind_sum_def isl_def split: sum.split)
  then have "vf_jwksPromise (snd (auth_request env (Some h) s)) = Some (Inr (the (au_issuer env) @ ''/.well-known/jwks.json''))"
    using assms(4) by (simp add: auth_request_def verify_state getJwks_caches)
  then show ?thesis by (simp add: auth_requests_cached)
qed

lemma explicit_url:
  assumes "createPublicAuthMiddleware env = Inr s0" "truthy_str (au_jwksUrl env)"
  shows "vf_jwksPromise s0 = Some (Inr (the (au_jwksUrl env)))"
  using assms by (auto simp: createPublicAuthMiddleware_def createJoseVerifier_def createRemoteJWKSet_def bind_sum_def split: if_splits option.splits)

text \<open>What the check of one request says about an accepted one.\<close>

lemma publicAuth_accepts:
  assumes "publicAuth sc verifyToken authorization = Next client claims"
  shows "\<exists>h t. authorization = Some h \<and> bearer_token h = Some t \<and> verifyToken t = Inr claims \<and>
    (truthy_str sc \<longrightarrow> (\<exists>scopes. token_scopes (js_prop claims ''scope'') = Some scopes \<and> JStr (the sc) \<in> set scopes))"
  using assms by (auto simp: publicAuth_def Let_def bearer_token_Nil split: option.splits sum.splits if_splits)

lemma verify_Inr:
  assumes "fst (verifyJoseToken env t s) = Inr claims"
  shows "\<exists>jwks. fst (getJwks env (the (au_issuer env)) s) = Inr jwks \<and>
    au_jwtVerify env jwks (the (au_issuer env)) (the (au_audience env)) (allowed_algorithms env) t = Inr claims"
  using assms by (auto simp: verifyJoseToken_def andThen_def split: prod.splits sum.splits)

section \<open>Properties\<close>

text \<open>
  C17. A request passes the public authentication only with a bearer token that \<open>jwtVerify\<close> accepts for the configured issuer and audience
  and the configured algorithms (or the three defaults), never for what the token itself names, and whose scopes contain the
  required one. The keys come from one key set, the configured one if there is one, for this and every later request.
\<close>

theorem accepted_tokens_verified:
  assumes "createPublicAuthMiddleware env = Inr s0"
    and "auth_request env authorization (auth_requests env hs s0) = (Next client claims, s')"
  shows "\<exists>h t jwks. authorization = Some h \<and> bearer_token h = Some t \<and>
    au_jwtVerify env jwks (the (au_issuer env)) (the (au_audience env)) (allowed_algorithms env) t = Inr claims \<and>
    (truthy_str (au_requiredScope env) \<longrightarrow>
      (\<exists>scopes. token_scopes (js_prop claims ''scope'') = Some scopes \<and> JStr (the (au_requiredScope env)) \<in> set scopes)) \<and>
    (truthy_str (au_jwksUrl env) \<longrightarrow> jwks = the (au_jwksUrl env)) \<and>
    (\<forall>later. vf_jwksPromise (auth_requests env later s') = Some (Inr jwks))"
proof -
  let ?s = "auth_requests env hs s0"
  have "publicAuth (au_requiredScope env) (\<lambda>t. fst (verifyJoseToken env t ?s)) authorization = Next client claims"
    using assms(2) by (simp add: auth_request_def)
  then obtain h t where t: "authorization = Some h" "bearer_token h = Some t" "fst (verifyJoseToken env t ?s) = Inr claims"
    and sc: "truthy_str (au_requiredScope env) \<longrightarrow>
      (\<exists>scopes. token_scopes (js_prop claims ''scope'') = Some scopes \<and> JStr (the (au_requiredScope env)) \<in> set scopes)"
    using publicAuth_accepts by blast
  obtain jwks where j: "fst (getJwks env (the (au_issuer env)) ?s) = Inr jwks"
    "au_jwtVerify env jwks (the (au_issuer env)) (the (au_audience env)) (allowed_algorithms env) t = Inr claims"
    using verify_Inr [OF t(3)] by blast
  have "s' = snd (getJwks env (the (au_issuer env)) ?s)" using assms(2) t(1,2) by (simp add: auth_request_def verify_state)
  then have later: "vf_jwksPromise (auth_requests env later s') = Some (Inr jwks)" for later
    using getJwks_caches [of env "the (au_issuer env)" ?s] j(1) by (simp add: auth_requests_cached)
  have "jwks = the (au_jwksUrl env)" if "truthy_str (au_jwksUrl env)"
  proof -
    have "vf_jwksPromise ?s = Some (Inr (the (au_jwksUrl env)))"
      using explicit_url [OF assms(1) that] by (simp add: auth_requests_cached)
    then show ?thesis using j(1) by (simp add: getJwks_cached)
  qed
  with t(1,2) j(2) sc later show ?thesis by blast
qed

definition sample_auth :: auth_env where
  "sample_auth = \<lparr>au_issuer = Some ''i'', au_audience = Some ''a'', au_requiredScope = Some ''run'', au_jwksUrl = None, au_algorithms = None,
     au_fetch = (\<lambda>n u. if n = 0 then Inl (newError ''offline'') else Inr (JObj [(''ok'', JBool True)])), au_newUrl = (\<lambda>_. None),
     au_jwtVerify = (\<lambda>url iss aud algs token. if iss = ''i'' \<and> aud = ''a'' \<and> ''RS256'' \<in> set algs \<and> token = ''t''
       then Inr (JObj [(''scope'', JStr ''read run''), (''sub'', JStr ''c'')]) else Inl (newError ''bad token''))\<rparr>"

theorem accepted_tokens_verified_witness:
  "\<exists>jwks. au_jwtVerify sample_auth jwks ''i'' ''a'' [''RS256'', ''ES256'', ''PS256''] ''t'' = Inr (JObj [(''scope'', JStr ''read run''), (''sub'', JStr ''c'')]) \<and>
    vf_jwksPromise (auth_requests sample_auth [Some ''Bearer t''] (snd (auth_request sample_auth (Some ''Bearer t'') \<lparr>vf_jwksPromise = None, vf_fetches = 0\<rparr>))) =
      Some (Inr jwks)"
proof -
  have start: "createPublicAuthMiddleware sample_auth = Inr \<lparr>vf_jwksPromise = None, vf_fetches = 0\<rparr>"
    by (simp add: createPublicAuthMiddleware_def createJoseVerifier_def sample_auth_def)
  have token: "bearer_token ''Bearer t'' = Some ''t''" by code_simp
  let ?claims = "JObj [(''scope'', JStr ''read run''), (''sub'', JStr ''c'')]"
  obtain client s' where run: "auth_request sample_auth (Some ''Bearer t'') (auth_requests sample_auth [] \<lparr>vf_jwksPromise = None, vf_fetches = 0\<rparr>) =
      (Next client ?claims, s')"
    by (simp add: auth_request_def publicAuth_def token verifyJoseToken_def andThen_def getJwks_def resolveJwksUrl_def tryCatch_def auth_fetch_def
        sample_auth_def allowed_algorithms_def ret_def Let_def createRemoteJWKSet_def bind_sum_def token_scopes_def js_or_def)
  from accepted_tokens_verified [OF start run] obtain h t jwks where "Some ''Bearer t'' = Some h" "bearer_token h = Some t"
    and j: "au_jwtVerify sample_auth jwks (the (au_issuer sample_auth)) (the (au_audience sample_auth)) (allowed_algorithms sample_auth) t = Inr ?claims"
    and l: "\<forall>later. vf_jwksPromise (auth_requests sample_auth later s') = Some (Inr jwks)" by blast
  then have "t = ''t''" using token by simp
  with j have "au_jwtVerify sample_auth jwks ''i'' ''a'' [''RS256'', ''ES256'', ''PS256''] ''t'' = Inr ?claims"
    by (simp add: sample_auth_def allowed_algorithms_def)
  moreover have "snd (auth_request sample_auth (Some ''Bearer t'') \<lparr>vf_jwksPromise = None, vf_fetches = 0\<rparr>) = s'" using run by simp
  ultimately show ?thesis using l by blast
qed

text \<open>The script and the server read the discovery document alike.\<close>

lemma reports_quiet: "say r s = (Inr (), s\<lparr>dp_log := dp_log s @ [r]\<rparr>)" "say_pass sec msg s = (Inr (), s\<lparr>dp_log := dp_log s @ [Pass sec msg]\<rparr>)"
  "say_warn sec msg s = (Inr (), s\<lparr>dp_log := dp_log s @ [Warn sec msg]\<rparr>)" "say_dim msg s = (Inr (), s\<lparr>dp_log := dp_log s @ [Dim msg]\<rparr>)"
  "fault sec msg s = (Inr (), s\<lparr>dp_log := dp_log s @ [Fault sec msg], dp_failures := Suc (dp_failures s)\<rparr>)"
  by (simp_all add: say_def say_pass_def say_warn_def say_dim_def fault_def)

lemma discovery_agrees:
  assumes "au_fetch a (vf_fetches v) (issuer @ ''/.well-known/openid-configuration'') =
    dv_reply env (dp_calls s) (HttpGet (issuer @ ''/.well-known/openid-configuration''))"
  shows "\<exists>u v' s'. resolveJwksUrl a issuer v = (Inr u, v') \<and> discover_jwks env issuer s = (Inr (js_String u), s') \<and>
    dp_calls s' = dp_calls s @ [HttpGet (issuer @ ''/.well-known/openid-configuration'')]"
proof (cases "dv_reply env (dp_calls s) (HttpGet (issuer @ ''/.well-known/openid-configuration''))")
  case (Inl e)
  then show ?thesis using assms
    by (simp add: resolveJwksUrl_def discover_jwks_def Let_def tryCatch_def andThen_def auth_fetch_def call_def ret_def reports_quiet)
next
  case (Inr res)
  then show ?thesis using assms
    by (simp add: resolveJwksUrl_def discover_jwks_def Let_def tryCatch_def andThen_def auth_fetch_def call_def ret_def throw_def reports_quiet
        json_body_def response_json_def)
qed

lemma jwks_request:
  "dp_calls (snd (tryCatch (andThen (call env (HttpGet url)) (\<lambda>res.
      if \<not> truthy (js_prop res ''ok'') then fault ''ping'' (f res)
      else andThen (response_json res) (\<lambda>body. let n = g body in if n = (0 :: nat) then say_warn ''ping'' (h body) else say_pass ''ping'' (k body n))))
    (\<lambda>e. fault ''ping'' (m e)) s)) = dp_calls s @ [HttpGet url]"
  by (cases "dv_reply env (dp_calls s) (HttpGet url)")
    (simp_all add: tryCatch_def andThen_def call_def ret_def throw_def reports_quiet response_json_def Let_def)

text \<open>
  The operator's preflight asks the key set the server will verify tokens with: when the issuer answers both alike, the last
  request of the JWKS check goes to the URL the server's verifier takes, be it configured, discovered or the conventional one.
\<close>

lemma preflight_checks_server_keys:
  assumes "truthy_str (dv_env env ''PUBLIC_API_ISSUER'')" "truthy_str (dv_env env ''PUBLIC_API_AUDIENCE'')"
    and "au_fetch a = (\<lambda>_ u. dv_reply env (dp_calls s) (HttpGet u))" "au_newUrl a = (\<lambda>_. None)"
    and "createPublicAuthMiddleware (auth_options (dv_env env) a) = Inr v"
  shows "\<exists>url cs. fst (getJwks (auth_options (dv_env env) a) (the (dv_env env ''PUBLIC_API_ISSUER'')) v) = Inr url \<and>
    dp_calls (snd (preflight_jwks env s)) = dp_calls s @ cs @ [HttpGet url]"
proof -
  let ?i = "the (dv_env env ''PUBLIC_API_ISSUER'')" and ?a = "auth_options (dv_env env) a"
  let ?m = "if has env ''PUBLIC_API_JWKS_URL''
    then andThen (say_dim (''  using explicit PUBLIC_API_JWKS_URL: '' @ the (var env ''PUBLIC_API_JWKS_URL''))) (\<lambda>_. ret (the (var env ''PUBLIC_API_JWKS_URL'')))
    else discover_jwks env ?i"
  obtain url cs t where u: "fst (getJwks ?a ?i v) = Inr url" "?m s = (Inr url, t)" "dp_calls t = dp_calls s @ cs"
  proof (cases "has env ''PUBLIC_API_JWKS_URL''")
    case True
    then have "vf_jwksPromise v = Some (Inr (the (var env ''PUBLIC_API_JWKS_URL'')))"
      using explicit_url [OF assms(5)] by (simp add: auth_options_def)
    with True that [of "the (var env ''PUBLIC_API_JWKS_URL'')" _ "[]"] show ?thesis
      by (simp add: getJwks_cached andThen_def reports_quiet ret_def)
  next
    case False
    then have v: "vf_jwksPromise v = None" using assms(1,2,5)
      by (auto simp: createPublicAuthMiddleware_def createJoseVerifier_def auth_options_def)
    have "au_fetch ?a (vf_fetches v) x = dv_reply env (dp_calls s) (HttpGet x)" for x using assms(3) by (simp add: auth_options_def)
    from discovery_agrees [OF this] obtain w v' t where "resolveJwksUrl ?a ?i v = (Inr w, v')" "discover_jwks env ?i s = (Inr (js_String w), t)"
      "dp_calls t = dp_calls s @ [HttpGet (?i @ ''/.well-known/openid-configuration'')]" by blast
    with False v that show ?thesis
      by (simp add: getJwks_def Let_def bind_sum_def createRemoteJWKSet_def auth_options_def assms(4))
  qed
  let ?k = "\<lambda>url. tryCatch (andThen (call env (HttpGet url)) (\<lambda>res.
      if \<not> truthy (js_prop res ''ok'') then fault ''ping'' (''JWKS endpoint returned HTTP '' @ js_String (js_prop res ''status'') @ '': '' @ url)
      else andThen (response_json res) (\<lambda>body. let n = length (rows_of (js_prop body ''keys'')) in
        if n = 0 then say_warn ''ping'' (''JWKS endpoint returned 0 keys '' @ em_dash @ '' tokens will fail to verify: '' @ url)
        else say_pass ''ping'' (''JWKS endpoint reachable, '' @ nat_text n @ '' key(s)'' @ took env))))
    (\<lambda>e. fault ''ping'' (''JWKS endpoint unreachable: '' @ e_message e @ '' '' @ em_dash @ '' '' @ url))"
  have "preflight_jwks env s = andThen ?m ?k s" using assms(1) by (simp only: preflight_jwks_def if_False not_True_eq_False)
  also have "\<dots> = ?k url t" by (rule andThen_Inr) (rule u(2))
  finally have run: "preflight_jwks env s = ?k url t" .
  have "dp_calls (snd (?k url t)) = dp_calls t @ [HttpGet url]"
    by (rule jwks_request)
  then show ?thesis using u(1,3) unfolding run by auto
qed

end
