(* ===== verification/Definition_Service.thy ===== *)
theory Definition_Service
  imports Instance_Service Worker_Run
begin

text \<open>
  \<open>JobDefinitionService\<close> of \<open>src/src/services/jobDefinitionService.js\<close>, its SQLite counterpart
  \<open>src/src/backends/local/localDefinitionService.js\<close> and the routes of \<open>src/src/routes/jobDefinitions.js\<close>.
  Elasticsearch and Cloud Storage are parameters: the state is the sequence of calls made, and a
  call is answered by a function of the calls before it, which covers every service.
\<close>

section \<open>The schema\<close>

text \<open>
  What the schemas of \<open>src/src/validation/jobDefinitionSchema.js\<close> demand of a parsed value. The zod
  library that applies them is a parameter; its output satisfies the schema.
\<close>

definition id_char :: "char \<Rightarrow> bool" where
  "id_char c \<longleftrightarrow> is_alpha c \<or> is_digit c \<or> c \<in> set ''_.-''"

definition text_field :: "js \<Rightarrow> string \<Rightarrow> bool" where
  "text_field v k = (case js_prop v k of JStr s \<Rightarrow> s \<noteq> [] | _ \<Rightarrow> False)"

definition int_field :: "int \<Rightarrow> int \<Rightarrow> js \<Rightarrow> bool" where
  "int_field lo hi v = (case v of JNum (Fin q) \<Rightarrow> q = of_int \<lfloor>q\<rfloor> \<and> of_int lo \<le> q \<and> q \<le> of_int hi | _ \<Rightarrow> False)"

definition jobParameterSchema :: "js \<Rightarrow> bool" where
  "jobParameterSchema v \<longleftrightarrow>
     (case js_prop v ''name'' of
        JStr (c # cs) \<Rightarrow> is_alpha c \<and> list_all (\<lambda>d. is_alpha d \<or> is_digit d \<or> d = CHR ''_'') cs
      | _ \<Rightarrow> False) \<and>
     js_prop v ''type'' \<in> {JStr ''string'', JStr ''string[]'', JStr ''sensitive''} \<and>
     js_prop v ''required'' \<in> {JBool True, JBool False}"

definition createJobDefinitionSchema :: "js \<Rightarrow> bool" where
  "createJobDefinitionSchema v \<longleftrightarrow>
     (case js_prop v ''definitionId'' of JStr s \<Rightarrow> s \<noteq> [] \<and> list_all id_char s | _ \<Rightarrow> False) \<and>
     text_field v ''name'' \<and> js_prop v ''runtime'' \<in> {JStr ''javascript'', JStr ''python''} \<and>
     text_field v ''runtimeVersion'' \<and> text_field v ''wrapperVersion'' \<and> text_field v ''entrypoint'' \<and>
     (case js_prop v ''parameters'' of JArr ps \<Rightarrow> list_all jobParameterSchema ps | _ \<Rightarrow> False) \<and>
     int_field 30 1800 (js_prop v ''timeoutSeconds'') \<and>
     (js_prop v ''memoryMb'' = JUndefined \<or> int_field 64 512 (js_prop v ''memoryMb''))"

section \<open>The service\<close>

datatype ext_call =
    EsGet string
  | EsCreate string js
  | EsIndex string js
  | EsUpdate string js
  | EsSearch nat bool
  | Save string string
  | GetMetadata string
  | DeleteObject string
  | ListInstances string

record definition_env =
  de_reply :: "ext_call list \<Rightarrow> ext_call \<Rightarrow> js_error + js"
  de_instances :: "(ext_call list \<Rightarrow> string \<Rightarrow> js_error + inst_doc list) option"
  de_parseCreate :: "js \<Rightarrow> js + js"
  de_parsePatch :: "js \<Rightarrow> js + js"
  de_sha256 :: "string \<Rightarrow> string"
  de_archive :: archive
  de_parseJson :: json_parser
  de_jobZipBucket :: string
  de_now :: instant

definition ext_request :: "definition_env \<Rightarrow> ext_call \<Rightarrow> (ext_call list, js) eff" where
  "ext_request env c = (\<lambda>hist. (de_reply env hist c, hist @ [c]))"

definition def_getDefinition :: "definition_env \<Rightarrow> string \<Rightarrow> (ext_call list, js) eff" where
  "def_getDefinition env definitionId =
     tryCatch (ext_request env (EsGet definitionId))
       (\<lambda>error. if e_meta_statusCode error = JInt 404 then ret JNull else throw error)"

text \<open>\<open>v + 1\<close> on any value.\<close>

fun plus_one :: "js \<Rightarrow> js" where
  "plus_one (JNum (Fin q)) = JNum (Fin (q + 1))"
| "plus_one (JNum x) = JNum x"
| "plus_one JNull = JInt 1"
| "plus_one (JBool b) = JInt (if b then 2 else 1)"
| "plus_one JUndefined = JNum NaN"
| "plus_one v = JStr (js_String v @ ''1'')"

definition approvedPath :: "string \<Rightarrow> string \<Rightarrow> string" where
  "approvedPath definitionId digest = ''approved/'' @ definitionId @ ''/'' @ digest @ ''/job.zip''"

text \<open>\<open>{ ...parsed, version, state, enabled, jobZip, validation, createdAt, updatedAt }\<close>.\<close>

definition definition_document :: "js \<Rightarrow> js \<Rightarrow> string \<Rightarrow> string \<Rightarrow> js \<Rightarrow> zip_info \<Rightarrow> instant \<Rightarrow> js" where
  "definition_document parsed version uri digest generation info t =
     fold (\<lambda>(k, v) d. js_set d k v)
       [(''version'', version), (''state'', JStr ''ACTIVE''), (''enabled'', JBool True),
        (''jobZip'', JObj [(''uri'', JStr uri), (''sha256'', JStr digest), (''generation'', generation)]),
        (''validation'', JObj [(''fileCount'', JInt (int (zi_fileCount info))),
           (''uncompressedBytes'', JInt (int (zi_uncompressedBytes info))), (''validatedAt'', iso t)]),
        (''createdAt'', iso t), (''updatedAt'', iso t)] parsed"

text \<open>A first version is created, a later one replaces the document.\<close>

definition write_call :: "js \<Rightarrow> string \<Rightarrow> js \<Rightarrow> ext_call" where
  "write_call existing definitionId doc = (if truthy existing then EsIndex definitionId doc else EsCreate definitionId doc)"

definition next_version :: "js \<Rightarrow> js" where
  "next_version existing = (if truthy existing then plus_one (js_prop existing ''version'') else JInt 1)"

definition deleteUploadedArtifact :: "definition_env \<Rightarrow> string \<Rightarrow> (ext_call list, unit) eff" where
  "deleteUploadedArtifact env path =
     tryCatch (andThen (ext_request env (DeleteObject path)) (\<lambda>_. ret ())) (\<lambda>_. ret ())"

text \<open>The \<open>try\<close> block of \<open>createDefinition\<close>.\<close>

definition register_definition :: "definition_env \<Rightarrow> js \<Rightarrow> js \<Rightarrow> string \<Rightarrow> string \<Rightarrow> string \<Rightarrow> zip_info \<Rightarrow> (ext_call list, js) eff" where
  "register_definition env parsed existing definitionId digest path info =
     andThen (ext_request env (GetMetadata path)) (\<lambda>metadataResult.
     if nullish metadataResult then throw (newError ''Cannot read properties of undefined (reading 'generation')'')
     else
       let doc = definition_document parsed (next_version existing) (''gs://'' @ de_jobZipBucket env @ ''/'' @ path) digest
                   (js_prop metadataResult ''generation'') info (de_now env) in
       andThen (ext_request env (write_call existing definitionId doc)) (\<lambda>_. ret doc))"

definition createDefinition :: "definition_env \<Rightarrow> js \<Rightarrow> string \<Rightarrow> (ext_call list, js) eff" where
  "createDefinition env metadata artifactBuffer =
     (case de_parseCreate env metadata of
        Inl issues \<Rightarrow> throw (zodError issues)
      | Inr parsed \<Rightarrow>
          (case validateZipBuffer (de_archive env) (de_parseJson env) artifactBuffer (js_prop parsed ''entrypoint'')
                  (js_prop parsed ''runtime'') (js_prop parsed ''wrapperVersion'') of
             Inl e \<Rightarrow> throw e
           | Inr info \<Rightarrow>
               let digest = de_sha256 env artifactBuffer; definitionId = js_String (js_prop parsed ''definitionId'');
                   path = approvedPath definitionId digest in
               andThen (def_getDefinition env definitionId) (\<lambda>existing.
               andThen (ext_request env (Save path artifactBuffer)) (\<lambda>_.
               tryCatch (register_definition env parsed existing definitionId digest path info)
                 (\<lambda>error. andThen (deleteUploadedArtifact env path) (\<lambda>_. throw error))))))"

definition listDefinitions :: "definition_env \<Rightarrow> bool \<Rightarrow> (ext_call list, js list) eff" where
  "listDefinitions env includeDeleted =
     andThen (ext_request env (EsSearch 100 includeDeleted)) (\<lambda>hits. ret (case hits of JArr xs \<Rightarrow> xs | _ \<Rightarrow> []))"

definition patchDefinition :: "definition_env \<Rightarrow> string \<Rightarrow> js \<Rightarrow> (ext_call list, js) eff" where
  "patchDefinition env definitionId patch =
     (case de_parsePatch env patch of
        Inl issues \<Rightarrow> throw (zodError issues)
      | Inr parsed \<Rightarrow>
          andThen (ext_request env (EsUpdate definitionId (js_set parsed ''updatedAt'' (iso (de_now env))))) (\<lambda>_.
          def_getDefinition env definitionId))"

definition activeInstancesError :: "string \<Rightarrow> nat \<Rightarrow> js_error" where
  "activeInstancesError definitionId n =
     (newError (''definition '' @ definitionId @ '' has '' @ nat_text n @
        '' active instance(s) referencing it; pause or delete them before deleting the definition''))
       \<lparr>e_code := JStr ''DEFINITION_HAS_ACTIVE_INSTANCES'', e_statusCode := JInt 409\<rparr>"

definition refuse_active :: "definition_env \<Rightarrow> string \<Rightarrow> (ext_call list, unit) eff" where
  "refuse_active env definitionId =
     (case de_instances env of
        None \<Rightarrow> ret ()
      | Some listInstances \<Rightarrow> (\<lambda>hist.
          (case listInstances hist definitionId of
             Inl e \<Rightarrow> (Inl e, hist @ [ListInstances definitionId])
           | Inr insts \<Rightarrow>
               let n = length (filter (\<lambda>i. in_enabled i \<and> in_state i = ACTIVE) insts) in
               (if n > 0 then Inl (activeInstancesError definitionId n) else Inr (), hist @ [ListInstances definitionId]))))"

definition deleteDefinition :: "definition_env \<Rightarrow> string \<Rightarrow> (ext_call list, js) eff" where
  "deleteDefinition env definitionId =
     andThen (refuse_active env definitionId) (\<lambda>_.
     andThen (ext_request env (EsUpdate definitionId
       (JObj [(''state'', JStr ''DELETED''), (''enabled'', JBool False), (''updatedAt'', iso (de_now env))]))) (\<lambda>_.
     def_getDefinition env definitionId))"

section \<open>The SQLite service\<close>

text \<open>Table \<open>job_definitions\<close>; \<open>data\<close> is a JSON text, kept as the value it parses to.\<close>

record def_row =
  jd_definition_id :: string
  jd_data :: js
  jd_state :: string
  jd_enabled :: int
  jd_updated_at :: instant

record local_defs =
  ld_rows :: "def_row list"
  ld_files :: "string \<Rightarrow> string option"

definition find_def :: "string \<Rightarrow> local_defs \<Rightarrow> def_row option" where
  "find_def i s = find (\<lambda>r. jd_definition_id r = i) (ld_rows s)"

definition update_def :: "string \<Rightarrow> (def_row \<Rightarrow> def_row) \<Rightarrow> local_defs \<Rightarrow> local_defs" where
  "update_def i f s = s\<lparr>ld_rows := map (\<lambda>r. if jd_definition_id r = i then f r else r) (ld_rows s)\<rparr>"

definition artifact_path :: "string \<Rightarrow> string \<Rightarrow> string \<Rightarrow> string" where
  "artifact_path dataDir definitionId digest =
     path_normalize ((if dataDir = [] then [] else dataDir @ ''/'') @ ''artifacts/approved/'' @ definitionId @ ''/'' @ digest @ ''/job.zip'')"

definition definitionExists :: js_error where
  "definitionExists = (newError ''definition already exists'')\<lparr>e_meta_statusCode := JInt 409\<rparr>"

definition definitionNotFound :: js_error where
  "definitionNotFound = (newError ''definition not found'')\<lparr>e_meta_statusCode := JInt 404\<rparr>"

definition local_createDefinition :: "definition_env \<Rightarrow> string \<Rightarrow> js \<Rightarrow> string \<Rightarrow> (local_defs, js) eff" where
  "local_createDefinition env dataDir metadata artifactBuffer =
     (case de_parseCreate env metadata of
        Inl issues \<Rightarrow> throw (zodError issues)
      | Inr parsed \<Rightarrow>
          (case validateZipBuffer (de_archive env) (de_parseJson env) artifactBuffer (js_prop parsed ''entrypoint'')
                  (js_prop parsed ''runtime'') (js_prop parsed ''wrapperVersion'') of
             Inl e \<Rightarrow> throw e
           | Inr info \<Rightarrow> (\<lambda>s.
               let i = js_String (js_prop parsed ''definitionId''); digest = de_sha256 env artifactBuffer; t = de_now env;
                   path = artifact_path dataDir i digest; s1 = s\<lparr>ld_files := (ld_files s)(path \<mapsto> artifactBuffer)\<rparr>;
                   doc = definition_document parsed (JInt 1) (''local://'' @ path) digest (JStr ''1'') info t in
               case find_def i s1 of
                 Some r \<Rightarrow>
                   if jd_state r \<noteq> ''DELETED'' then (Inl definitionExists, s1)
                   else (Inr doc, update_def i (\<lambda>r. r\<lparr>jd_data := jsonb doc, jd_state := ''ACTIVE'', jd_enabled := 1, jd_updated_at := t\<rparr>) s1)
               | None \<Rightarrow>
                   (Inr doc, s1\<lparr>ld_rows := ld_rows s1 @ [\<lparr>jd_definition_id = i, jd_data = jsonb doc, jd_state = ''ACTIVE'',
                      jd_enabled = 1, jd_updated_at = t\<rparr>]\<rparr>))))"

definition local_listDefinitions :: "bool \<Rightarrow> (local_defs, js list) eff" where
  "local_listDefinitions includeDeleted = (\<lambda>s.
     (Inr (map jd_data (sort_key (\<lambda>r. - int (jd_updated_at r))
        (filter (\<lambda>r. includeDeleted \<or> jd_state r = ''ACTIVE'') (ld_rows s)))), s))"

definition local_getDefinition :: "string \<Rightarrow> (local_defs, js) eff" where
  "local_getDefinition definitionId = (\<lambda>s. (Inr (case find_def definitionId s of Some r \<Rightarrow> jd_data r | None \<Rightarrow> JNull), s))"

text \<open>\<open>{ ...a, ...b }\<close>.\<close>

definition js_merge :: "js \<Rightarrow> js \<Rightarrow> js" where
  "js_merge a b = fold (\<lambda>(k, v) d. js_set d k v) (case b of JObj kvs \<Rightarrow> kvs | _ \<Rightarrow> []) a"

definition local_patchDefinition :: "definition_env \<Rightarrow> string \<Rightarrow> js \<Rightarrow> (local_defs, js) eff" where
  "local_patchDefinition env definitionId patch =
     (case de_parsePatch env patch of
        Inl issues \<Rightarrow> throw (zodError issues)
      | Inr parsed \<Rightarrow>
          andThen (local_getDefinition definitionId) (\<lambda>existing.
          if \<not> truthy existing then throw definitionNotFound
          else let updated = js_set (js_merge existing parsed) ''updatedAt'' (iso (de_now env)) in
            (\<lambda>s. (Inr updated, update_def definitionId (\<lambda>r. r\<lparr>jd_data := jsonb updated, jd_updated_at := de_now env\<rparr>) s))))"

definition local_deleteDefinition :: "definition_env \<Rightarrow> string \<Rightarrow> (local_defs, js) eff" where
  "local_deleteDefinition env definitionId =
     andThen (local_getDefinition definitionId) (\<lambda>existing.
     if \<not> truthy existing then throw definitionNotFound
     else let updated = js_merge existing (JObj [(''state'', JStr ''DELETED''), (''enabled'', JBool False), (''updatedAt'', iso (de_now env))]) in
       (\<lambda>s. (Inr updated, update_def definitionId
          (\<lambda>r. r\<lparr>jd_data := jsonb updated, jd_state := ''DELETED'', jd_enabled := 0, jd_updated_at := de_now env\<rparr>) s)))"

section \<open>The routes\<close>

definition def_handleError :: "js_error \<Rightarrow> 'a reply" where
  "def_handleError e =
     (if e_name e = ''SyntaxError'' then ErrorReply 400 (error_body ''invalid JSON metadata'')
      else if e_name e = ''ZodError''
      then ErrorReply 400 (JObj [(''error'', JStr ''validation failed''), (''details'', e_issues e)])
      else if e_code e = JStr ''DEFINITION_HAS_ACTIVE_INSTANCES''
      then ErrorReply 409 (JObj [(''error'', JStr (e_message e)), (''code'', e_code e)])
      else if e_meta_statusCode e = JInt 409 then ErrorReply 409 (error_body ''definition already exists'')
      else if e_meta_statusCode e = JInt 404 then ErrorReply 404 (error_body ''definition not found'')
      else ErrorReply 500 (JObj [(''error'', JStr ''internal error''), (''message'', JStr (e_message e))]))"

definition def_handler :: "nat \<Rightarrow> ('s, 'a) eff \<Rightarrow> 's \<Rightarrow> 'a reply \<times> 's" where
  "def_handler ok m s = (case m s of (Inl e, s') \<Rightarrow> (def_handleError e, s') | (Inr a, s') \<Rightarrow> (Reply ok a, s'))"

text \<open>\<open>POST /\<close>: \<open>file\<close> is the uploaded buffer, \<open>metadata\<close> the form field, a JSON text or a parsed value.\<close>

definition post_definition ::
  "json_parser \<Rightarrow> (js \<Rightarrow> string \<Rightarrow> ('s, js) eff) \<Rightarrow> string option \<Rightarrow> js \<Rightarrow> 's \<Rightarrow> js reply \<times> 's" where
  "post_definition parseJson create file metadata s =
     (case file of
        None \<Rightarrow> (ErrorReply 400 (error_body ''artifact zip is required''), s)
      | Some buffer \<Rightarrow>
          if \<not> truthy metadata then (ErrorReply 400 (error_body ''metadata field is required''), s)
          else def_handler 201
            (case metadata of
               JStr t \<Rightarrow> (case parseJson t of Inl m \<Rightarrow> throw ((newError m)\<lparr>e_name := ''SyntaxError''\<rparr>) | Inr v \<Rightarrow> create v buffer)
             | v \<Rightarrow> create v buffer) s)"

definition get_definition :: "(string \<Rightarrow> ('s, js) eff) \<Rightarrow> string \<Rightarrow> ('s, js reply) eff" where
  "get_definition get definitionId =
     andThen (get definitionId) (\<lambda>d. ret (if \<not> truthy d then ErrorReply 404 (error_body ''definition not found'') else Reply 200 d))"

definition list_definitions :: "(bool \<Rightarrow> ('s, js list) eff) \<Rightarrow> js \<Rightarrow> ('s, js reply) eff" where
  "list_definitions lister includeDeleted =
     andThen (lister (includeDeleted = JStr ''true'')) (\<lambda>ds. ret (Reply 200 (JObj [(''items'', JArr ds)])))"

section \<open>Lemmas\<close>

lemma lookup_effect:
  "def_getDefinition env i hist = (case de_reply env hist (EsGet i) of
     Inr v \<Rightarrow> Inr v | Inl e \<Rightarrow> if e_meta_statusCode e = JInt 404 then Inr JNull else Inl e, hist @ [EsGet i])"
  by (simp add: def_getDefinition_def tryCatch_def ext_request_def split: sum.split)

lemma cleanup_effect: "deleteUploadedArtifact env p hist = (Inr (), hist @ [DeleteObject p])"
  by (simp add: deleteUploadedArtifact_def tryCatch_def andThen_def ext_request_def split: sum.split)

lemma register_effect:
  assumes "register_definition env parsed existing i digest p info l = (r, l')"
  shows "case r of
     Inl e \<Rightarrow> \<exists>w. l' = l @ [GetMetadata p] @ w \<and> length w \<le> 1
   | Inr doc \<Rightarrow> \<exists>md. de_reply env l (GetMetadata p) = Inr md \<and> l' = l @ [GetMetadata p, write_call existing i doc] \<and>
       doc = definition_document parsed (next_version existing) (''gs://'' @ de_jobZipBucket env @ ''/'' @ p) digest
         (js_prop md ''generation'') info (de_now env)"
proof (cases "de_reply env l (GetMetadata p)")
  case (Inl e)
  then have "r = Inl e" "l' = l @ [GetMetadata p]"
    using assms by (simp_all add: register_definition_def andThen_def ext_request_def)
  then show ?thesis by simp
next
  case (Inr md)
  show ?thesis
  proof (cases "nullish md")
    case True
    then show ?thesis using assms Inr by (auto simp: register_definition_def andThen_def ext_request_def)
  next
    case False
    define doc where "doc = definition_document parsed (next_version existing) (''gs://'' @ de_jobZipBucket env @ ''/'' @ p) digest
      (js_prop md ''generation'') info (de_now env)"
    have m: "ext_request env (GetMetadata p) l = (Inr md, l @ [GetMetadata p])" by (simp add: ext_request_def Inr)
    have "andThen (ext_request env (write_call existing i doc)) (\<lambda>_. ret doc) (l @ [GetMetadata p]) = (r, l')"
      using assms False by (simp only: register_definition_def andThen_Inr [where m = "ext_request env (GetMetadata p)", OF m] if_False Let_def doc_def)
    then show ?thesis using Inr by (auto simp: andThen_def ext_request_def split: sum.splits) (simp add: doc_def)
  qed
qed

lemma createDefinition_cases:
  assumes "createDefinition env metadata b hist = (r, hist')"
  obtains (rejected) e where "r = Inl e" "hist' = hist"
        | (accepted) parsed info i where "de_parseCreate env metadata = Inr parsed" "i = js_String (js_prop parsed ''definitionId'')"
            "validateZipBuffer (de_archive env) (de_parseJson env) b (js_prop parsed ''entrypoint'') (js_prop parsed ''runtime'')
               (js_prop parsed ''wrapperVersion'') = Inr info"
            "andThen (def_getDefinition env i) (\<lambda>existing.
               andThen (ext_request env (Save (approvedPath i (de_sha256 env b)) b)) (\<lambda>_.
               tryCatch (register_definition env parsed existing i (de_sha256 env b) (approvedPath i (de_sha256 env b)) info)
                 (\<lambda>error. andThen (deleteUploadedArtifact env (approvedPath i (de_sha256 env b))) (\<lambda>_. throw error)))) hist = (r, hist')"
  using assms by (auto simp: createDefinition_def Let_def split: sum.splits)

text \<open>What an upload that returns a document has done.\<close>

lemma createDefinition_returns:
  assumes "createDefinition env metadata b hist = (Inr doc, hist')"
  obtains parsed info i existing md l where "de_parseCreate env metadata = Inr parsed" "i = js_String (js_prop parsed ''definitionId'')"
    "validateZipBuffer (de_archive env) (de_parseJson env) b (js_prop parsed ''entrypoint'') (js_prop parsed ''runtime'')
       (js_prop parsed ''wrapperVersion'') = Inr info"
    "fst (def_getDefinition env i hist) = Inr existing"
    "de_reply env l (GetMetadata (approvedPath i (de_sha256 env b))) = Inr md"
    "doc = definition_document parsed (next_version existing) (''gs://'' @ de_jobZipBucket env @ ''/'' @ approvedPath i (de_sha256 env b))
       (de_sha256 env b) (js_prop md ''generation'') info (de_now env)"
    "hist' = hist @ [EsGet i, Save (approvedPath i (de_sha256 env b)) b, GetMetadata (approvedPath i (de_sha256 env b)), write_call existing i doc]"
  using assms
proof (cases rule: createDefinition_cases)
  case (accepted parsed info i)
  let ?p = "approvedPath i (de_sha256 env b)"
  from accepted(4) obtain existing where g: "def_getDefinition env i hist = (Inr existing, hist @ [EsGet i])"
    and rest: "andThen (ext_request env (Save ?p b)) (\<lambda>_. tryCatch (register_definition env parsed existing i (de_sha256 env b) ?p info)
        (\<lambda>error. andThen (deleteUploadedArtifact env ?p) (\<lambda>_. throw error))) (hist @ [EsGet i]) = (Inr doc, hist')"
    by (rule andThen_cases) (auto simp: lookup_effect)
  from rest have "tryCatch (register_definition env parsed existing i (de_sha256 env b) ?p info)
      (\<lambda>error. andThen (deleteUploadedArtifact env ?p) (\<lambda>_. throw error)) (hist @ [EsGet i, Save ?p b]) = (Inr doc, hist')"
    by (rule andThen_cases) (auto simp: ext_request_def)
  then have "register_definition env parsed existing i (de_sha256 env b) ?p info (hist @ [EsGet i, Save ?p b]) = (Inr doc, hist')"
    by (rule tryCatch_cases) (auto simp: andThen_def cleanup_effect)
  from register_effect [OF this] obtain md where
    "de_reply env (hist @ [EsGet i, Save ?p b]) (GetMetadata ?p) = Inr md"
    "hist' = (hist @ [EsGet i, Save ?p b]) @ [GetMetadata ?p, write_call existing i doc]"
    "doc = definition_document parsed (next_version existing) (''gs://'' @ de_jobZipBucket env @ ''/'' @ ?p)
       (de_sha256 env b) (js_prop md ''generation'') info (de_now env)" by auto
  then show ?thesis using that [OF accepted(1,2,3)] g by auto
qed simp

lemma createDefinition_throws:
  assumes "createDefinition env metadata b hist = (Inl e, hist')"
  shows "hist' = hist \<or> (\<exists>i. hist' = hist @ [EsGet i]) \<or> (\<exists>i p. hist' = hist @ [EsGet i, Save p b]) \<or>
    (\<exists>i p w. hist' = hist @ [EsGet i, Save p b, GetMetadata p] @ w @ [DeleteObject p] \<and> length w \<le> 1)"
  using assms
proof (cases rule: createDefinition_cases)
  case (accepted parsed info i)
  let ?p = "approvedPath i (de_sha256 env b)"
  from accepted(4) show ?thesis
  proof (cases rule: andThen_cases)
    case (returns existing s1)
    then have s1: "s1 = hist @ [EsGet i]" by (simp add: lookup_effect)
    from returns(2) show ?thesis
    proof (cases rule: andThen_cases)
      case (returns u s2)
      then have s2: "s2 = hist @ [EsGet i, Save ?p b]" by (simp add: ext_request_def s1)
      from returns(2) show ?thesis
      proof (cases rule: tryCatch_cases)
        case (throws x l)
        then have "hist' = l @ [DeleteObject ?p]" by (simp add: andThen_def cleanup_effect)
        then show ?thesis using register_effect [OF throws(1)] s2 by auto
      qed simp
    qed (auto simp: ext_request_def s1)
  qed (auto simp: lookup_effect)
qed simp

section \<open>Reading an upload back\<close>

text \<open>What the calls made so far have left in the bucket and in the index, had each of them succeeded.\<close>

definition object_after :: "ext_call list \<Rightarrow> string \<Rightarrow> string option" where
  "object_after hist = fold (\<lambda>c m. case c of Save p b \<Rightarrow> m(p \<mapsto> b) | DeleteObject p \<Rightarrow> m(p := None) | _ \<Rightarrow> m) hist Map.empty"

definition document_after :: "ext_call list \<Rightarrow> string \<Rightarrow> js option" where
  "document_after hist = fold (\<lambda>c m. case c of
       EsCreate i d \<Rightarrow> m(i \<mapsto> d) | EsIndex i d \<Rightarrow> m(i \<mapsto> d)
     | EsUpdate i p \<Rightarrow> m(i := map_option (\<lambda>d. js_merge d p) (m i)) | _ \<Rightarrow> m) hist Map.empty"

text \<open>A worker that shares the digest, the ZIP reader and the services with the definition service.\<close>

definition reads_uploads :: "definition_env \<Rightarrow> ext_call list \<Rightarrow> 'db worker_env \<Rightarrow> bool" where
  "reads_uploads env hist wenv \<longleftrightarrow>
     we_sha256 wenv = de_sha256 env \<and> we_archive wenv = de_archive env \<and> we_parseJson wenv = de_parseJson env \<and>
     (\<forall>i d. document_after hist i = Some d \<longrightarrow> we_esGet wenv i = Inr d) \<and>
     (\<forall>p b g. object_after hist p = Some b \<longrightarrow> we_download wenv (de_jobZipBucket env) p g = Inr b)"

lemma takeWhile_sep: "c \<notin> set xs \<Longrightarrow> takeWhile (\<lambda>x. x \<noteq> c) (xs @ c # ys) = xs"
  by (induction xs) auto

lemma parseGcsUri_path:
  assumes "bucket \<noteq> []" "CHR ''/'' \<notin> set bucket" "path \<noteq> []"
  shows "parseGcsUri (JStr (''gs://'' @ bucket @ ''/'' @ path)) = Inr (bucket, path)"
  using assms takeWhile_sep [of "CHR ''/''" bucket path] by (simp add: parseGcsUri_def Let_def)

lemma document_fields:
  defines "kept \<equiv> \<lambda>k. k \<notin> {''version'', ''state'', ''enabled'', ''jobZip'', ''validation'', ''createdAt'', ''updatedAt''}"
  shows "js_prop (definition_document parsed v uri dg g info t) ''version'' = v"
    "js_prop (definition_document parsed v uri dg g info t) ''state'' = JStr ''ACTIVE''"
    "js_prop (definition_document parsed v uri dg g info t) ''enabled'' = JBool True"
    "js_prop (definition_document parsed v uri dg g info t) ''jobZip'' =
       JObj [(''uri'', JStr uri), (''sha256'', JStr dg), (''generation'', g)]"
    "kept k \<Longrightarrow> js_prop (definition_document parsed v uri dg g info t) k = js_prop parsed k"
    "truthy (definition_document parsed v uri dg g info t)"
proof -
  have "truthy (js_set d k w)" for d k w by (cases d) auto
  then show "truthy (definition_document parsed v uri dg g info t)" by (simp add: definition_document_def)
qed (auto simp: definition_document_def js_prop_set kept_def)

section \<open>Sample data\<close>

definition sample_metadata_js :: js where
  "sample_metadata_js = JObj [(''definitionId'', JStr ''def''), (''name'', JStr ''Job''), (''runtime'', JStr ''javascript''),
     (''runtimeVersion'', JStr ''20''), (''wrapperVersion'', JStr ''1''), (''entrypoint'', JStr ''job.js''),
     (''parameters'', JArr []), (''timeoutSeconds'', JInt 60)]"

definition sample_definition_env :: "bool \<Rightarrow> definition_env" where
  "sample_definition_env up = \<lparr>de_reply = (\<lambda>h c. case c of
       GetMetadata p \<Rightarrow> Inr (JObj [(''generation'', JStr ''7'')])
     | EsGet i \<Rightarrow> (case document_after h i of Some d \<Rightarrow> Inr d | None \<Rightarrow> Inl ((newError ''not found'')\<lparr>e_meta_statusCode := JInt 404\<rparr>))
     | EsIndex i d \<Rightarrow> if up then Inr JNull else Inl (newError ''unavailable'')
     | _ \<Rightarrow> Inr JNull),
     de_instances = None, de_parseCreate = (\<lambda>m. if createJobDefinitionSchema m then Inr m else Inl JNull), de_parsePatch = Inr,
     de_sha256 = (\<lambda>_. ''h''), de_archive = sample_archive, de_parseJson = sample_parse, de_jobZipBucket = ''b'', de_now = 0\<rparr>"

lemma sample_upload:
  "\<exists>info. createDefinition (sample_definition_env up) sample_metadata_js ''good'' [] =
     (let d = definition_document sample_metadata_js (JInt 1) ''gs://b/approved/def/h/job.zip'' ''h'' (JStr ''7'') info 0 in
      (Inr d, [EsGet ''def'', Save ''approved/def/h/job.zip'' ''good'', GetMetadata ''approved/def/h/job.zip'', EsCreate ''def'' d]))"
proof -
  have schema: "createJobDefinitionSchema sample_metadata_js"
    by (simp add: createJobDefinitionSchema_def sample_metadata_js_def text_field_def int_field_def id_char_def is_alpha_def is_digit_def)
  obtain info where "validateZipBuffer sample_archive sample_parse ''good'' (JStr ''job.js'') (JStr ''javascript'') (JStr ''1'') = Inr info"
    using sample_zip_valid(2) by blast
  then have "createDefinition (sample_definition_env up) sample_metadata_js ''good'' [] =
     (let d = definition_document sample_metadata_js (JInt 1) ''gs://b/approved/def/h/job.zip'' ''h'' (JStr ''7'') info 0 in
      (Inr d, [EsGet ''def'', Save ''approved/def/h/job.zip'' ''good'', GetMetadata ''approved/def/h/job.zip'', EsCreate ''def'' d]))"
    using schema by (simp add: createDefinition_def sample_definition_env_def sample_metadata_js_def andThen_def tryCatch_def
        def_getDefinition_def ext_request_def register_definition_def approvedPath_def document_after_def next_version_def write_call_def Let_def)
  then show ?thesis by blast
qed

text \<open>
  A failed upload of a new version with the bytes of the live one removes the artifact the live document
  names: the two share a path, and the cleanup does not tell them apart.
\<close>

lemma failed_reupload_removes_live_artifact:
  "\<exists>d hist e hist'. createDefinition (sample_definition_env True) sample_metadata_js ''good'' [] = (Inr d, hist) \<and>
     createDefinition (sample_definition_env False) sample_metadata_js ''good'' hist = (Inl e, hist') \<and>
     js_prop (js_prop d ''jobZip'') ''uri'' = JStr ''gs://b/approved/def/h/job.zip'' \<and>
     object_after hist ''approved/def/h/job.zip'' = Some ''good'' \<and> object_after hist' ''approved/def/h/job.zip'' = None"
proof -
  obtain info d hist where d: "d = definition_document sample_metadata_js (JInt 1) ''gs://b/approved/def/h/job.zip'' ''h'' (JStr ''7'') info 0"
    and hist: "hist = [EsGet ''def'', Save ''approved/def/h/job.zip'' ''good'', GetMetadata ''approved/def/h/job.zip'', EsCreate ''def'' d]"
    and first: "createDefinition (sample_definition_env True) sample_metadata_js ''good'' [] = (Inr d, hist)"
    using sample_upload [of True] by (auto simp: Let_def)
  obtain info' where zip: "validateZipBuffer sample_archive sample_parse ''good'' (JStr ''job.js'') (JStr ''javascript'') (JStr ''1'') = Inr info'"
    using sample_zip_valid(2) by blast
  have schema: "createJobDefinitionSchema sample_metadata_js"
    by (simp add: createJobDefinitionSchema_def sample_metadata_js_def text_field_def int_field_def id_char_def is_alpha_def is_digit_def)
  obtain e hist' where second: "createDefinition (sample_definition_env False) sample_metadata_js ''good'' hist = (Inl e, hist')"
    and del: "\<exists>pre. hist' = pre @ [DeleteObject ''approved/def/h/job.zip'']"
    using schema zip document_fields(6) [of sample_metadata_js] d
    by (simp add: createDefinition_def sample_definition_env_def sample_metadata_js_def andThen_def tryCatch_def hist
        def_getDefinition_def ext_request_def register_definition_def deleteUploadedArtifact_def approvedPath_def document_after_def
        next_version_def write_call_def Let_def)
  have "object_after hist' ''approved/def/h/job.zip'' = None" using del by (auto simp: object_after_def)
  moreover have "object_after hist ''approved/def/h/job.zip'' = Some ''good''" by (simp add: hist object_after_def)
  moreover have "js_prop (js_prop d ''jobZip'') ''uri'' = JStr ''gs://b/approved/def/h/job.zip''" by (simp add: d document_fields(4))
  ultimately show ?thesis using first second by blast
qed

text \<open>An identifier of two dots passes the schema and leaves the directory of approved artifacts.\<close>

lemma local_artifact_escapes:
  "list_all id_char ''..'' \<and> artifact_path ''data'' ''..'' ''h'' = ''data/artifacts/h/job.zip''"
  by (simp add: id_char_def artifact_path_def path_eval)

text \<open>The SQLite service starts over at version 1 where the production service counts on.\<close>

lemma local_version_restarts:
  assumes "local_createDefinition env dir metadata b s = (Inr doc, s')"
  shows "js_prop doc ''version'' = JInt 1"
  using assms by (auto simp: local_createDefinition_def Let_def document_fields split: sum.splits option.splits if_splits)

section \<open>Properties\<close>

text \<open>
  What an upload does to the services. A refused upload makes no call; one that fails later stops
  after the lookup or after the failed save, or deletes the object it saved as its last call. An upload
  that returns has looked the definition up, saved exactly the uploaded bytes under the path of their digest,
  and written, once, the document it returns, whose version follows the one it found.
\<close>

lemma createDefinition_calls:
  assumes "createDefinition env metadata b hist = (r, hist')"
  shows "case r of
     Inl e \<Rightarrow> hist' = hist \<or> (\<exists>i. hist' = hist @ [EsGet i]) \<or> (\<exists>i p. hist' = hist @ [EsGet i, Save p b]) \<or>
       (\<exists>i p w. hist' = hist @ [EsGet i, Save p b, GetMetadata p] @ w @ [DeleteObject p] \<and> length w \<le> 1)
   | Inr doc \<Rightarrow> \<exists>i existing p. p = approvedPath i (de_sha256 env b) \<and> fst (def_getDefinition env i hist) = Inr existing \<and>
       js_prop doc ''version'' = next_version existing \<and> js_prop (js_prop doc ''jobZip'') ''sha256'' = JStr (de_sha256 env b) \<and>
       hist' = hist @ [EsGet i, Save p b, GetMetadata p, write_call existing i doc]"
proof (cases r)
  case (Inl e)
  then show ?thesis using createDefinition_throws assms by auto
next
  case (Inr doc)
  with assms obtain i existing parsed info md where "fst (def_getDefinition env i hist) = Inr existing"
    "doc = definition_document parsed (next_version existing) (''gs://'' @ de_jobZipBucket env @ ''/'' @ approvedPath i (de_sha256 env b))
       (de_sha256 env b) (js_prop md ''generation'') info (de_now env)"
    "hist' = hist @ [EsGet i, Save (approvedPath i (de_sha256 env b)) b, GetMetadata (approvedPath i (de_sha256 env b)), write_call existing i doc]"
    by (auto elim: createDefinition_returns)
  then show ?thesis unfolding Inr by (auto simp: document_fields)
qed

text \<open>
  C14. An uploaded definition can be executed. After an upload that returned a document, a worker that
  reads the index and the bucket the upload wrote loads the definition for a run of that version, accepts
  its artifact, and hands the executor the very bytes that were uploaded. Bucket names are not empty
  and hold no slash; the digest and the generation of a stored object are not empty.
\<close>

theorem uploaded_definition_executes:
  assumes "createDefinition env metadata b hist = (Inr doc, hist')"
    and "\<forall>m p. de_parseCreate env m = Inr p \<longrightarrow> createJobDefinitionSchema p"
    and "de_jobZipBucket env \<noteq> []" and "CHR ''/'' \<notin> set (de_jobZipBucket env)" and "de_sha256 env b \<noteq> []"
    and "\<forall>h p md. de_reply env h (GetMetadata p) = Inr md \<longrightarrow> text_field md ''generation''"
    and "reads_uploads env hist' wenv"
    and "rn_executionMetadata run = JNull" and "JStr (rn_definitionId run) = js_prop doc ''definitionId''"
    and "js_version (rn_definitionVersion run) = js_prop doc ''version''"
  shows "\<exists>x v. buildExecutionMetadata wenv run = Inr x \<and> verifyApprovedArtifact wenv x = Inr v \<and> ve_buffer v = b"
proof -
  obtain parsed info i existing md l p where parsed: "de_parseCreate env metadata = Inr parsed" "i = js_String (js_prop parsed ''definitionId'')"
    and zip: "validateZipBuffer (de_archive env) (de_parseJson env) b (js_prop parsed ''entrypoint'') (js_prop parsed ''runtime'')
       (js_prop parsed ''wrapperVersion'') = Inr info"
    and md: "de_reply env l (GetMetadata p) = Inr md" and p: "p = approvedPath i (de_sha256 env b)"
    and doc: "doc = definition_document parsed (next_version existing) (''gs://'' @ de_jobZipBucket env @ ''/'' @ p)
       (de_sha256 env b) (js_prop md ''generation'') info (de_now env)"
    and hist': "hist' = hist @ [EsGet i, Save p b, GetMetadata p, write_call existing i doc]"
    using createDefinition_returns [OF assms(1)] by metis
  note f = document_fields [where parsed = parsed and v = "next_version existing" and uri = "''gs://'' @ de_jobZipBucket env @ ''/'' @ p"
      and dg = "de_sha256 env b" and g = "js_prop md ''generation''" and info = info and t = "de_now env", folded doc]
  obtain g where g: "js_prop md ''generation'' = JStr g" "g \<noteq> []"
    using assms(6) [rule_format, OF md] by (auto simp: text_field_def split: js.splits)
  obtain n where n: "js_prop parsed ''definitionId'' = JStr n" "n \<noteq> []"
    using assms(2) [rule_format, OF parsed(1)] by (auto simp: createJobDefinitionSchema_def split: js.splits)
  have id: "rn_definitionId run = i" "i \<noteq> []" using assms(9) n parsed(2) f(5) [of "''definitionId''"] by simp_all
  have "document_after hist' i = Some doc" by (simp add: document_after_def hist' write_call_def)
  then have es: "getDefinition wenv (rn_definitionId run) = Inr doc" using assms(7) id by (simp add: reads_uploads_def getDefinition_def)
  have obj: "we_download wenv (de_jobZipBucket env) p g' = Inr b" for g'
    using assms(7) by (simp add: reads_uploads_def object_after_def hist' write_call_def)
  define x where "x = \<lparr>xe_definition = JObj (map (\<lambda>k. (k, js_prop doc k)) definition_fields),
     xe_artifact = JObj [(''uri'', JStr (''gs://'' @ de_jobZipBucket env @ ''/'' @ p)), (''sha256'', JStr (de_sha256 env b)), (''generation'', JStr g)]\<rparr>"
  have build: "buildExecutionMetadata wenv run = Inr x"
    using es id assms(5,8,10) f g by (simp add: buildExecutionMetadata_def metadata_checks_def missingArtifact_def x_def Let_def)
  have uri: "parseGcsUri (JStr (''gs://'' @ de_jobZipBucket env @ ''/'' @ p)) = Inr (de_jobZipBucket env, p)"
    by (rule parseGcsUri_path [OF assms(3,4)]) (simp add: p approvedPath_def)
  have defs: "js_prop (xe_definition x) ''entrypoint'' = js_prop parsed ''entrypoint''" "js_prop (xe_definition x) ''runtime'' = js_prop parsed ''runtime''"
    "js_prop (xe_definition x) ''wrapperVersion'' = js_prop parsed ''wrapperVersion''"
    "js_prop (xe_artifact x) ''uri'' = JStr (''gs://'' @ de_jobZipBucket env @ ''/'' @ p)"
    "js_prop (xe_artifact x) ''sha256'' = JStr (de_sha256 env b)"
    by (simp_all add: x_def definition_fields_def f)
  have "\<exists>v. verifyApprovedArtifact wenv x = Inr v \<and> ve_buffer v = b"
    using assms(7) zip obj by (simp add: verifyApprovedArtifact_def defs uri reads_uploads_def Let_def del: append_Cons append.simps)
  with build show ?thesis by blast
qed

theorem uploaded_definition_executes_witness:
  "\<exists>doc hist' x v. createDefinition (sample_definition_env True) sample_metadata_js ''good'' [] = (Inr doc, hist') \<and>
     verifyApprovedArtifact (sample_env\<lparr>we_esGet := (\<lambda>_. Inr doc)\<rparr>) x = Inr v \<and> ve_buffer v = ''good''"
proof -
  let ?env = "sample_definition_env True"
  obtain doc hist' info where c: "createDefinition ?env sample_metadata_js ''good'' [] = (Inr doc, hist')"
    and doc: "doc = definition_document sample_metadata_js (JInt 1) ''gs://b/approved/def/h/job.zip'' ''h'' (JStr ''7'') info 0"
    and hist': "hist' = [EsGet ''def'', Save ''approved/def/h/job.zip'' ''good'', GetMetadata ''approved/def/h/job.zip'', EsCreate ''def'' doc]"
    using sample_upload [of True] by (auto simp: Let_def)
  let ?wenv = "sample_env\<lparr>we_esGet := (\<lambda>_. Inr doc)\<rparr>"
  let ?run = "(rowToDocument (blank_run ''a'' 2 RUNNING (Some ''new'')))"
  have r: "reads_uploads ?env hist' ?wenv"
    by (auto simp: reads_uploads_def sample_env_def sample_definition_env_def hist' document_after_def object_after_def split: if_splits)
  have "\<forall>m p. de_parseCreate ?env m = Inr p \<longrightarrow> createJobDefinitionSchema p" "de_jobZipBucket ?env \<noteq> []"
    "CHR ''/'' \<notin> set (de_jobZipBucket ?env)" "de_sha256 ?env ''good'' \<noteq> []"
    "\<forall>h p md. de_reply ?env h (GetMetadata p) = Inr md \<longrightarrow> text_field md ''generation''"
    "rn_executionMetadata ?run = JNull" "JStr (rn_definitionId ?run) = js_prop doc ''definitionId''"
    "js_version (rn_definitionVersion ?run) = js_prop doc ''version''"
    by (auto simp: sample_definition_env_def text_field_def rowToDocument_def blank_run_def doc document_fields js_version_def sample_metadata_js_def)
  from uploaded_definition_executes [OF c this(1-5) r this(6-8)] c show ?thesis by blast
qed

end
