(* ===== verification/Local_Worker.thy ===== *)
theory Local_Worker
  imports Definition_Service
begin

text \<open>
  The worker of the local mode, \<open>LocalWorkerRunService\<close> of \<open>src/src/backends/local/localWorkerRunService.js\<close>: the methods of
  \<open>Worker_Run\<close> it inherits, with the four it overrides in their place, over the SQLite definitions and the artifact files of
  \<open>Definition_Service\<close>; and the stand-in for Elasticsearch that \<open>src/src/app.local.js\<close> gives the instance service.
\<close>

section \<open>The overridden methods\<close>

text \<open>
  \<open>lw_base\<close> holds the collaborators of the inherited code, \<open>lw_defs\<close> the definitions and files a run finds, \<open>lw_vars\<close> the environment.
  \<open>lw_readError\<close> is the message of a failed \<open>readFileSync\<close>, \<open>lw_insertFails\<close> says which audit rows the database refuses.
\<close>

record 'db local_worker_env =
  lw_base :: "'db worker_env"
  lw_defs :: local_defs
  lw_vars :: "string \<Rightarrow> string option"
  lw_readError :: "string \<Rightarrow> string"
  lw_insertFails :: "js \<Rightarrow> bool"

text \<open>
  What the inherited code sees: \<open>getDefinition\<close> asks the SQLite service, the storage of the constructor refuses every download,
  there is no launcher, and an audit event is a row of \<open>audit_events\<close>, kept as its \<open>data\<close>; a refused row is ignored.
\<close>

definition noopDownload :: "string \<Rightarrow> string \<Rightarrow> string \<Rightarrow> js_error + string" where
  "noopDownload bucket object generation = Inl (newError (''local mode '' @ em_dash @ '' no GCS''))"

definition local_base :: "'db local_worker_env \<Rightarrow> 'db worker_env" where
  "local_base L = (lw_base L)\<lparr>we_esGet := (\<lambda>i. fst (local_getDefinition i (lw_defs L))), we_download := noopDownload,
     we_launcher := None, we_isolated := False, we_auditEnabled := True, we_auditFails := lw_insertFails L\<rparr>"

definition local_buildRuntimeContext :: "'db local_worker_env \<Rightarrow> run_doc \<Rightarrow> execution \<Rightarrow> js \<Rightarrow> js" where
  "local_buildRuntimeContext L run x params =
     (let base = buildRuntimeContext run x params;
          text = (\<lambda>n. case lw_vars L n of Some v \<Rightarrow> JStr v | None \<Rightarrow> JUndefined);
          igaDirect = JObj [(''baseUrl'', text ''IGA_BASE_URL''), (''tokenEndpoint'', text ''IGA_TOKEN_ENDPOINT''),
            (''clientId'', text ''IGA_CLIENT_ID''), (''clientSecret'', text ''IGA_CLIENT_SECRET'')] in
      if truthy_str (lw_vars L ''IGA_BASE_URL'') \<and> truthy_str (lw_vars L ''IGA_CLIENT_ID'') \<and> truthy_str (lw_vars L ''IGA_CLIENT_SECRET'')
      then js_set base ''igaDirect'' igaDirect else base)"

definition local_verifyApprovedArtifact :: "'db local_worker_env \<Rightarrow> execution \<Rightarrow> js_error + verification" where
  "local_verifyApprovedArtifact L x =
     (case js_prop (xe_artifact x) ''uri'' of
        JStr uri \<Rightarrow>
          if \<not> startsWith uri ''local://''
          then Inl (executionMetadataError ''ARTIFACT_URI_INVALID'' (''expected local:// URI, got: '' @ uri) JUndefined)
          else let filePath = drop 8 uri in
            (case ld_files (lw_defs L) filePath of
               None \<Rightarrow> Inl (executionMetadataError ''ARTIFACT_DOWNLOAD_FAILED''
                              (''local artifact read failed for '' @ filePath @ '': '' @ lw_readError L filePath) JUndefined)
             | Some buffer \<Rightarrow>
                 if JStr (we_sha256 (lw_base L) buffer) \<noteq> js_prop (xe_artifact x) ''sha256''
                 then Inl (executionMetadataError ''ARTIFACT_SHA256_MISMATCH'' (''local artifact sha256 mismatch for '' @ filePath) JUndefined)
                 else case validateZipBuffer (we_archive (lw_base L)) (we_parseJson (lw_base L)) buffer
                             (js_prop (xe_definition x) ''entrypoint'') (js_prop (xe_definition x) ''runtime'')
                             (js_prop (xe_definition x) ''wrapperVersion'') of
                        Inl e \<Rightarrow> Inl (executionMetadataError ''ARTIFACT_ZIP_INVALID'' (e_message e) (JBool False))
                      | Inr info \<Rightarrow> Inr \<lparr>ve_sha256 = we_sha256 (lw_base L) buffer, ve_generation = js_prop (xe_artifact x) ''generation'',
                           ve_fileCount = zi_fileCount info, ve_uncompressedBytes = zi_uncompressedBytes info, ve_buffer = buffer\<rparr>)
      | _ \<Rightarrow> Inl (newError ''uri.startsWith is not a function''))"

section \<open>The inherited run\<close>

text \<open>\<open>_runClaimedLocally\<close>, \<open>_executeRunLocally\<close> and \<open>executeRun\<close> with the overridden methods.\<close>

definition local_run_pipeline :: "'db local_worker_env \<Rightarrow> run_doc \<Rightarrow> instant \<Rightarrow> ('db worker, js) eff" where
  "local_run_pipeline L run startedAt =
     (let env = local_base L in
     andThen (outcome (buildExecutionMetadata env run)) (\<lambda>x.
     andThen (audit env ''worker.metadata.loaded'' ''loaded'' (rn_runId run)
       (run_extra run x startedAt (JObj (runtime_info x)))) (\<lambda>_.
     andThen (outcome (local_verifyApprovedArtifact L x)) (\<lambda>v.
     andThen (audit env ''worker.artifact.verified'' ''verified'' (rn_runId run)
       (run_extra run x startedAt (JObj [(''artifact'', artifact_details x v)]))) (\<lambda>_.
     andThen (audit env ''worker.execution.started'' ''started'' (rn_runId run)
       (run_extra run x startedAt (JObj []))) (\<lambda>_.
     andThen (outcome (we_resolveParameters env (js_or (rn_params run) (JObj [])))) (\<lambda>params.
     andThen (outcome (we_execute env run x (ve_buffer v) (local_buildRuntimeContext L run x params))) (\<lambda>res.
     finish_run env run x v startedAt res))))))))"

definition local_runClaimedLocally :: "'db local_worker_env \<Rightarrow> run_doc \<Rightarrow> instant \<Rightarrow> ('db worker, js) eff" where
  "local_runClaimedLocally L run startedAt =
     tryCatch (local_run_pipeline L run startedAt) (fail_run (local_base L) (rn_runId run) run startedAt)"

definition local_executeRunLocallyInternal :: "'db local_worker_env \<Rightarrow> string \<Rightarrow> ('db worker, js) eff" where
  "local_executeRunLocallyInternal L runId =
     andThen (claimQueuedRun (local_base L) runId) (\<lambda>claim. case claim of
       Inl st \<Rightarrow> ret (skippedResult runId (str_or st ''UNKNOWN''))
     | Inr (run, startedAt) \<Rightarrow> local_runClaimedLocally L run startedAt)"

definition local_executeRun :: "'db local_worker_env \<Rightarrow> string \<Rightarrow> ('db worker, js) eff" where
  "local_executeRun L runId = (\<lambda>w.
     if wk_localRunning w \<ge> we_maxLocalConcurrency (lw_base L)
     then (Inl (executionMetadataError ''WORKER_LOCAL_CONCURRENCY_EXCEEDED''
                  ''local worker concurrency limit exceeded'' (JBool True)), w)
     else let (r, w') = local_executeRunLocallyInternal L runId (w\<lparr>wk_localRunning := wk_localRunning w + 1\<rparr>)
          in (r, w'\<lparr>wk_localRunning := wk_localRunning w' - 1\<rparr>))"

text \<open>The \<open>localEsShim\<close> of \<open>app.local.js\<close>: \<open>esClient.get\<close> over the SQLite service.\<close>

definition localEsShim :: "local_defs \<Rightarrow> string \<Rightarrow> js_error + js" where
  "localEsShim defs i =
     (case fst (local_getDefinition i defs) of
        Inl e \<Rightarrow> Inl e
      | Inr d \<Rightarrow> if truthy d then Inr d else Inl ((newError ''not found'')\<lparr>e_meta_statusCode := JInt 404\<rparr>))"

section \<open>Lemmas\<close>

text \<open>A stored document has the fields of the document that was stored.\<close>

definition distinct_keys :: "js \<Rightarrow> bool" where
  "distinct_keys v = (case v of JObj kvs \<Rightarrow> distinct (map fst kvs) | _ \<Rightarrow> False)"

lemma distinct_keys_set: "distinct_keys v \<Longrightarrow> distinct_keys (js_set v k w)"
  by (cases v) (simp_all add: distinct_keys_def distinct_update)

lemma distinct_keys_document: "distinct_keys parsed \<Longrightarrow> distinct_keys (definition_document parsed v uri dg g info t)"
  by (simp add: definition_document_def distinct_keys_set)

lemma stored_prop: "distinct_keys d \<Longrightarrow> js_prop (jsonb d) k = jsonb (js_prop d k)"
  by (cases d) (simp_all only: distinct_keys_def js.case js_prop_jsonb simp_thms)

lemma stored_truthy: "distinct_keys d \<Longrightarrow> truthy (jsonb d)"
  by (cases d) (simp_all add: distinct_keys_def)

lemma find_def_update: "find_def i s = Some r \<Longrightarrow> (\<And>r. jd_definition_id (f r) = jd_definition_id r) \<Longrightarrow> find_def i (update_def i f s) = Some (f r)"
proof -
  have "find (\<lambda>r. jd_definition_id r = i) rows = Some r \<Longrightarrow> (\<And>r. jd_definition_id (f r) = jd_definition_id r) \<Longrightarrow>
    find (\<lambda>r. jd_definition_id r = i) (map (\<lambda>r. if jd_definition_id r = i then f r else r) rows) = Some (f r)" for rows
    by (induction rows) auto
  then show "find_def i s = Some r \<Longrightarrow> (\<And>r. jd_definition_id (f r) = jd_definition_id r) \<Longrightarrow> find_def i (update_def i f s) = Some (f r)"
    by (simp add: find_def_def update_def_def)
qed

lemma local_create_stores:
  assumes "local_createDefinition env dir metadata b s = (Inr doc, s')"
  obtains parsed info i r where "de_parseCreate env metadata = Inr parsed" "i = js_String (js_prop parsed ''definitionId'')"
    and "validateZipBuffer (de_archive env) (de_parseJson env) b (js_prop parsed ''entrypoint'') (js_prop parsed ''runtime'')
       (js_prop parsed ''wrapperVersion'') = Inr info"
    and "doc = definition_document parsed (JInt 1) (''local://'' @ artifact_path dir i (de_sha256 env b)) (de_sha256 env b) (JStr ''1'') info (de_now env)"
    and "find_def i s' = Some r" "jd_data r = jsonb doc" "ld_files s' (artifact_path dir i (de_sha256 env b)) = Some b"
proof -
  from assms obtain parsed where parsed: "de_parseCreate env metadata = Inr parsed"
    by (auto simp: local_createDefinition_def split: sum.splits)
  with assms obtain info where zip: "validateZipBuffer (de_archive env) (de_parseJson env) b (js_prop parsed ''entrypoint'') (js_prop parsed ''runtime'')
       (js_prop parsed ''wrapperVersion'') = Inr info"
    by (auto simp: local_createDefinition_def split: sum.splits)
  define i where "i = js_String (js_prop parsed ''definitionId'')"
  define p where "p = artifact_path dir i (de_sha256 env b)"
  define d where "d = definition_document parsed (JInt 1) (''local://'' @ p) (de_sha256 env b) (JStr ''1'') info (de_now env)"
  define s1 where "s1 = s\<lparr>ld_files := (ld_files s)(p \<mapsto> b)\<rparr>"
  define st where "st r = r\<lparr>jd_data := jsonb d, jd_state := ''ACTIVE'', jd_enabled := 1, jd_updated_at := de_now env\<rparr>" for r :: def_row
  have run: "(case find_def i s1 of
      Some r \<Rightarrow> if jd_state r \<noteq> ''DELETED'' then (Inl definitionExists, s1) else (Inr d, update_def i st s1)
    | None \<Rightarrow> (Inr d, s1\<lparr>ld_rows := ld_rows s1 @ [\<lparr>jd_definition_id = i, jd_data = jsonb d, jd_state = ''ACTIVE'', jd_enabled = 1,
        jd_updated_at = de_now env\<rparr>]\<rparr>)) = (Inr doc, s')"
    using assms unfolding local_createDefinition_def parsed zip sum.case Let_def i_def [symmetric] p_def [symmetric]
      s1_def [symmetric] d_def [symmetric] st_def [abs_def, symmetric] .
  have "doc = d \<and> (\<exists>r. find_def i s' = Some r \<and> jd_data r = jsonb d) \<and> ld_files s' p = Some b"
  proof (cases "find_def i s1")
    case None
    then show ?thesis using run by (auto simp: find_def_def find_snoc s1_def)
  next
    case (Some r)
    then have "s' = update_def i st s1" "doc = d" using run by (auto split: if_splits)
    moreover have "find_def i (update_def i st s1) = Some (st r)" by (rule find_def_update [OF Some]) (simp add: st_def)
    ultimately show ?thesis by (simp add: st_def update_def_def s1_def)
  qed
  then show thesis using that [OF parsed i_def zip] unfolding p_def d_def by blast
qed

lemma local_verify_sound:
  assumes "local_verifyApprovedArtifact L x = Inr v"
  shows "\<exists>p info. js_prop (xe_artifact x) ''uri'' = JStr (''local://'' @ p) \<and> ld_files (lw_defs L) p = Some (ve_buffer v) \<and>
    js_prop (xe_artifact x) ''sha256'' = JStr (we_sha256 (lw_base L) (ve_buffer v)) \<and>
    validateZipBuffer (we_archive (lw_base L)) (we_parseJson (lw_base L)) (ve_buffer v) (js_prop (xe_definition x) ''entrypoint'')
      (js_prop (xe_definition x) ''runtime'') (js_prop (xe_definition x) ''wrapperVersion'') = Inr info"
proof -
  have cut: "startsWith u ''local://'' \<Longrightarrow> u = ''local://'' @ drop 8 u" for u
    by (auto simp: startsWith_iff)
  from assms show ?thesis
    by (auto simp: local_verifyApprovedArtifact_def Let_def dest!: cut split: js.splits if_splits option.splits sum.splits)
qed

section \<open>The contract of a verifier\<close>

text \<open>
  Both workers rely on the same promise of their \<open>verifyApprovedArtifact\<close>: what it hands on has the approved digest and is an archive the policy
  accepts for the definition. \<open>guarded\<close> is the step of a run that waits for it.
\<close>

definition approved :: "(string \<Rightarrow> string) \<Rightarrow> archive \<Rightarrow> json_parser \<Rightarrow> execution \<Rightarrow> string \<Rightarrow> bool" where
  "approved sha archive parse x b \<longleftrightarrow> js_prop (xe_artifact x) ''sha256'' = JStr (sha b) \<and>
     (\<exists>info. validateZipBuffer archive parse b (js_prop (xe_definition x) ''entrypoint'') (js_prop (xe_definition x) ''runtime'')
        (js_prop (xe_definition x) ''wrapperVersion'') = Inr info)"

locale artifact_verifier =
  fixes verify :: "execution \<Rightarrow> js_error + verification" and sha :: "string \<Rightarrow> string" and archive :: archive and parse :: json_parser
  assumes verify_approved: "verify x = Inr v \<Longrightarrow> approved sha archive parse x (ve_buffer v)"
begin

lemma guarded:
  assumes "andThen (outcome (verify x)) k s = (r, s')"
  shows "(\<exists>e. verify x = Inl e \<and> r = Inl e \<and> s' = s) \<or> (\<exists>v. approved sha archive parse x (ve_buffer v) \<and> k v s = (r, s'))"
proof (cases "verify x")
  case (Inl e) then show ?thesis using assms by (simp add: andThen_def outcome_def throw_def)
next
  case (Inr v)
  then show ?thesis using assms verify_approved [OF Inr] by (auto simp: andThen_def outcome_def ret_def)
qed

lemma same_digest:
  assumes "verify x = Inr v" "verify y = Inr w" "js_prop (xe_artifact x) ''sha256'' = js_prop (xe_artifact y) ''sha256''"
  shows "sha (ve_buffer v) = sha (ve_buffer w)"
  using verify_approved [OF assms(1)] verify_approved [OF assms(2)] assms(3) by (simp add: approved_def)

end

interpretation gcs: artifact_verifier "verifyApprovedArtifact env" "we_sha256 env" "we_archive env" "we_parseJson env" for env
proof
  fix x v assume "verifyApprovedArtifact env x = Inr v"
  then show "approved (we_sha256 env) (we_archive env) (we_parseJson env) x (ve_buffer v)"
    by (auto simp: approved_def verifyApprovedArtifact_def Let_def split: sum.splits if_splits)
qed

interpretation files: artifact_verifier "local_verifyApprovedArtifact L" "we_sha256 (lw_base L)" "we_archive (lw_base L)" "we_parseJson (lw_base L)" for L
proof
  fix x v assume "local_verifyApprovedArtifact L x = Inr v"
  from local_verify_sound [OF this] show "approved (we_sha256 (lw_base L)) (we_archive (lw_base L)) (we_parseJson (lw_base L)) x (ve_buffer v)"
    by (auto simp: approved_def)
qed

text \<open>
  An artifact moved from the bucket to the local directory is the same to both workers: when the two agree on the hash function, the bytes
  they accept for one approved digest have that digest.
\<close>

lemma workers_agree:
  assumes "verifyApprovedArtifact env x = Inr v" "local_verifyApprovedArtifact L y = Inr w" "we_sha256 (lw_base L) = we_sha256 env"
    and "js_prop (xe_artifact x) ''sha256'' = js_prop (xe_artifact y) ''sha256''"
  shows "we_sha256 env (ve_buffer v) = we_sha256 env (ve_buffer w)"
  using gcs.verify_approved [OF assms(1)] files.verify_approved [OF assms(2)] assms(3,4) by (simp add: approved_def)

text \<open>A local run whose metadata was found goes on past the verification only with approved bytes.\<close>

lemma local_run_guarded:
  assumes "andThen (outcome (local_verifyApprovedArtifact L x)) k w = (r, w')" "\<not> isl r"
  shows "\<exists>v. approved (we_sha256 (lw_base L)) (we_archive (lw_base L)) (we_parseJson (lw_base L)) x (ve_buffer v) \<and> k v w = (r, w')"
  using files.guarded [OF assms(1)] assms(2) by auto

section \<open>Properties\<close>

text \<open>
  C19. A definition uploaded in the local mode can be scheduled and run. After an upload the instance service finds the definition active
  through its stand-in for Elasticsearch, and the local worker loads it for a run of version 1, accepts its artifact and hands the executor the
  bytes that were uploaded. The zod library returns objects with distinct keys that satisfy the schema; digests are not empty.
\<close>

theorem local_upload_executes:
  assumes "local_createDefinition env dir metadata b s = (Inr doc, s')"
    and "\<forall>m p. de_parseCreate env m = Inr p \<longrightarrow> createJobDefinitionSchema p \<and> distinct_keys p" and "de_sha256 env b \<noteq> []"
    and "lw_defs L = s'" "we_sha256 (lw_base L) = de_sha256 env" "we_archive (lw_base L) = de_archive env" "we_parseJson (lw_base L) = de_parseJson env"
    and "rn_executionMetadata run = JNull" "JStr (rn_definitionId run) = js_prop doc ''definitionId''" "rn_definitionVersion run = Some 1"
    and "ie_esGet ienv = localEsShim s'"
  shows "(\<exists>d. getActiveDefinition ienv (rn_definitionId run) = Inr d) \<and>
    (\<exists>x v. buildExecutionMetadata (local_base L) run = Inr x \<and> local_verifyApprovedArtifact L x = Inr v \<and> ve_buffer v = b)"
proof -
  obtain parsed info i r where parsed: "de_parseCreate env metadata = Inr parsed" "i = js_String (js_prop parsed ''definitionId'')"
    and zip: "validateZipBuffer (de_archive env) (de_parseJson env) b (js_prop parsed ''entrypoint'') (js_prop parsed ''runtime'')
       (js_prop parsed ''wrapperVersion'') = Inr info"
    and doc: "doc = definition_document parsed (JInt 1) (''local://'' @ artifact_path dir i (de_sha256 env b)) (de_sha256 env b) (JStr ''1'') info (de_now env)"
    and r: "find_def i s' = Some r" "jd_data r = jsonb doc" and stored_file: "ld_files s' (artifact_path dir i (de_sha256 env b)) = Some b"
    by (rule local_create_stores [OF assms(1)], rule that)
  note f = document_fields [where parsed = parsed and v = "JInt 1" and uri = "''local://'' @ artifact_path dir i (de_sha256 env b)"
      and dg = "de_sha256 env b" and g = "JStr ''1''" and info = info and t = "de_now env", folded doc]
  have schema: "createJobDefinitionSchema parsed" "distinct_keys parsed" using assms(2) parsed(1) by blast+
  have keys: "distinct_keys doc" unfolding doc by (rule distinct_keys_document [OF schema(2)])
  note stored = stored_prop [OF keys]
  obtain n where n: "js_prop parsed ''definitionId'' = JStr n" "n \<noteq> []"
    using schema(1) by (auto simp: createJobDefinitionSchema_def split: js.splits)
  have id: "rn_definitionId run = i" "i \<noteq> []" using assms(9) n parsed(2) f(5) [of "''definitionId''"] by simp_all
  have found: "fst (local_getDefinition i s') = Inr (jsonb doc)" by (simp add: local_getDefinition_def r)
  have active: "getActiveDefinition ienv (rn_definitionId run) = Inr (jsonb doc)"
    by (simp add: getActiveDefinition_def assms(11) localEsShim_def id(1) found stored stored_truthy [OF keys] f)
  have texts: "\<exists>t. js_prop parsed k = JStr t" if "k \<in> {''entrypoint'', ''runtime'', ''wrapperVersion''}" for k
    using schema(1) that by (auto simp: createJobDefinitionSchema_def text_field_def split: js.splits)
  define x where "x = \<lparr>xe_definition = JObj (map (\<lambda>k. (k, js_prop (jsonb doc) k)) definition_fields),
     xe_artifact = JObj [(''uri'', JStr (''local://'' @ artifact_path dir i (de_sha256 env b))), (''sha256'', JStr (de_sha256 env b)), (''generation'', JStr ''1'')]\<rparr>"
  have build: "buildExecutionMetadata (local_base L) run = Inr x"
    using id assms(3,8,10) found f stored_truthy [OF keys]
    by (simp add: buildExecutionMetadata_def metadata_checks_def missingArtifact_def x_def Let_def getDefinition_def local_base_def assms(4) stored js_version_def)
  have defs: "js_prop (xe_definition x) k = js_prop parsed k" if k: "k \<in> {''entrypoint'', ''runtime'', ''wrapperVersion''}" for k
  proof -
    obtain t where t: "js_prop parsed k = JStr t" using texts [OF k] by blast
    have "js_prop doc k = js_prop parsed k" by (rule f(5)) (use k in auto)
    then have "js_prop (jsonb doc) k = js_prop parsed k" by (simp add: stored t)
    moreover have "k \<in> set definition_fields" using k by (auto simp: definition_fields_def)
    ultimately show ?thesis by (simp add: x_def map_of_map_restrict)
  qed
  have art: "js_prop (xe_artifact x) ''uri'' = JStr (''local://'' @ artifact_path dir i (de_sha256 env b))"
    "js_prop (xe_artifact x) ''sha256'' = JStr (de_sha256 env b)" by (simp_all add: x_def)
  have "\<exists>v. local_verifyApprovedArtifact L x = Inr v \<and> ve_buffer v = b"
    using zip stored_file assms(4-7) defs [of "''entrypoint''"] defs [of "''runtime''"] defs [of "''wrapperVersion''"]
    by (simp add: local_verifyApprovedArtifact_def art)
  with build active show ?thesis by blast
qed

definition sample_local_worker :: "local_defs \<Rightarrow> pg local_worker_env" where
  "sample_local_worker defs = \<lparr>lw_base = sample_env, lw_defs = defs, lw_vars = Map.empty, lw_readError = (\<lambda>_. []), lw_insertFails = (\<lambda>_. False)\<rparr>"

definition sample_instances :: "local_defs \<Rightarrow> pg instance_env" where
  "sample_instances defs = sample_instance_env\<lparr>ie_esGet := localEsShim defs\<rparr>"

lemma sample_schema: "createJobDefinitionSchema sample_metadata_js" "distinct_keys sample_metadata_js"
  by (simp_all add: createJobDefinitionSchema_def sample_metadata_js_def text_field_def int_field_def id_char_def is_alpha_def is_digit_def distinct_keys_def)

definition local_sample_env :: definition_env where
  "local_sample_env = (sample_definition_env True)\<lparr>de_parseCreate := (\<lambda>m. if m = sample_metadata_js then Inr m else Inl JNull)\<rparr>"

theorem local_upload_executes_witness:
  "\<exists>doc s' x v. local_createDefinition local_sample_env ''data'' sample_metadata_js ''good'' \<lparr>ld_rows = [], ld_files = Map.empty\<rparr> = (Inr doc, s') \<and>
     \<not> isl (getActiveDefinition (sample_instances s') ''def'') \<and>
     local_verifyApprovedArtifact (sample_local_worker s') x = Inr v \<and> ve_buffer v = ''good''"
proof -
  let ?s = "\<lparr>ld_rows = [], ld_files = Map.empty\<rparr>"
  let ?run = "(rowToDocument (blank_run ''a'' 2 RUNNING (Some ''new'')))"
  obtain info where "validateZipBuffer sample_archive sample_parse ''good'' (JStr ''job.js'') (JStr ''javascript'') (JStr ''1'') = Inr info"
    using sample_zip_valid(2) by blast
  then obtain doc s' where c: "local_createDefinition local_sample_env ''data'' sample_metadata_js ''good'' ?s = (Inr doc, s')"
    and doc: "\<exists>u i. doc = definition_document sample_metadata_js (JInt 1) u ''h'' (JStr ''1'') i 0"
    by (simp add: local_createDefinition_def local_sample_env_def sample_definition_env_def sample_metadata_js_def find_def_def Let_def) blast
  have "\<forall>m p. de_parseCreate local_sample_env m = Inr p \<longrightarrow> createJobDefinitionSchema p \<and> distinct_keys p"
    using sample_schema by (simp add: local_sample_env_def)
  moreover have "de_sha256 local_sample_env ''good'' \<noteq> []" by (simp add: local_sample_env_def sample_definition_env_def)
  moreover have "lw_defs (sample_local_worker s') = s'" "we_sha256 (lw_base (sample_local_worker s')) = de_sha256 local_sample_env"
    "we_archive (lw_base (sample_local_worker s')) = de_archive local_sample_env" "we_parseJson (lw_base (sample_local_worker s')) = de_parseJson local_sample_env"
    by (simp_all add: sample_local_worker_def sample_env_def local_sample_env_def sample_definition_env_def)
  moreover have "rn_executionMetadata ?run = JNull" "JStr (rn_definitionId ?run) = js_prop doc ''definitionId''" "rn_definitionVersion ?run = Some 1"
    using doc by (auto simp: rowToDocument_def blank_run_def document_fields sample_metadata_js_def)
  moreover have "ie_esGet (sample_instances s') = localEsShim s'" by (simp add: sample_instances_def)
  ultimately have "(\<exists>d. getActiveDefinition (sample_instances s') (rn_definitionId ?run) = Inr d) \<and>
    (\<exists>x v. buildExecutionMetadata (local_base (sample_local_worker s')) ?run = Inr x \<and>
       local_verifyApprovedArtifact (sample_local_worker s') x = Inr v \<and> ve_buffer v = ''good'')"
    using local_upload_executes [OF c] by blast
  moreover have "rn_definitionId ?run = ''def''" by (simp add: rowToDocument_def blank_run_def)
  ultimately show ?thesis using c by auto
qed

end
