(* ===== verification/Process_Wiring.thy ===== *)
theory Process_Wiring
  imports Public_Auth Local_Worker
begin

text \<open>
  The processes of the system and how they are put together: \<open>startApplication\<close> of \<open>src/src/app.js\<close>, \<open>startLocalApplication\<close> of
  \<open>src/src/app.local.js\<close>, the choice between them in \<open>src/src/main.js\<close>, the checks the constructors make on the way, what both do
  on \<open>SIGTERM\<close>, and the script \<open>src/scripts/prod/upload-definition.js\<close>. A start ends in an exception or in a process that
  listens; the database connector, the secret store and SQLite are parameters. The worker has a theory of its own.
\<close>

section \<open>Constructors\<close>

definition newTokenManager :: "string option \<Rightarrow> string option \<Rightarrow> string option \<Rightarrow> js_error + unit" where
  "newTokenManager tokenEndpoint clientId clientSecret =
     (if \<not> truthy_str tokenEndpoint then Inl (newError ''tokenEndpoint is required'')
      else if \<not> truthy_str clientId then Inl (newError ''clientId is required'')
      else if \<not> truthy_str clientSecret then Inl (newError ''clientSecret is required'')
      else Inr ())"

definition newIgaClient :: "string option \<Rightarrow> js_error + unit" where
  "newIgaClient baseUrl = (if \<not> truthy_str baseUrl then Inl (newError ''baseUrl is required'') else Inr ())"

text \<open>The IGA client of the proxy, built on its first request, and the proxy service, built by the first request of its router.\<close>

definition proxy_igaClient :: "process_env \<Rightarrow> js_error + unit" where
  "proxy_igaClient env =
     bind_sum (newTokenManager (env ''IGA_TOKEN_ENDPOINT'') (env ''IGA_CLIENT_ID'') (env ''IGA_CLIENT_SECRET'')) (\<lambda>_. newIgaClient (env ''IGA_BASE_URL''))"

definition newRuntimeIgaProxyService :: "process_env \<Rightarrow> js_error + unit" where
  "newRuntimeIgaProxyService env = bind_sum (getConfig env) (\<lambda>_. Inr ())"

definition createSchedulerAuthMiddleware :: "string option \<Rightarrow> string option \<Rightarrow> (string \<Rightarrow> js_error + js) \<Rightarrow> js_error + (string option \<Rightarrow> auth_result)" where
  "createSchedulerAuthMiddleware expectedAudience expectedServiceAccountEmail verify =
     (if \<not> truthy_str expectedAudience then Inl (newError ''expectedAudience is required'')
      else if \<not> truthy_str expectedServiceAccountEmail then Inl (newError ''expectedServiceAccountEmail is required'')
      else createInternalAuthMiddleware expectedAudience expectedServiceAccountEmail verify)"

text \<open>What \<open>createApp\<close> constructs, in its order: the public authentication and the internal routers with theirs.\<close>

definition createApp :: "process_env \<Rightarrow> auth_env \<Rightarrow> (string \<Rightarrow> js_error + js) \<Rightarrow> js_error + verifier" where
  "createApp env a verify =
     (let workerAuth = createInternalAuthMiddleware (env_or env [''WORKER_OIDC_AUDIENCE'', ''WORKER_BASE_URL''])
            (env ''WORKER_INVOKER_SERVICE_ACCOUNT_EMAIL'') verify;
          runtimeAuth = createInternalAuthMiddleware (env_or env [''RUNTIME_BROKER_URL'', ''WORKER_OIDC_AUDIENCE'', ''WORKER_BASE_URL''])
            (env_or env [''RUNTIME_SERVICE_ACCOUNT_EMAIL'', ''WORKER_INVOKER_SERVICE_ACCOUNT_EMAIL'']) verify;
          schedulerAuth = createSchedulerAuthMiddleware (env ''SCHEDULER_OIDC_AUDIENCE'') (env ''SCHEDULER_INVOKER_SERVICE_ACCOUNT_EMAIL'') verify in
      bind_sum (createPublicAuthMiddleware (auth_options env a)) (\<lambda>publicAuth.
      bind_sum workerAuth (\<lambda>_.
      bind_sum (newTokenManager (env ''IGA_TOKEN_ENDPOINT'') (env ''IGA_CLIENT_ID'') (env ''IGA_CLIENT_SECRET'')) (\<lambda>_.
      bind_sum (newIgaClient (env ''IGA_BASE_URL'')) (\<lambda>_.
      bind_sum runtimeAuth (\<lambda>_. bind_sum schedulerAuth (\<lambda>_. bind_sum workerAuth (\<lambda>_. Inr publicAuth))))))))"

section \<open>The scheduler\<close>

record boot =
  bt_env :: process_env
  bt_access :: "string \<Rightarrow> js_error + string option"
  bt_connector :: "string \<Rightarrow> string \<Rightarrow> js_error + unit"
  bt_auth :: auth_env
  bt_verify :: "string \<Rightarrow> js_error + js"
  bt_createLocalDb :: "string \<Rightarrow> js_error + unit"
  bt_handle :: nat

record scheduler_process =
  sp_pool :: pool_spec
  sp_auth :: verifier
  sp_port :: string
  sp_readiness :: js
  sp_intervalMs :: "int option"
  sp_thresholdMs :: "int option"
  sp_sweeper :: sweep_timer

definition app_readiness :: "process_env \<Rightarrow> js" where
  "app_readiness env = JObj [(''status'', JStr ''ok''), (''environment'', JStr (env_default env ''NODE_ENV'' ''development'')),
     (''executionMode'', JStr (env_default env ''WORKER_EXECUTION_MODE'' ''local'')), (''dbEngine'', JStr (env_default env ''DB_ENGINE'' ''direct'')),
     (''runtimeServiceAccountConfigured'', JBool (truthy_str (env ''RUNTIME_SERVICE_ACCOUNT_EMAIL''))),
     (''runtimeBrokerConfigured'', JBool (truthy_str (env ''RUNTIME_BROKER_URL'')))]"

text \<open>The handler of \<open>SIGTERM\<close> stops the sweeper; the server, the pool and the process end after it.\<close>

definition scheduler_sigterm :: "scheduler_process \<Rightarrow> scheduler_process" where
  "scheduler_sigterm p = p\<lparr>sp_sweeper := sweeper_stop (sp_sweeper p)\<rparr>"

text \<open>\<open>createEsClient\<close> and \<open>JobDefinitionService\<close> read the configuration; the services get their stores and construct nothing else.\<close>

definition startApplication :: "boot \<Rightarrow> pool_spec option \<Rightarrow> js_error + scheduler_process" where
  "startApplication b injectedPool =
     (let env = bt_env b in
      bind_sum (validateProductionStartupConfig env) (\<lambda>_.
      bind_sum (case injectedPool of Some p \<Rightarrow> Inr p | None \<Rightarrow> createPgPool (bt_access b) (bt_connector b) env) (\<lambda>pool.
      bind_sum (getConfig env) (\<lambda>_.
      bind_sum (createApp env (bt_auth b) (bt_verify b)) (\<lambda>publicAuth.
      Inr \<lparr>sp_pool = pool, sp_auth = publicAuth, sp_port = env_default env ''PORT'' ''3000'', sp_readiness = app_readiness env,
        sp_intervalMs = parseInt10 (env_default env ''STALE_RUN_SWEEP_INTERVAL_MS'' ''60000''),
        sp_thresholdMs = parseInt10 (env_default env ''STALE_RUN_THRESHOLD_MS'' ''1860000''),
        sp_sweeper = sweeper_start (bt_handle b) \<lparr>sw_firing = [], sw_timer = None\<rparr>\<rparr>)))))"

section \<open>The local mode\<close>

text \<open>\<open>lo_timer\<close> is the delay of the pass the dispatcher has scheduled, as in \<open>dispatcher_start\<close> and \<open>dispatcher_stop\<close>.\<close>

record local_process =
  lo_dataDir :: string
  lo_auth :: verifier
  lo_port :: string
  lo_readiness :: js
  lo_intervalMs :: "int option"
  lo_batchSize :: "int option"
  lo_timer :: "int option option"

definition startLocalApplication :: "boot \<Rightarrow> js_error + local_process" where
  "startLocalApplication b =
     (let env = bt_env b; dataDir = env_default env ''LOCAL_DATA_DIR'' ''.local-data'';
          intervalMs = parseInt10 (env_default env ''DISPATCH_POLL_INTERVAL_MS'' ''5000'') in
      bind_sum (bt_createLocalDb b dataDir) (\<lambda>_.
      bind_sum (createApp env (bt_auth b) (bt_verify b)) (\<lambda>publicAuth.
      Inr \<lparr>lo_dataDir = dataDir, lo_auth = publicAuth, lo_port = env_default env ''PORT'' ''3000'',
        lo_readiness = JObj [(''status'', JStr ''ok''), (''environment'', JStr ''local''), (''executionMode'', JStr ''local''), (''backend'', JStr ''sqlite'')],
        lo_intervalMs = intervalMs, lo_batchSize = parseInt10 (env_default env ''DISPATCH_POLL_BATCH_SIZE'' ''10''), lo_timer = Some intervalMs\<rparr>)))"

definition local_sigterm :: "local_process \<Rightarrow> local_process" where
  "local_sigterm p = p\<lparr>lo_timer := None\<rparr>"

text \<open>\<open>main.js\<close>: the server that listens, or the exception after which the process exits with 1.\<close>

datatype server = SchedulerServer scheduler_process | LocalServer local_process

definition main :: "boot \<Rightarrow> js_error + server" where
  "main b =
     bind_sum (resolveAppMode (bt_env b)) (\<lambda>mode.
     if mode = ''local'' then bind_sum (startLocalApplication b) (\<lambda>p. Inr (LocalServer p))
     else bind_sum (startApplication b None) (\<lambda>p. Inr (SchedulerServer p)))"

section \<open>The upload script\<close>

text \<open>
  \<open>upload-definition.js\<close>: the arguments after the script's name, \<open>JSON.parse\<close> and \<open>readFile\<close> are parameters; \<open>None\<close> is the usage message, after
  which the process exits with 1, as it does after an exception.
\<close>

definition upload_definition ::
  "definition_env \<Rightarrow> process_env \<Rightarrow> (string \<Rightarrow> js_error + js) \<Rightarrow> (string \<Rightarrow> js_error + string) \<Rightarrow> string list \<Rightarrow> (ext_call list, js option) eff" where
  "upload_definition env vars parse readFile args =
     (case args of
        zipPath # metadataJson # _ \<Rightarrow>
          if zipPath = [] \<or> metadataJson = [] then ret None
          else andThen (outcome (parse metadataJson)) (\<lambda>metadata.
               andThen (outcome (readFile zipPath)) (\<lambda>artifactBuffer.
               andThen (outcome (getConfig vars)) (\<lambda>c.
               andThen (createDefinition (env\<lparr>de_instances := None, de_jobZipBucket := cf_jobZipBucket c\<rparr>) metadata artifactBuffer) (\<lambda>definition.
               ret (Some definition)))))
      | _ \<Rightarrow> ret None)"

section \<open>Properties of the start\<close>

lemma bind_sum_Inr: "bind_sum m k = Inr v \<longleftrightarrow> (\<exists>a. m = Inr a \<and> k a = Inr v)"
  by (cases m) (simp_all add: bind_sum_def)

lemma bind_sum_total: "(\<exists>a. m = Inr a) \<Longrightarrow> (\<And>a. \<exists>v. k a = Inr v) \<Longrightarrow> \<exists>v. bind_sum m k = Inr v"
  by (auto simp: bind_sum_def)

lemma missing_nil: "missing env ns = [] \<longleftrightarrow> (\<forall>n \<in> set ns. truthy_str (env n))"
  by (auto simp: missing_def filter_empty_conv)

text \<open>The requirements of the constructors on the environment.\<close>

definition app_required :: "string list" where
  "app_required = [''PUBLIC_API_ISSUER'', ''PUBLIC_API_AUDIENCE'', ''WORKER_OIDC_AUDIENCE'', ''WORKER_INVOKER_SERVICE_ACCOUNT_EMAIL'',
     ''IGA_TOKEN_ENDPOINT'', ''IGA_CLIENT_ID'', ''IGA_CLIENT_SECRET'', ''IGA_BASE_URL'', ''SCHEDULER_OIDC_AUDIENCE'',
     ''SCHEDULER_INVOKER_SERVICE_ACCOUNT_EMAIL'']"

lemma createApp_total:
  assumes "\<forall>n \<in> set app_required. truthy_str (env n)" "\<And>u. env ''PUBLIC_API_JWKS_URL'' = Some u \<Longrightarrow> au_newUrl a u = None"
  shows "\<exists>v. createApp env a verify = Inr v"
proof -
  have pub: "\<exists>v. createPublicAuthMiddleware (auth_options env a) = Inr v"
    using assms by (cases "env ''PUBLIC_API_JWKS_URL''")
      (auto simp: app_required_def createPublicAuthMiddleware_def createJoseVerifier_def createRemoteJWKSet_def auth_options_def bind_sum_def)
  have auth: "\<exists>m. createInternalAuthMiddleware a e verify = Inr m" if "truthy_str a" "truthy_str e" for a e
    using that by (simp add: createInternalAuthMiddleware_def)
  have email: "truthy_str (env_or env [''RUNTIME_SERVICE_ACCOUNT_EMAIL'', ''WORKER_INVOKER_SERVICE_ACCOUNT_EMAIL''])"
    "truthy_str (env_or env [''WORKER_OIDC_AUDIENCE'', ''WORKER_BASE_URL''])"
    "truthy_str (env_or env [''RUNTIME_BROKER_URL'', ''WORKER_OIDC_AUDIENCE'', ''WORKER_BASE_URL''])"
    using assms(1) by (auto simp: app_required_def)
  show ?thesis unfolding createApp_def Let_def
    using assms(1) by (intro bind_sum_total pub auth email)
      (auto simp: app_required_def newTokenManager_def newIgaClient_def createSchedulerAuthMiddleware_def createInternalAuthMiddleware_def)
qed

lemma createApp_needs:
  assumes "createApp env a verify = Inr v"
  shows "truthy_str (env ''IGA_TOKEN_ENDPOINT'') \<and> truthy_str (env ''IGA_CLIENT_ID'') \<and> truthy_str (env ''IGA_CLIENT_SECRET'') \<and>
    truthy_str (env ''IGA_BASE_URL'')"
  using assms by (auto simp: createApp_def Let_def bind_sum_Inr newTokenManager_def newIgaClient_def split: if_splits)

text \<open>The local mode does not start without the variables of the IGA service, which the reference lists as needed in production only.\<close>

lemma local_mode_needs_iga:
  assumes "startLocalApplication b = Inr p"
  shows "truthy_str (bt_env b ''IGA_TOKEN_ENDPOINT'') \<and> truthy_str (bt_env b ''IGA_CLIENT_SECRET'')"
  using assms createApp_needs by (fastforce simp: startLocalApplication_def Let_def bind_sum_Inr)

lemma pool_total:
  assumes "validate_db_engine env = Inr v" "truthy_str (env ''GCP_PROJECT_ID'')" "\<And>n. \<exists>p. access n = Inr p" "\<And>i t. connector i t = Inr ()"
  shows "\<exists>p. createPgPool access connector env = Inr p"
proof -
  have "truthy_str (env ''DB_ENGINE'')" using assms(1) by (auto simp: validate_db_engine_def Let_def split: if_splits)
  then obtain e where e: "env ''DB_ENGINE'' = Some e" "env_default env ''DB_ENGINE'' ''direct'' = e"
    by (cases "env ''DB_ENGINE''") (auto simp: env_default_def)
  have pw: "\<exists>p. resolveCloudSqlPassword access env = Inr p"
    using assms(2,3) by (auto simp: resolveCloudSqlPassword_def db_secretVersionName_def)
  consider "e = ''direct''" "truthy_str (env ''DATABASE_URL'')"
    | "e = ''cloud-sql''" "truthy_str (env ''DB_INSTANCE_CONNECTION_NAME'')" "truthy_str (env ''DB_USER'')" "truthy_str (env ''DB_NAME'')"
    using assms(1) e by (auto simp: validate_db_engine_def Let_def missing_nil split: if_splits)
  then show ?thesis
  proof cases
    case 1 then show ?thesis by (simp add: createPgPool_def e(2))
  next
    case 2 then show ?thesis using pw assms(4) by (auto simp: createPgPool_def e(2) required_var_def bind_sum_def)
  qed
qed

lemma start_total:
  assumes "validateProductionStartupConfig (bt_env b) = Inr v" "bt_env b ''NODE_ENV'' \<noteq> Some ''test''"
    and "\<forall>n. \<exists>p. bt_access b n = Inr p" "\<forall>i t. bt_connector b i t = Inr ()"
    and "\<forall>u. bt_env b ''PUBLIC_API_JWKS_URL'' = Some u \<longrightarrow> au_newUrl (bt_auth b) u = None"
  shows "\<exists>p. startApplication b None = Inr p"
proof -
  have req: "\<forall>n \<in> set production_required. truthy_str (bt_env b n)" and db: "\<exists>v. validate_db_engine (bt_env b) = Inr v"
    using assms(1,2) by (auto simp: validateProductionStartupConfig_def missing_nil split: if_splits)
  have app: "\<exists>v. createApp (bt_env b) (bt_auth b) (bt_verify b) = Inr v"
    by (rule createApp_total) (use req assms(5) in \<open>auto simp: app_required_def production_required_def\<close>)
  have cfg: "\<exists>c. getConfig (bt_env b) = Inr c"
    using req by (auto simp: getConfig_def Let_def missing_nil production_required_def)
  have pool: "\<exists>p. createPgPool (bt_access b) (bt_connector b) (bt_env b) = Inr p"
    using db req assms(3,4) pool_total by (auto simp: production_required_def)
  show ?thesis unfolding startApplication_def Let_def option.case
    by (intro bind_sum_total exI [of _ v] assms(1) pool cfg app) simp
qed

text \<open>
  The proxy of a validated server can be built, and its client too. The local server passes no Elasticsearch client either, so without the
  variables of Elasticsearch, which the local mode does not need otherwise, every request of a job to the proxy is answered with 500.
\<close>

lemma proxy_ready:
  assumes "validateProductionStartupConfig env = Inr v" "env ''NODE_ENV'' \<noteq> Some ''test''"
  shows "newRuntimeIgaProxyService env = Inr () \<and> proxy_igaClient env = Inr ()"
  using assms by (auto simp: validateProductionStartupConfig_def missing_nil newRuntimeIgaProxyService_def getConfig_def proxy_igaClient_def
      newTokenManager_def newIgaClient_def bind_sum_def Let_def production_required_def split: if_splits)

lemma plain_error_status: "reply_status (globalErrorHandler (newError m) requestId :: unit reply) = 500"
  by (simp add: globalErrorHandler_def Let_def newError_def js_or_def js_status_def js_int_def)

lemma local_proxy_fails:
  assumes "\<not> truthy_str (env ''ES_ENDPOINT'')"
  shows "\<exists>e. newRuntimeIgaProxyService env = Inl e \<and> reply_status (globalErrorHandler e requestId :: unit reply) = 500"
proof -
  have "missing env [''GCP_PROJECT_ID'', ''JOB_ZIP_BUCKET'', ''ES_ENDPOINT'', ''ES_API_KEY''] \<noteq> []" using assms by (simp add: missing_def)
  then obtain m where "newRuntimeIgaProxyService env = Inl (newError m)"
    by (simp add: newRuntimeIgaProxyService_def getConfig_def bind_sum_def)
  then show ?thesis using plain_error_status by blast
qed

text \<open>After \<open>SIGTERM\<close> neither server has a timer left.\<close>

lemma sigterm_stops_timers:
  "startApplication b pool = Inr p \<Longrightarrow> sw_firing (sp_sweeper (scheduler_sigterm p)) = []"
  "startLocalApplication b = Inr q \<Longrightarrow> lo_timer q \<noteq> None \<and> lo_timer (local_sigterm q) = None"
  by (auto simp: startApplication_def startLocalApplication_def scheduler_sigterm_def local_sigterm_def bind_sum_Inr Let_def sweeper_start_def sweeper_stop_def)

text \<open>The upload script calls a service only when both arguments are there, the metadata parse and the file can be read.\<close>

lemma upload_definition_calls:
  assumes "upload_definition env vars parse readFile args [] = (r, calls)" "calls \<noteq> []"
  obtains zipPath metadataJson rest metadata artifactBuffer c where "args = zipPath # metadataJson # rest" "parse metadataJson = Inr metadata"
    "readFile zipPath = Inr artifactBuffer" "getConfig vars = Inr c"
    "snd (createDefinition (env\<lparr>de_instances := None, de_jobZipBucket := cf_jobZipBucket c\<rparr>) metadata artifactBuffer []) = calls"
  using assms by (auto simp: upload_definition_def outcome_def andThen_def ret_def throw_def split: list.splits if_splits sum.splits prod.splits)


definition sample_boot :: boot where
  "sample_boot = \<lparr>bt_env = sample_process_env, bt_access = (\<lambda>_. Inr None), bt_connector = (\<lambda>_ _. Inr ()), bt_auth = sample_auth,
     bt_verify = (\<lambda>_. Inl (newError ''no'')), bt_createLocalDb = (\<lambda>_. Inr ()), bt_handle = 0\<rparr>"


text \<open>
  C18. No unchecked server in production: a process that \<open>main.js\<close> starts with \<open>NODE_ENV=production\<close> and that listens is the scheduler, never
  the local backend; its configuration passed the production check, so executions are isolated and the account of the
  runtime is neither the worker's nor the scheduler's invoker.
\<close>

theorem production_server_validated:
  assumes "main b = Inr server" "bt_env b ''NODE_ENV'' = Some ''production''"
  shows "(\<exists>p. server = SchedulerServer p) \<and> bt_env b ''WORKER_EXECUTION_MODE'' = Some ''isolated'' \<and>
    (\<forall>n \<in> set production_required. truthy_str (bt_env b n)) \<and>
    bt_env b ''RUNTIME_SERVICE_ACCOUNT_EMAIL'' \<notin>
      {bt_env b ''WORKER_INVOKER_SERVICE_ACCOUNT_EMAIL'', bt_env b ''SCHEDULER_INVOKER_SERVICE_ACCOUNT_EMAIL''}"
proof -
  from assms obtain p v where "server = SchedulerServer p" and v: "validateProductionStartupConfig (bt_env b) = Inr v"
    by (auto simp: main_def bind_sum_Inr resolveAppMode_def Let_def startApplication_def split: if_splits)
  moreover have "bt_env b ''WORKER_EXECUTION_MODE'' = Some ''isolated''" "missing (bt_env b) production_required = []"
    using v assms(2) by (auto simp: validateProductionStartupConfig_def split: if_splits)
  ultimately show ?thesis using production_accounts [OF v] assms(2) by (auto simp: missing_nil)
qed

theorem production_server_validated_witness:
  "\<exists>server p. main (sample_boot\<lparr>bt_env := sample_process_env(''NODE_ENV'' \<mapsto> ''production'')\<rparr>) = Inr server \<and> server = SchedulerServer p"
proof -
  let ?b = "sample_boot\<lparr>bt_env := sample_process_env(''NODE_ENV'' \<mapsto> ''production'')\<rparr>"
  have "validateProductionStartupConfig (bt_env ?b) = Inr (JObj [(''status'', JStr ''ok'')])"
    by (simp add: validateProductionStartupConfig_def validate_db_engine_def missing_def production_required_def sample_process_env_def)
  then have "\<exists>p. startApplication ?b None = Inr p"
    by (rule start_total) (simp_all add: sample_boot_def sample_process_env_def sample_auth_def)
  then obtain server where m: "main ?b = Inr server"
    by (auto simp: main_def bind_sum_def resolveAppMode_def sample_process_env_def Let_def)
  from production_server_validated [OF m] have "\<exists>p. server = SchedulerServer p" by simp
  with m show ?thesis by blast
qed

end
