(* ===== verification/Worker_Shutdown.thy ===== *)
theory Worker_Shutdown
  imports Process_Wiring
begin

text \<open>
  The worker process of \<open>src/src/workers/app.js\<close>: its start, and its way from \<open>SIGTERM\<close> to the exit. The handler stops the poll loop, closes the
  server, waits for \<open>drain\<close> of \<open>src/src/workers/workerApp.js\<close>, ends the pool and exits. Meanwhile executions settle, and a claim that was under
  way when the signal came still returns and starts its executions. One signal is sent; the server closes when its last
  request is answered.
\<close>

section \<open>The process\<close>

text \<open>
  \<open>Draining\<close> holds the promises \<open>drain\<close> waits for: those in flight when it was called. In every phase but \<open>Serving\<close> the poll loop is
  stopped: its time-out is cleared and a poll that ends schedules no other.
\<close>

datatype phase = Serving | Closing | Draining "nat set" | Ending | Exited

record worker_process =
  wp_pool :: pool_spec
  wp_port :: jsnum
  wp_loop :: loop
  wp_phase :: phase

definition startWorker :: "boot \<Rightarrow> pg \<Rightarrow> js_error + worker_process" where
  "startWorker b db =
     bind_sum (validateWorkerStartupConfig (bt_env b)) (\<lambda>_.
     bind_sum (createPgPool (bt_access b) (bt_connector b) (bt_env b)) (\<lambda>pool.
     Inr \<lparr>wp_pool = pool, wp_port = js_Number (JStr (env_default (bt_env b) ''PORT'' ''8080'')), wp_loop = fresh_loop db, wp_phase = Serving\<rparr>))"

abbreviation in_flight :: "worker_process \<Rightarrow> (nat \<times> string) list" where
  "in_flight w \<equiv> pl_active (lp_poller (wp_loop w))"

definition sigterm :: "worker_process \<Rightarrow> worker_process" where
  "sigterm w = w\<lparr>wp_phase := Closing\<rparr>"

text \<open>\<open>drain\<close>: nothing to wait for, or the promises in flight now.\<close>

definition drain :: "worker_process \<Rightarrow> worker_process" where
  "drain w = w\<lparr>wp_phase := (if in_flight w = [] then Ending else Draining (fst ` set (in_flight w)))\<rparr>"

text \<open>The steps after the signal; \<open>late\<close> says that the timer of \<open>drain\<close> may win its race.\<close>

inductive shutdown_step :: "bool \<Rightarrow> worker_process \<Rightarrow> worker_process \<Rightarrow> bool" for late where
  claim_returns: "wp_phase w \<notin> {Serving, Exited} \<Longrightarrow> lp_polling (wp_loop w) = Some limit \<Longrightarrow>
     poll_claim locked uuid limit t (lp_db (wp_loop w), lp_poller (wp_loop w)) = (claimed, s, p) \<Longrightarrow>
     shutdown_step late w (w\<lparr>wp_loop := \<lparr>lp_db = s, lp_poller = p, lp_polling = None\<rparr>\<rparr>)"
| settles: "wp_phase w \<notin> {Serving, Exited} \<Longrightarrow> (k, runId) \<in> set (in_flight w) \<Longrightarrow>
     shutdown_step late w (w\<lparr>wp_loop := (wp_loop w)\<lparr>lp_poller := cleanup k runId (lp_poller (wp_loop w))\<rparr>\<rparr>)"
| closed: "wp_phase w = Closing \<Longrightarrow> shutdown_step late w (drain w)"
| drained: "wp_phase w = Draining I \<Longrightarrow> I \<inter> fst ` set (in_flight w) = {} \<Longrightarrow> shutdown_step late w (w\<lparr>wp_phase := Ending\<rparr>)"
| timed_out: "late \<Longrightarrow> wp_phase w = Draining I \<Longrightarrow> shutdown_step late w (w\<lparr>wp_phase := Ending\<rparr>)"
| pool_ended: "wp_phase w = Ending \<Longrightarrow> shutdown_step late w (w\<lparr>wp_phase := Exited\<rparr>)"

inductive_cases shutdown_stepE: "shutdown_step late w w'"

section \<open>Lemmas\<close>

fun phase_rank :: "phase \<Rightarrow> nat" where
  "phase_rank Serving = 4"
| "phase_rank Closing = 3"
| "phase_rank (Draining _) = 2"
| "phase_rank Ending = 1"
| "phase_rank Exited = 0"

text \<open>Each step leaves a phase behind, or the claim under way, or an execution.\<close>

definition remaining :: "worker_process \<Rightarrow> nat \<times> nat \<times> nat" where
  "remaining w = (phase_rank (wp_phase w), if lp_polling (wp_loop w) = None then 0 else 1, length (in_flight w))"

lemma step_decreases:
  assumes "shutdown_step late w w'"
  shows "(remaining w', remaining w) \<in> less_than <*lex*> less_than <*lex*> less_than"
  using assms
proof cases
  case (settles k runId)
  have "length (filter (\<lambda>a. a \<noteq> (k, runId)) (in_flight w)) < length (in_flight w)"
    using settles(3) by (intro length_filter_less) auto
  then show ?thesis using settles(1) by (simp add: remaining_def cleanup_def)
qed (auto simp: remaining_def drain_def)

lemma shutdown_wf: "wf {(w', w). shutdown_step late w w'}"
  by (rule wf_subset [OF wf_inv_image [of "less_than <*lex*> less_than <*lex*> less_than" remaining]])
    (auto simp: inv_image_def dest: step_decreases)

lemma step_phase: "shutdown_step late w w' \<Longrightarrow> wp_phase w \<noteq> Serving \<and> wp_phase w \<noteq> Exited \<and> wp_phase w' \<noteq> Serving"
  by (auto simp: drain_def split: if_splits elim!: shutdown_stepE)

text \<open>A process on its way out can go on: what \<open>drain\<close> waits for is still in flight, and may settle.\<close>

lemma shutdown_goes_on:
  assumes "wp_phase w \<noteq> Serving" "wp_phase w \<noteq> Exited"
  shows "\<exists>w'. shutdown_step late w w'"
proof (cases "wp_phase w")
  case (Draining I)
  show ?thesis
  proof (cases "I \<inter> fst ` set (in_flight w) = {}")
    case True then show ?thesis using Draining shutdown_step.drained by blast
  next
    case False
    then obtain k runId where "(k, runId) \<in> set (in_flight w)" by auto
    then show ?thesis using assms shutdown_step.settles [of w k runId] by blast
  qed
qed (use assms shutdown_step.closed shutdown_step.pool_ended in blast)+

text \<open>Without a claim under way and without the timer, the exit leaves nothing in flight.\<close>

definition graceful :: "worker_process \<Rightarrow> bool" where
  "graceful w \<longleftrightarrow> lp_polling (wp_loop w) = None \<and>
     (case wp_phase w of Draining I \<Rightarrow> fst ` set (in_flight w) \<subseteq> I | Ending \<Rightarrow> in_flight w = [] | Exited \<Rightarrow> in_flight w = [] | _ \<Rightarrow> True)"

lemma subset_image_nil: "fst ` set xs \<subseteq> I \<Longrightarrow> I \<inter> fst ` set xs = {} \<Longrightarrow> xs = []"
  by (cases xs) auto

lemma graceful_step: "shutdown_step False w w' \<Longrightarrow> graceful w \<Longrightarrow> graceful w'"
  by (erule shutdown_stepE) (auto simp: graceful_def drain_def cleanup_def split: phase.splits dest: subset_image_nil)

lemma graceful_steps: "(shutdown_step False)\<^sup>*\<^sup>* w w' \<Longrightarrow> graceful w \<Longrightarrow> graceful w'"
  by (induction rule: rtranclp_induct) (auto intro: graceful_step)

lemma steps_phase: "(shutdown_step late)\<^sup>*\<^sup>* w w' \<Longrightarrow> wp_phase w \<noteq> Serving \<Longrightarrow> wp_phase w' \<noteq> Serving"
  by (induction rule: rtranclp_induct) (auto dest: step_phase)

lemma shutdown_ends: "\<exists>w'. (shutdown_step late)\<^sup>*\<^sup>* w w' \<and> (\<nexists>w''. shutdown_step late w' w'')"
proof (induction w rule: wf_induct_rule [OF shutdown_wf [of late]])
  case (1 w)
  show ?case
  proof (cases "\<exists>w'. shutdown_step late w w'")
    case True
    then obtain u where u: "shutdown_step late w u" by blast
    with 1 obtain w' where "(shutdown_step late)\<^sup>*\<^sup>* u w'" "\<nexists>w''. shutdown_step late w' w''" by auto
    with u show ?thesis by (meson converse_rtranclp_into_rtranclp)
  qed auto
qed

text \<open>
  A claim under way when the signal comes is abandoned if it returns after \<open>drain\<close> was called: its runs are \<open>RUNNING\<close>, their executions
  have just started, and the process exits without waiting for them.
\<close>

lemma late_claim_abandoned:
  assumes "wp_phase w = Closing" "in_flight w = []" "lp_polling (wp_loop w) = Some limit"
    and "poll_claim locked uuid limit t (lp_db (wp_loop w), lp_poller (wp_loop w)) = (claimed, s, p)"
  shows "\<exists>w'. (shutdown_step False)\<^sup>*\<^sup>* w w' \<and> wp_phase w' = Exited \<and> in_flight w' = pl_active p"
proof -
  let ?w1 = "w\<lparr>wp_phase := Ending\<rparr>"
  let ?w2 = "?w1\<lparr>wp_loop := \<lparr>lp_db = s, lp_poller = p, lp_polling = None\<rparr>\<rparr>"
  have "shutdown_step False w ?w1" using shutdown_step.closed [OF assms(1)] assms(2) by (simp add: drain_def)
  moreover have "shutdown_step False ?w1 ?w2"
    by (rule shutdown_step.claim_returns [where limit = limit and locked = locked and uuid = uuid and t = t and claimed = claimed])
      (use assms(3,4) in simp_all)
  moreover have "shutdown_step False ?w2 (?w2\<lparr>wp_phase := Exited\<rparr>)" by (rule shutdown_step.pool_ended) simp
  ultimately have "(shutdown_step False)\<^sup>*\<^sup>* w (?w2\<lparr>wp_phase := Exited\<rparr>)" by (meson converse_rtranclp_into_rtranclp rtranclp.rtrancl_refl)
  then show ?thesis by (intro exI [of _ "?w2\<lparr>wp_phase := Exited\<rparr>"]) simp
qed

section \<open>Properties\<close>

text \<open>
  C16. The worker exits after \<open>SIGTERM\<close>: from the signal on there is no infinite run, whatever settles when and whatever a late claim starts,
  and a run can only end in the exit. If no claim was under way and the timer of \<open>drain\<close> did not fire, no execution is left in
  flight at the exit.
\<close>

theorem worker_shutdown_terminates:
  "\<not> (\<exists>f. f 0 = sigterm w \<and> (\<forall>i. shutdown_step late (f i) (f (Suc i)))) \<and>
    (\<forall>w'. (shutdown_step late)\<^sup>*\<^sup>* (sigterm w) w' \<and> (\<nexists>w''. shutdown_step late w' w'') \<longrightarrow> wp_phase w' = Exited \<and>
       (\<not> late \<and> lp_polling (wp_loop w) = None \<longrightarrow> in_flight w' = []))"
proof (intro conjI allI impI)
  show "\<not> (\<exists>f. f 0 = sigterm w \<and> (\<forall>i. shutdown_step late (f i) (f (Suc i))))"
    using shutdown_wf [of late] by (auto simp: wf_iff_no_infinite_down_chain)
next
  fix w' assume a: "(shutdown_step late)\<^sup>*\<^sup>* (sigterm w) w' \<and> (\<nexists>w''. shutdown_step late w' w'')"
  then have "wp_phase w' \<noteq> Serving" by (auto simp: sigterm_def dest!: steps_phase)
  then show e: "wp_phase w' = Exited" using a shutdown_goes_on by blast
  assume "\<not> late \<and> lp_polling (wp_loop w) = None"
  then have "graceful (sigterm w)" "(shutdown_step False)\<^sup>*\<^sup>* (sigterm w) w'" using a by (auto simp: graceful_def sigterm_def)
  then have "graceful w'" using graceful_steps by blast
  then show "in_flight w' = []" using e by (simp add: graceful_def)
qed

definition sample_process :: worker_process where
  "sample_process = \<lparr>wp_pool = DirectPool ''u'', wp_port = Fin 8080,
     wp_loop = \<lparr>lp_db = running_pg, lp_poller = \<lparr>pl_active = [(0, ''a'')], pl_owned = [(''a'', ''new'')], pl_next = 1\<rparr>, lp_polling = None\<rparr>,
     wp_phase = Serving\<rparr>"

theorem worker_shutdown_terminates_witness:
  "\<exists>w'. (shutdown_step False)\<^sup>*\<^sup>* (sigterm sample_process) w' \<and> in_flight (sigterm sample_process) \<noteq> [] \<and> wp_phase w' = Exited \<and> in_flight w' = []"
proof -
  obtain w' where w': "(shutdown_step False)\<^sup>*\<^sup>* (sigterm sample_process) w' \<and> (\<nexists>w''. shutdown_step False w' w'')"
    using shutdown_ends by blast
  have "lp_polling (wp_loop sample_process) = None" "in_flight (sigterm sample_process) \<noteq> []" by (simp_all add: sample_process_def sigterm_def)
  with worker_shutdown_terminates [of sample_process False] w' show ?thesis by blast
qed

end
