(* ===== verification/Provisioning.thy ===== *)
theory Provisioning
  imports Deploy_Scripts
begin

text \<open>
  The scripts that create and remove what the scheduler runs on: \<open>src/scripts/prod/bootstrap-prod.js\<close>,
  \<open>src/scripts/prod/teardown.js\<close>, \<open>src/scripts/bootstrap.js\<close> and \<open>src/scripts/bootstrap-es-indices.js\<close>, over the calls of
  \<open>Deploy_Scripts\<close>.
\<close>

section \<open>Seeding\<close>

text \<open>The loop over the indices: those it created and those it found.\<close>

fun seed_indices :: "deploy_env \<Rightarrow> string list \<Rightarrow> (deploy, string list \<times> string list) eff" where
  "seed_indices env [] = ret ([], [])"
| "seed_indices env (n # ns) =
     andThen (call env (IndexExists n)) (\<lambda>v.
     if truthy v
     then andThen (say_pass ''es'' (n @ '' '' @ em_dash @ '' already exists, skipped'')) (\<lambda>_.
          andThen (seed_indices env ns) (\<lambda>(created, existed). ret (created, n # existed)))
     else andThen (call env (IndexCreate n)) (\<lambda>_. andThen (say_pass ''es'' (n @ '' '' @ em_dash @ '' created'')) (\<lambda>_.
          andThen (seed_indices env ns) (\<lambda>(created, existed). ret (n # created, existed)))))"

definition seed_es :: "deploy_env \<Rightarrow> bool \<Rightarrow> (deploy, string list \<times> string list) eff" where
  "seed_es env dryRun =
     (if dryRun
      then andThen (forEach (\<lambda>n. say_dim (''  [dry-run] would create index '' @ n @ '' (if missing)'')) index_names) (\<lambda>_. ret ([], []))
      else if \<not> (has env ''ES_ENDPOINT'' \<and> has env ''ES_API_KEY'')
      then andThen (fault ''es'' (''ES_ENDPOINT or ES_API_KEY not set '' @ em_dash @ '' cannot seed ES indices'')) (\<lambda>_. ret ([], []))
      else andThen (esClient env) (\<lambda>_. andThen (seed_indices env index_names) (\<lambda>r.
           andThen (say_dim (''  ES seed complete'' @ took env)) (\<lambda>_. ret r))))"

text \<open>The migrations run between the two reads of the migrations table: newly applied ones and earlier ones.\<close>

definition run_migrations :: "deploy_env \<Rightarrow> string list \<Rightarrow> (deploy, string list \<times> string list) eff" where
  "run_migrations env appliedBefore =
     andThen (call env PgMigrateUp) (\<lambda>_. andThen (call env PgMigrations) (\<lambda>r.
     let names = column ''name'' r; new = filter (\<lambda>n. n \<notin> set appliedBefore) names; old = filter (\<lambda>n. n \<in> set appliedBefore) names in
     andThen (forEach (\<lambda>n. say_pass ''pg'' (n @ '' '' @ em_dash @ '' applied'')) new) (\<lambda>_.
     andThen (if old \<noteq> [] then say_pass ''pg'' (nat_text (length old) @ '' migration(s) already applied, skipped'') else ret ()) (\<lambda>_.
     ret (new, old)))))"

definition seed_pg :: "deploy_env \<Rightarrow> bool \<Rightarrow> (deploy, string list \<times> string list) eff" where
  "seed_pg env dryRun =
     (let hasPg = hasPgConfig env (Some (env_default (dv_env env) ''DB_ENGINE'' ''direct'')) in
      if \<not> hasPg \<and> dryRun
      then andThen (say_warn ''pg'' (''DB connection vars not set '' @ em_dash @ '' would skip migrations'')) (\<lambda>_. ret ([], []))
      else if \<not> hasPg
      then andThen (fault ''pg'' (''DB connection vars missing '' @ em_dash @ '' cannot run migrations'')) (\<lambda>_. ret ([], []))
      else if dryRun
      then andThen (say_dim (''  [dry-run] would apply migrations: '' @ join_with '', '' (dv_migrations env))) (\<lambda>_. ret ([], []))
      else andThen (openPool env) (\<lambda>_.
           andThen (tryCatch (andThen (call env PgMigrations) (\<lambda>r. ret (column ''name'' r))) (\<lambda>_. ret [])) (\<lambda>appliedBefore.
           andThen (tryFinally (run_migrations env appliedBefore) (swallow (call env PgEnd))) (\<lambda>r.
           andThen (say_dim (''  PG seed complete'' @ took env)) (\<lambda>_. ret r)))))"

section \<open>The manifest\<close>

definition MANIFEST_PATH :: string where
  "MANIFEST_PATH = ''bootstrap-manifest.json''"

definition js_var :: "deploy_env \<Rightarrow> string \<Rightarrow> js" where
  "js_var env n = (case var env n of Some v \<Rightarrow> JStr v | None \<Rightarrow> JUndefined)"

text \<open>\<open>readManifest\<close>: \<open>null\<close> without a file; a file that is no JSON throws.\<close>

definition lib_readManifest :: "string \<Rightarrow> (deploy, js) eff" where
  "lib_readManifest p = (\<lambda>s. (case dp_files s p of None \<Rightarrow> Inr JNull | Some r \<Rightarrow> r, s))"

definition writeManifest :: "js \<Rightarrow> (deploy, unit) eff" where
  "writeManifest m = (\<lambda>s. (Inr (), s\<lparr>dp_files := (dp_files s)(MANIFEST_PATH \<mapsto> Inr (jsonb m))\<rparr>))"

definition manifest_document :: "deploy_env \<Rightarrow> js \<Rightarrow> string list \<times> string list \<Rightarrow> string list \<times> string list \<Rightarrow> js" where
  "manifest_document env existing es pg =
     JObj [(''schemaVersion'', JInt 1), (''bootstrappedAt'', JStr (toISOString (dv_now env))),
           (''previousRun'', coalesce (js_prop existing ''bootstrappedAt'') JNull),
           (''environment'', JObj [(''gcpProjectId'', js_var env ''GCP_PROJECT_ID''), (''jobZipBucket'', js_var env ''JOB_ZIP_BUCKET''),
              (''dbEngine'', js_var env ''DB_ENGINE''), (''dbName'', coalesce (js_var env ''DB_NAME'') JNull),
              (''dbInstanceConnectionName'', coalesce (js_var env ''DB_INSTANCE_CONNECTION_NAME'') JNull),
              (''esEndpoint'', js_var env ''ES_ENDPOINT'')]),
           (''elasticsearch'', JObj [(''created'', JArr (map JStr (fst es))), (''alreadyExisted'', JArr (map JStr (snd es)))]),
           (''postgres'', JObj [(''applied'', JArr (map JStr (fst pg))), (''alreadyApplied'', JArr (map JStr (snd pg))),
              (''migrationsTable'', JStr ''pgmigrations'')])]"

definition or_none :: "string list \<Rightarrow> string" where
  "or_none ns = ''['' @ (let t = join_with '', '' ns in if t = [] then ''none'' else t) @ '']''"

definition write_manifest :: "deploy_env \<Rightarrow> string list \<times> string list \<Rightarrow> string list \<times> string list \<Rightarrow> (deploy, unit) eff" where
  "write_manifest env es pg =
     andThen (lib_readManifest MANIFEST_PATH) (\<lambda>existing.
     andThen (writeManifest (manifest_document env existing es pg)) (\<lambda>_.
     andThen (say_pass ''manifest'' ''written to bootstrap-manifest.json'') (\<lambda>_.
     andThen (say_dim (''  ES created: '' @ or_none (fst es))) (\<lambda>_. say_dim (''  PG applied: '' @ or_none (fst pg))))))"

section \<open>Validation after the bootstrap\<close>

definition confirm_all :: "string \<Rightarrow> string \<Rightarrow> string \<Rightarrow> string list \<Rightarrow> string list \<Rightarrow> (deploy, unit) eff" where
  "confirm_all sec what hint found wanted =
     forEach (\<lambda>n. if n \<in> set found then say_pass sec (what @ '' '' @ n @ '' confirmed'') else fault sec (what @ '' '' @ n @ '' missing'' @ hint)) wanted"

definition validate_es :: "deploy_env \<Rightarrow> (deploy, unit) eff" where
  "validate_es env =
     (if \<not> has env ''ES_ENDPOINT'' \<or> \<not> has env ''ES_API_KEY''
      then say_warn ''es'' (''skipped '' @ em_dash @ '' ES_ENDPOINT or ES_API_KEY not set'')
      else andThen (esClient env) (\<lambda>_.
        forEach (\<lambda>n. andThen (call env (IndexExists n)) (\<lambda>v.
          if truthy v then say_pass ''es'' (''index '' @ n @ '' confirmed'')
          else fault ''es'' (''index '' @ n @ '' missing '' @ em_dash @ '' ES seed may have failed''))) index_names))"

definition validate_pg :: "deploy_env \<Rightarrow> bool \<Rightarrow> (deploy, unit) eff" where
  "validate_pg env esOnly =
     (if esOnly then say_warn ''pg'' (''skipped '' @ em_dash @ '' --es-only mode (Cloud SQL not reachable from local network)'')
      else if \<not> hasPgConfig env (Some (env_default (dv_env env) ''DB_ENGINE'' ''direct''))
      then say_warn ''pg'' (''skipped '' @ em_dash @ '' no PG config'')
      else andThen (openPool env) (\<lambda>_. tryFinally
        (andThen (call env PgTables) (\<lambda>t.
         andThen (confirm_all ''pg'' ''table'' ('' '' @ em_dash @ '' PG migration may have failed'') (column ''tablename'' t)
           [''job_instances'', ''job_runs'']) (\<lambda>_.
         andThen (call env PgIndexes) (\<lambda>i.
         confirm_all ''pg'' ''index'' [] (column ''indexname'' i) [''idx_job_instances_due'', ''idx_job_runs_queued'', ''idx_job_runs_instance'']))))
        (swallow (call env PgEnd))))"

definition validate_gcs :: "deploy_env \<Rightarrow> (deploy, unit) eff" where
  "validate_gcs env =
     (if \<not> has env ''JOB_ZIP_BUCKET'' then say_warn ''gcs'' (''skipped '' @ em_dash @ '' JOB_ZIP_BUCKET not set'')
      else let b = the (var env ''JOB_ZIP_BUCKET'') in
        tryCatch (andThen (call env (BucketExists b)) (\<lambda>v.
            if truthy v then say_pass ''gcs'' (''bucket '' @ quoted b @ '' accessible'') else fault ''gcs'' (''bucket '' @ quoted b @ '' not found'')))
          (\<lambda>e. say_warn ''gcs'' (''bucket check skipped '' @ em_dash @ '' credentials unavailable: '' @ e_message e)))"

section \<open>The bootstrap\<close>

text \<open>\<open>process.exit\<close> in the middle of a script: the exit code, or none to go on.\<close>

definition unless_exit :: "(deploy, nat option) eff \<Rightarrow> (deploy, nat) eff \<Rightarrow> (deploy, nat) eff" where
  "unless_exit m k = andThen m (\<lambda>r. case r of Some n \<Rightarrow> ret n | None \<Rightarrow> k)"

definition run_preflight :: "deploy_env \<Rightarrow> bool \<Rightarrow> (deploy, nat option) eff" where
  "run_preflight env skip =
     (if skip
      then andThen (say_warn ''preflight'' (''--skip-preflight set '' @ em_dash @ '' skipping connectivity checks (not recommended)'')) (\<lambda>_. ret None)
      else andThen (tryCatch (preflight env []) (\<lambda>_. ret 1)) (\<lambda>code.
           if code = 0 then andThen (say_pass ''preflight'' ''all checks passed'') (\<lambda>_. ret None)
           else andThen (fault ''preflight'' (''preflight failed '' @ em_dash @ '' resolve issues above before seeding'')) (\<lambda>_. ret (Some 1))))"

definition exit_on_failures :: "(deploy, nat option) eff" where
  "exit_on_failures = (\<lambda>s.
     if dp_failures s > 0
     then (Inr (Some 1), s\<lparr>dp_log := dp_log s @ [Fault ''seed'' (nat_text (dp_failures s) @ '' seeding step(s) failed '' @ em_dash @ '' see above'')]\<rparr>)
     else (Inr None, s))"

definition bootstrap_summary :: "bool \<Rightarrow> (deploy, nat) eff" where
  "bootstrap_summary dryRun = (\<lambda>s.
     if dp_failures s = 0
     then (Inr 0, s\<lparr>dp_log := dp_log s @ [Pass ''bootstrap'' (if dryRun then ''dry-run complete '' @ em_dash @ '' no resources were modified''
              else ''all resources provisioned and validated'')] @
            (if dryRun then [] else [Dim (''  Manifest written to bootstrap-manifest.json '' @ em_dash @ '' keep this file for teardown.'')])\<rparr>)
     else (Inr 1, s\<lparr>dp_log := dp_log s @ [Fault ''bootstrap'' (nat_text (dp_failures s) @ '' post-validation check(s) failed '' @ em_dash @
              '' infrastructure may be partially provisioned'')]\<rparr>))"

definition bootstrap_seed :: "deploy_env \<Rightarrow> string list \<Rightarrow> (deploy, (string list \<times> string list) \<times> (string list \<times> string list)) eff" where
  "bootstrap_seed env args =
     (let dryRun = (''--dry-run'' \<in> set args) in
      andThen (if ''--pg-only'' \<in> set args then andThen (say_dim ''  [--pg-only] skipping ES indices'') (\<lambda>_. ret ([], [])) else seed_es env dryRun) (\<lambda>es.
      andThen (if ''--es-only'' \<in> set args then andThen (say_dim ''  [--es-only] skipping PG migrations'') (\<lambda>_. ret ([], [])) else seed_pg env dryRun) (\<lambda>pg.
      ret (es, pg))))"

definition bootstrap_finish :: "deploy_env \<Rightarrow> string list \<Rightarrow> string list \<times> string list \<Rightarrow> string list \<times> string list \<Rightarrow> (deploy, nat) eff" where
  "bootstrap_finish env args es pg =
     (let dryRun = (''--dry-run'' \<in> set args) in
      andThen (if dryRun then ret () else write_manifest env es pg) (\<lambda>_.
      andThen (validate_es env) (\<lambda>_. andThen (validate_pg env (''--es-only'' \<in> set args)) (\<lambda>_. andThen (validate_gcs env) (\<lambda>_.
      bootstrap_summary dryRun)))))"

definition bootstrap_prod :: "deploy_env \<Rightarrow> string list \<Rightarrow> (deploy, nat) eff" where
  "bootstrap_prod env0 args =
     (let env = with_flags args env0 in (\<lambda>s.
      unless_exit (run_preflight env (''--skip-preflight'' \<in> set args))
        (andThen (bootstrap_seed env args) (\<lambda>(es, pg). unless_exit exit_on_failures (bootstrap_finish env args es pg)))
        (s\<lparr>dp_failures := 0\<rparr>)))"

section \<open>The teardown\<close>

text \<open>The value of \<open>--manifest\<close>: the argument after its first occurrence.\<close>

fun manifest_arg :: "string list \<Rightarrow> string option" where
  "manifest_arg [] = None"
| "manifest_arg (a # rest) = (if a = ''--manifest'' then (case rest of b # _ \<Rightarrow> Some b | [] \<Rightarrow> None) else manifest_arg rest)"

definition manifest_path :: "string list \<Rightarrow> string" where
  "manifest_path args = (let c = manifest_arg args in if truthy_str c then the c else MANIFEST_PATH)"

definition string_items :: "js \<Rightarrow> string list" where
  "string_items v = map js_String (rows_of v)"

definition delete_index :: "deploy_env \<Rightarrow> string \<Rightarrow> (deploy, unit) eff" where
  "delete_index env n =
     tryCatch (andThen (call env (IndexExists n)) (\<lambda>v.
         if \<not> truthy v then say_warn ''es'' (n @ '' '' @ em_dash @ '' already gone, skipped'')
         else andThen (call env (IndexDelete n)) (\<lambda>_. say_pass ''es'' (n @ '' '' @ em_dash @ '' deleted''))))
       (\<lambda>e. fault ''es'' (n @ '' '' @ em_dash @ '' delete failed: '' @ e_message e))"

definition teardown_es :: "deploy_env \<Rightarrow> string list \<Rightarrow> (deploy, unit) eff" where
  "teardown_es env esIndices =
     (if esIndices = [] then ret ()
      else tryCatch (andThen (esClient env) (\<lambda>_. andThen (forEach (delete_index env) esIndices) (\<lambda>_. say_dim (''  ES teardown complete'' @ took env))))
             (\<lambda>e. fault ''es'' (''could not connect: '' @ e_message e)))"

definition teardown_pg :: "deploy_env \<Rightarrow> js \<Rightarrow> string list \<Rightarrow> (deploy, unit) eff" where
  "teardown_pg env menv pgMigrations =
     (let hasPg = (if js_prop menv ''dbEngine'' = JStr ''cloud-sql''
                   then truthy (js_prop menv ''dbInstanceConnectionName'') \<and> has env ''DB_USER'' \<and> has env ''DB_NAME''
                   else has env ''DATABASE_URL'') in
      if pgMigrations = [] then ret ()
      else if \<not> hasPg
      then (\<lambda>s. (Inr (), s\<lparr>dp_log := dp_log s @ [Warn ''pg'' (''DB connection vars not in environment '' @ em_dash @
             '' cannot roll back. Set the same vars used during bootstrap.'')], dp_failures := Suc (dp_failures s)\<rparr>))
      else tryCatch
        (andThen (openPool env) (\<lambda>_.
         andThen (tryFinally (andThen (call env (PgMigrateDown (length pgMigrations))) (\<lambda>_.
                    say_pass ''pg'' (nat_text (length pgMigrations) @ '' migration(s) rolled back''))) (swallow (call env PgEnd))) (\<lambda>_.
         say_dim (''  PG teardown complete'' @ took env))))
        (\<lambda>e. fault ''pg'' (''rollback failed: '' @ e_message e)))"

text \<open>\<open>manifestPath.replace(/\.json$/, ...)\<close>.\<close>

definition archive_path :: "deploy_env \<Rightarrow> string \<Rightarrow> string" where
  "archive_path env p =
     (if endsWith p ''.json'' then take (length p - 5) p @ ''.torn-down-'' @ dv_stamp env @ ''.json'' else p)"

definition archive_manifest :: "deploy_env \<Rightarrow> string \<Rightarrow> (deploy, nat) eff" where
  "archive_manifest env p = (\<lambda>s.
     if dp_failures s = 0
     then (Inr 0, s\<lparr>dp_files := (dp_files s)(p := None, archive_path env p := dp_files s p), dp_log := dp_log s @
             [Pass ''manifest'' (''archived to '' @ last (split_on (CHR ''/'') (archive_path env p))), Dim ''  Run bootstrap-prod.js again to re-provision.'',
              Pass ''teardown'' ''all resources removed successfully'']\<rparr>)
     else (Inr 1, s\<lparr>dp_log := dp_log s @
             [Warn ''manifest'' (''manifest kept (teardown had failures) '' @ em_dash @ '' re-run after fixing issues''),
              Fault ''teardown'' (nat_text (dp_failures s) @ '' step(s) failed '' @ em_dash @ '' some resources may still exist'')]\<rparr>))"

definition removal_question :: "string list \<Rightarrow> string list \<Rightarrow> string" where
  "removal_question esIndices pgMigrations = ''This will DELETE '' @ nat_text (length esIndices) @ '' ES index(es) and roll back '' @
     nat_text (length pgMigrations) @ '' PG migration(s). Continue?''"

text \<open>The lines of the plan that name what stays.\<close>

definition kept_lines :: "js \<Rightarrow> report list" where
  "kept_lines manifest =
     (let skippedEs = string_items (js_prop (js_prop manifest ''elasticsearch'') ''alreadyExisted'');
          skippedPg = string_items (js_prop (js_prop manifest ''postgres'') ''alreadyApplied'') in
      (if skippedEs \<noteq> [] then [Dim (''  ES indices NOT deleted (existed before bootstrap): '' @ join_with '', '' skippedEs)] else []) @
      (if skippedPg \<noteq> [] then [Dim (''  PG migrations NOT rolled back (existed before bootstrap): '' @ join_with '', '' skippedPg)] else []))"

definition log_lines :: "report list \<Rightarrow> (deploy, unit) eff" where
  "log_lines rs = (\<lambda>s. (Inr (), s\<lparr>dp_log := dp_log s @ rs\<rparr>))"

text \<open>The plan and the removal, once the manifest is read.\<close>

definition teardown_manifest :: "deploy_env \<Rightarrow> string list \<Rightarrow> string \<Rightarrow> js \<Rightarrow> (deploy, nat) eff" where
  "teardown_manifest env args p manifest =
     (if js_prop manifest ''schemaVersion'' \<noteq> JInt 1
      then andThen (say (Fault ''teardown'' (''unknown manifest schemaVersion: '' @ js_String (js_prop manifest ''schemaVersion'')))) (\<lambda>_. ret 1)
      else if nullish (js_prop manifest ''environment'')
      then throw (newError ''Cannot read properties of undefined (reading 'gcpProjectId')'')
      else
        let esIndices = string_items (js_prop (js_prop manifest ''elasticsearch'') ''created'');
            pgMigrations = string_items (js_prop (js_prop manifest ''postgres'') ''applied'') in
        if esIndices = [] \<and> pgMigrations = []
        then andThen (say_warn ''teardown'' (''Manifest shows nothing was created by bootstrap '' @ em_dash @ '' nothing to do.'')) (\<lambda>_. ret 0)
        else andThen (log_lines (kept_lines manifest)) (\<lambda>_.
          if ''--dry-run'' \<in> set args then ret 0
          else andThen (if ''--force'' \<in> set args then ret (JBool True) else call env (Confirm (removal_question esIndices pgMigrations))) (\<lambda>ok.
            if \<not> truthy ok then ret 0
            else andThen (teardown_es env esIndices) (\<lambda>_.
                 andThen (teardown_pg env (js_prop manifest ''environment'') pgMigrations) (\<lambda>_. archive_manifest env p)))))"

definition teardown :: "deploy_env \<Rightarrow> string list \<Rightarrow> (deploy, nat) eff" where
  "teardown env args =
     (let p = manifest_path args in (\<lambda>s.
      let s0 = s\<lparr>dp_failures := 0\<rparr> in
      case dp_files s p of
        None \<Rightarrow> (Inr 1, s0\<lparr>dp_log := dp_log s @ [Fault ''teardown'' (''manifest not found: '' @ p)]\<rparr>)
      | Some (Inl e) \<Rightarrow> (Inl e, s0)
      | Some (Inr manifest) \<Rightarrow>
          if nullish manifest then (Inl (newError ''Cannot read properties of null (reading 'schemaVersion')''), s0)
          else teardown_manifest env args p manifest s0))"

section \<open>The simple bootstrap\<close>

text \<open>The index loop of \<open>bootstrap.js\<close> and of \<open>bootstrap-es-indices.js\<close>; \<open>line\<close> prints what happened to an index.\<close>

definition ensure_index :: "deploy_env \<Rightarrow> (string \<Rightarrow> string \<Rightarrow> report) \<Rightarrow> bool \<Rightarrow> string \<Rightarrow> (deploy, unit) eff" where
  "ensure_index env line dryRun n =
     andThen (call env (IndexExists n)) (\<lambda>v.
     if truthy v then say (line ''skip'' n)
     else if dryRun then say (line ''dry-run'' n)
     else andThen (call env (IndexCreate n)) (\<lambda>_. say (line ''created'' n)))"

definition bootstrap_line :: "string \<Rightarrow> string \<Rightarrow> report" where
  "bootstrap_line k n = Pass ''es'' (n @ '' '' @ em_dash @ (if k = ''skip'' then '' already exists, skipped'' else if k = ''dry-run''
     then '' would create (dry-run)'' else '' created''))"

definition bootstrapEs :: "deploy_env \<Rightarrow> bool \<Rightarrow> (deploy, unit) eff" where
  "bootstrapEs env dryRun =
     (if is_local env then say (Pass ''es'' (''skipped '' @ em_dash @ '' APP_MODE=local uses SQLite, no ES required''))
      else let m = missing (dv_env env) [''ES_ENDPOINT'', ''ES_API_KEY''] in
        if m \<noteq> [] then say (Warn ''warn'' (''skipping ES bootstrap '' @ em_dash @ '' missing env vars: '' @ join_with '', '' m))
        else andThen (say (Pass ''es'' ''connecting...'')) (\<lambda>_. andThen (esClient env) (\<lambda>_.
             forEach (ensure_index env bootstrap_line dryRun) index_names)))"

definition bootstrapPg :: "deploy_env \<Rightarrow> bool \<Rightarrow> (deploy, unit) eff" where
  "bootstrapPg env dryRun =
     (if is_local env then say (Pass ''pg'' (''skipped '' @ em_dash @ '' APP_MODE=local uses SQLite, no Postgres required''))
      else if \<not> hasPgConfig env (Some (env_default (dv_env env) ''DB_ENGINE'' ''direct''))
      then say (Warn ''warn'' (''skipping Postgres migrations '' @ em_dash @ '' DB connection vars not set''))
      else if dryRun then say (Pass ''pg'' (''would apply migrations (dry-run): '' @ join_with '', '' (dv_migrations env)))
      else andThen (say (Pass ''pg'' ''running migrations via node-pg-migrate...'')) (\<lambda>_. andThen (openPool env) (\<lambda>_.
           tryFinally (andThen (call env PgMigrateUp) (\<lambda>_. say (Pass ''pg'' ''migrations complete'')))
             (andThen (call env PgEnd) (\<lambda>_. ret ())))))"

text \<open>\<open>createDb\<close> opens and closes the SQLite database of the local mode, creating its tables.\<close>

definition bootstrapLocal :: "deploy_env \<Rightarrow> (string \<Rightarrow> js_error + unit) \<Rightarrow> bool \<Rightarrow> (deploy, unit) eff" where
  "bootstrapLocal env createDb dryRun =
     (let dataDir = env_default (dv_env env) ''LOCAL_DATA_DIR'' ''.local-data'' in
      if \<not> is_local env then ret ()
      else if dryRun then say (Pass ''local'' (''would initialise SQLite DB at '' @ dataDir @ ''/scheduler.db (dry-run)''))
      else case createDb dataDir of Inl e \<Rightarrow> throw e | Inr _ \<Rightarrow> say (Pass ''local'' (''SQLite DB ready at '' @ dataDir @ ''/scheduler.db'')))"

definition bootstrap :: "deploy_env \<Rightarrow> (string \<Rightarrow> js_error + unit) \<Rightarrow> string list \<Rightarrow> (deploy, unit) eff" where
  "bootstrap env0 createDb args =
     (let env = with_flags args env0; dryRun = (''--dry-run'' \<in> set args) in
      if is_local env then bootstrapLocal env createDb dryRun
      else andThen (if ''--pg-only'' \<in> set args then ret () else bootstrapEs env dryRun) (\<lambda>_.
           if ''--es-only'' \<in> set args then ret () else bootstrapPg env dryRun))"

definition bootstrap_es_indices :: "deploy_env \<Rightarrow> string list \<Rightarrow> (deploy, unit) eff" where
  "bootstrap_es_indices env args =
     andThen (esClient env) (\<lambda>_. forEach (ensure_index env (\<lambda>k n. Dim (if k = ''skip'' then ''[skip] '' @ n @ '' already exists''
       else if k = ''dry-run'' then ''[dry-run] would create '' @ n else ''[created] '' @ n)) (''--dry-run'' \<in> set args)) index_names)"

section \<open>What the services hold\<close>

text \<open>The indices and the applied migrations after some calls, given those before; \<open>files\<close> are all migrations, in their order.\<close>

fun index_step :: "deploy_call \<Rightarrow> string set \<Rightarrow> string set" where
  "index_step (IndexCreate n) I = insert n I"
| "index_step (IndexDelete n) I = I - {n}"
| "index_step _ I = I"

fun migration_step :: "string list \<Rightarrow> deploy_call \<Rightarrow> string list \<Rightarrow> string list" where
  "migration_step files PgMigrateUp M = M @ filter (\<lambda>f. f \<notin> set M) files"
| "migration_step files (PgMigrateDown k) M = take (length M - k) M"
| "migration_step files _ M = M"

definition world :: "string list \<Rightarrow> string set \<times> string list \<Rightarrow> deploy_call list \<Rightarrow> string set \<times> string list" where
  "world files w cs = (fold index_step cs (fst w), fold (migration_step files) cs (snd w))"

text \<open>
  Services that do what they are asked: an index exists when it was created and not deleted since, creations, deletions
  and migrations succeed, and the migrations table lists the applied ones. It may be missing while there are none.
\<close>

definition healthy :: "deploy_env \<Rightarrow> string list \<Rightarrow> string set \<times> string list \<Rightarrow> bool" where
  "healthy env files w \<longleftrightarrow> (\<forall>h.
     (\<forall>n. dv_reply env h (IndexExists n) = Inr (JBool (n \<in> fst (world files w h)))) \<and>
     (\<forall>c. (\<exists>n. c = IndexCreate n \<or> c = IndexDelete n) \<or> c = PgMigrateUp \<or> (\<exists>k. c = PgMigrateDown k) \<longrightarrow> \<not> isl (dv_reply env h c)) \<and>
     (case dv_reply env h PgMigrations of
        Inr r \<Rightarrow> column ''name'' r = snd (world files w h)
      | Inl _ \<Rightarrow> snd (world files w h) = []))"

fun harmless :: "deploy_call \<Rightarrow> bool" where
  "harmless (IndexCreate _) = False"
| "harmless (IndexDelete _) = False"
| "harmless PgMigrateUp = False"
| "harmless (PgMigrateDown _) = False"
| "harmless _ = True"

text \<open>The relation the checks keep: the files stay, and so do the services' contents, if no index has the name of the probe.\<close>

definition unchanged :: "deploy_env \<Rightarrow> string list \<Rightarrow> string set \<times> string list \<Rightarrow> deploy \<Rightarrow> deploy \<Rightarrow> bool" where
  "unchanged env files w s s' \<longleftrightarrow> dp_files s' = dp_files s \<and>
     (probe_index env \<notin> fst (world files w (dp_calls s)) \<longrightarrow> world files w (dp_calls s') = world files w (dp_calls s))"

lemma unchanged_refl: "reflp (unchanged env files w)"
  by (simp add: reflp_def unchanged_def)

lemma unchanged_trans: "transp (unchanged env files w)"
  by (auto simp: transp_def unchanged_def)

lemma world_append: "world files w (cs @ ds) = world files (world files w cs) ds"
  by (simp add: world_def)

lemma world_harmless: "harmless c \<Longrightarrow> world files w (cs @ [c]) = world files w cs"
  by (cases c) (simp_all add: world_def)

lemma keeps_call: "harmless c \<Longrightarrow> keeps (unchanged env files w) (call env c)"
  by (simp add: keeps_def unchanged_def call_def world_harmless)

lemma keeps_say: "keeps (unchanged env files w) (say r)" "keeps (unchanged env files w) (fault sec msg)"
  "keeps (unchanged env files w) (say_pass sec msg)" "keeps (unchanged env files w) (say_warn sec msg)" "keeps (unchanged env files w) (say_dim msg)"
  by (simp_all add: keeps_def unchanged_def say_def fault_def say_pass_def say_warn_def say_dim_def)

lemmas keeps_parts = keeps_ret [OF unchanged_refl] keeps_throw [OF unchanged_refl] keeps_andThen [OF unchanged_trans]
  keeps_tryCatch [OF unchanged_trans] keeps_tryFinally [OF unchanged_trans] keeps_forEach [OF unchanged_refl unchanged_trans]
  keeps_say keeps_call

lemma keeps_small: "keeps (unchanged env files w) (openPool env)" "keeps (unchanged env files w) (esClient env)"
  "keeps (unchanged env files w) (response_json r)" "keeps (unchanged env files w) (report_all rs)"
  "keeps (unchanged env files w) (lib_readManifest p)"
  by (auto simp: openPool_def esClient_def response_json_def report_all_def lib_readManifest_def split: sum.split report.split
      intro!: keeps_parts) (simp_all add: keeps_def unchanged_def)

lemma keeps_swallow: "harmless c \<Longrightarrow> keeps (unchanged env files w) (swallow (call env c))"
  by (auto simp: swallow_def intro!: keeps_parts)

text \<open>The probe index is gone when the preflight goes on.\<close>

lemma keeps_probe:
  assumes "healthy env files w"
  shows "keeps (unchanged env files w) (tryCatch (andThen (call env (IndexCreate (probe_index env))) (\<lambda>_.
     andThen (call env (IndexDelete (probe_index env))) (\<lambda>_. say_pass sec msg))) h)"
  unfolding keeps_def
proof
  fix s :: deploy
  have "\<not> isl (dv_reply env (dp_calls s) (IndexCreate (probe_index env)))"
    "\<not> isl (dv_reply env (dp_calls s @ [IndexCreate (probe_index env)]) (IndexDelete (probe_index env)))"
    using assms unfolding healthy_def by blast+
  then show "unchanged env files w s (snd (tryCatch (andThen (call env (IndexCreate (probe_index env))) (\<lambda>_.
     andThen (call env (IndexDelete (probe_index env))) (\<lambda>_. say_pass sec msg))) h s))"
    by (auto simp: tryCatch_def andThen_def call_def say_pass_def say_def unchanged_def world_def split: sum.split)
qed

lemma keeps_preflight_parts:
  assumes "healthy env files w"
  shows "keeps (unchanged env files w) (preflight_es env)" "keeps (unchanged env files w) (preflight_pg env)"
    "keeps (unchanged env files w) (preflight_gcs env)" "keeps (unchanged env files w) (preflight_worker env)"
    "keeps (unchanged env files w) (preflight_sm env)" "keeps (unchanged env files w) (preflight_jwks env)"
proof -
  show "keeps (unchanged env files w) (preflight_es env)"
    unfolding preflight_es_def by (auto intro!: keeps_probe [OF assms] keeps_parts keeps_small)
  have q: "keeps (unchanged env files w) (preflight_pg_queries env)"
    unfolding preflight_pg_queries_def Let_def by (auto intro!: keeps_parts split: js.split)
  show "keeps (unchanged env files w) (preflight_pg env)"
    unfolding preflight_pg_def Let_def by (auto intro!: q keeps_swallow keeps_parts split: sum.split)
  show "keeps (unchanged env files w) (preflight_gcs env)"
    unfolding preflight_gcs_def Let_def by (auto intro!: keeps_parts)
  show "keeps (unchanged env files w) (preflight_worker env)"
    unfolding preflight_worker_def Let_def by (auto intro!: keeps_parts keeps_small)
  show "keeps (unchanged env files w) (preflight_sm env)"
    unfolding preflight_sm_def Let_def by (auto intro!: keeps_parts)
  have "keeps (unchanged env files w) (discover_jwks env issuer)" for issuer
    unfolding discover_jwks_def Let_def by (auto intro!: keeps_parts keeps_small)
  then show "keeps (unchanged env files w) (preflight_jwks env)"
    unfolding preflight_jwks_def Let_def by (auto intro!: keeps_parts keeps_small)
qed

lemma keeps_preflight_checks:
  assumes "healthy env files w"
  shows "keeps (unchanged env files w) (preflight_checks env)"
  unfolding preflight_checks_def by (auto intro!: keeps_preflight_parts [OF assms] keeps_parts keeps_small)

lemma with_flags_none: "with_flags [] env = env"
  by (simp add: with_flags_def applyCliDefaults_def seed_var_def)

lemma keeps_preflight:
  assumes "healthy env files w"
  shows "keeps (unchanged env files w) (preflight env [])"
  unfolding keeps_def
proof
  fix s :: deploy
  have "unchanged env files w (s\<lparr>dp_failures := 0\<rparr>) (snd (preflight_checks env (s\<lparr>dp_failures := 0\<rparr>)))"
    using keeps_preflight_checks [OF assms] unfolding keeps_def by blast
  then show "unchanged env files w s (snd (preflight env [] s))"
    by (auto simp: preflight_def with_flags_none unchanged_def split: prod.splits sum.splits)
qed

lemma keeps_run_preflight:
  assumes "healthy env files w"
  shows "keeps (unchanged env files w) (run_preflight env skip)"
  unfolding run_preflight_def by (auto intro!: keeps_preflight [OF assms] keeps_parts)

lemma keeps_validations: "keeps (unchanged env files w) (validate_es env)" "keeps (unchanged env files w) (validate_pg env b)"
  "keeps (unchanged env files w) (validate_gcs env)" "keeps (unchanged env files w) (bootstrap_summary d)"
  "keeps (unchanged env files w) exit_on_failures"
proof -
  show "keeps (unchanged env files w) (validate_es env)"
    unfolding validate_es_def by (auto intro!: keeps_parts keeps_small)
  show "keeps (unchanged env files w) (validate_pg env b)"
    unfolding validate_pg_def confirm_all_def by (auto intro!: keeps_swallow keeps_parts keeps_small)
  show "keeps (unchanged env files w) (validate_gcs env)"
    unfolding validate_gcs_def Let_def by (auto intro!: keeps_parts)
qed (simp_all add: keeps_def unchanged_def bootstrap_summary_def exit_on_failures_def)

section \<open>Seeding changes what it reports\<close>

lemma andThen_InrE:
  assumes "andThen m k s = (Inr b, s')"
  obtains a s1 where "m s = (Inr a, s1)" "k a s1 = (Inr b, s')"
  using assms by (auto simp: andThen_def split: prod.splits sum.splits)

lemma say_run: "say r s = (Inr (), s\<lparr>dp_log := dp_log s @ [r]\<rparr>)" "say_pass sec msg s = (Inr (), s\<lparr>dp_log := dp_log s @ [Pass sec msg]\<rparr>)"
  "say_dim msg s = (Inr (), s\<lparr>dp_log := dp_log s @ [Dim msg]\<rparr>)"
  by (simp_all add: say_def say_pass_def say_dim_def)

lemma noise_run:
  "forEach (\<lambda>n. say_dim (f n)) ns t = (r, t') \<Longrightarrow> dp_calls t' = dp_calls t \<and> dp_files t' = dp_files t"
  "forEach (\<lambda>n. say_pass sec (f n)) ns t = (r, t') \<Longrightarrow> dp_calls t' = dp_calls t \<and> dp_files t' = dp_files t"
  by (induction ns arbitrary: t) (auto simp: ret_def andThen_def say_run)

lemma healthyD:
  assumes "healthy env files w"
  shows "call env (IndexExists n) s = (Inr (JBool (n \<in> fst (world files w (dp_calls s)))), s\<lparr>dp_calls := dp_calls s @ [IndexExists n]\<rparr>)"
    and "\<exists>v. call env (IndexCreate n) s = (Inr v, s\<lparr>dp_calls := dp_calls s @ [IndexCreate n]\<rparr>)"
    and "\<exists>v. call env (IndexDelete n) s = (Inr v, s\<lparr>dp_calls := dp_calls s @ [IndexDelete n]\<rparr>)"
    and "\<exists>v. call env (PgMigrateDown k) s = (Inr v, s\<lparr>dp_calls := dp_calls s @ [PgMigrateDown k]\<rparr>)"
proof -
  have ok: "\<not> isl (dv_reply env (dp_calls s) (IndexCreate n))" "\<not> isl (dv_reply env (dp_calls s) (IndexDelete n))"
    "\<not> isl (dv_reply env (dp_calls s) (PgMigrateDown k))"
    using assms unfolding healthy_def by blast+
  show "call env (IndexExists n) s = (Inr (JBool (n \<in> fst (world files w (dp_calls s)))), s\<lparr>dp_calls := dp_calls s @ [IndexExists n]\<rparr>)"
    using assms by (simp add: call_def healthy_def)
  show "\<exists>v. call env (IndexCreate n) s = (Inr v, s\<lparr>dp_calls := dp_calls s @ [IndexCreate n]\<rparr>)"
    "\<exists>v. call env (IndexDelete n) s = (Inr v, s\<lparr>dp_calls := dp_calls s @ [IndexDelete n]\<rparr>)"
    "\<exists>v. call env (PgMigrateDown k) s = (Inr v, s\<lparr>dp_calls := dp_calls s @ [PgMigrateDown k]\<rparr>)"
    using ok by (auto simp: call_def isl_def dest: sumE) (metis Inl_Inr_False sum.exhaust_sel sum.collapse(2))+
qed

lemma healthy_migrations:
  assumes "healthy env files w"
  shows "dv_reply env h PgMigrations = Inr r \<Longrightarrow> column ''name'' r = snd (world files w h)"
    and "dv_reply env h PgMigrations = Inl e \<Longrightarrow> snd (world files w h) = []"
proof -
  have "case dv_reply env h PgMigrations of Inr r \<Rightarrow> column ''name'' r = snd (world files w h) | Inl _ \<Rightarrow> snd (world files w h) = []"
    using assms unfolding healthy_def by blast
  then show "dv_reply env h PgMigrations = Inr r \<Longrightarrow> column ''name'' r = snd (world files w h)"
    "dv_reply env h PgMigrations = Inl e \<Longrightarrow> snd (world files w h) = []" by simp_all
qed

lemma seed_indices_result:
  assumes "healthy env files w" "seed_indices env ns s = (Inr (cr, ex), s')"
  shows "dp_files s' = dp_files s \<and> set cr \<subseteq> set ns - fst (world files w (dp_calls s)) \<and>
    world files w (dp_calls s') = (fst (world files w (dp_calls s)) \<union> set cr, snd (world files w (dp_calls s)))"
  using assms(2)
proof (induction ns arbitrary: s cr ex)
  case (Cons n ns)
  let ?I = "fst (world files w (dp_calls s))"
  let ?s1 = "s\<lparr>dp_calls := dp_calls s @ [IndexExists n]\<rparr>"
  have w1: "world files w (dp_calls ?s1) = world files w (dp_calls s)" by (simp add: world_harmless)
  show ?case
  proof (cases "n \<in> ?I")
    case True
    with Cons.prems obtain ex' where "seed_indices env ns (?s1\<lparr>dp_log := dp_log s @ [Pass ''es'' (n @ '' '' @ em_dash @ '' already exists, skipped'')]\<rparr>) = (Inr (cr, ex'), s')"
      by (auto simp: healthyD(1) [OF assms(1)] andThen_def say_run ret_def split: prod.splits sum.splits)
    from Cons.IH [OF this] show ?thesis by (auto simp: world_harmless)
  next
    case False
    obtain v where v: "call env (IndexCreate n) ?s1 = (Inr v, ?s1\<lparr>dp_calls := dp_calls ?s1 @ [IndexCreate n]\<rparr>)"
      using healthyD(2) [OF assms(1)] by blast
    from Cons.prems False v obtain cr' where c: "cr = n # cr'"
      "seed_indices env ns (?s1\<lparr>dp_calls := dp_calls ?s1 @ [IndexCreate n], dp_log := dp_log s @ [Pass ''es'' (n @ '' '' @ em_dash @ '' created'')]\<rparr>) = (Inr (cr', ex), s')"
      by (auto simp: healthyD(1) [OF assms(1)] andThen_def say_run ret_def split: prod.splits sum.splits)
    have "world files w (dp_calls s @ [IndexExists n, IndexCreate n]) = (insert n ?I, snd (world files w (dp_calls s)))"
      by (simp add: world_def)
    with Cons.IH [OF c(2)] c(1) False show ?thesis by auto
  qed
qed (simp add: ret_def)

lemma seed_es_result:
  assumes "healthy env files w" "seed_es env d s = (Inr (cr, ex), s')"
  shows "dp_files s' = dp_files s \<and> set cr \<subseteq> set index_names - fst (world files w (dp_calls s)) \<and>
    world files w (dp_calls s') = (fst (world files w (dp_calls s)) \<union> set cr, snd (world files w (dp_calls s))) \<and>
    (cr \<noteq> [] \<longrightarrow> \<not> isl (getConfig (dv_env env)))"
proof (cases "d \<or> \<not> (has env ''ES_ENDPOINT'' \<and> has env ''ES_API_KEY'')")
  case True
  then show ?thesis using assms(2)
    by (auto simp: seed_es_def ret_def fault_def split: if_splits elim!: andThen_InrE dest!: noise_run)
next
  case False
  then obtain t where "seed_indices env index_names s = (Inr (cr, ex), t)" "dp_calls s' = dp_calls t" "dp_files s' = dp_files t"
    "\<not> isl (getConfig (dv_env env))"
    using assms(2) by (auto simp: seed_es_def esClient_def say_run throw_def ret_def split: sum.splits elim!: andThen_InrE)
  with seed_indices_result [OF assms(1)] show ?thesis by metis
qed

lemma run_migrations_run:
  assumes "run_migrations env before s = (Inr (ap, al), s')"
  shows "\<exists>r. dv_reply env (dp_calls s @ [PgMigrateUp]) PgMigrations = Inr r \<and> ap = filter (\<lambda>n. n \<notin> set before) (column ''name'' r) \<and>
    dp_calls s' = dp_calls s @ [PgMigrateUp, PgMigrations] \<and> dp_files s' = dp_files s"
proof -
  let ?s1 = "s\<lparr>dp_calls := dp_calls s @ [PgMigrateUp]\<rparr>"
  let ?s2 = "s\<lparr>dp_calls := dp_calls s @ [PgMigrateUp, PgMigrations]\<rparr>"
  define show_new where "show_new ns = forEach (\<lambda>n. say_pass ''pg'' (n @ '' '' @ em_dash @ '' applied'')) ns" for ns
  define show_old where "show_old ns = (if ns \<noteq> [] then say_pass ''pg'' (nat_text (length ns) @ '' migration(s) already applied, skipped'') else ret ())" for ns :: "string list"
  have new: "dp_calls t' = dp_calls t \<and> dp_files t' = dp_files t" if "show_new ns t = (r, t')" for ns t r t'
    by (rule noise_run(2) [OF that [unfolded show_new_def]])
  have old: "dp_calls t' = dp_calls t \<and> dp_files t' = dp_files t" if "show_old ns t = (r, t')" for ns :: "string list" and t r t'
    using that by (auto simp: show_old_def say_run ret_def split: if_splits)
  obtain v where "dv_reply env (dp_calls s) PgMigrateUp = Inr v"
    using assms by (cases "dv_reply env (dp_calls s) PgMigrateUp") (simp_all add: run_migrations_def andThen_def call_def)
  with assms have 2: "andThen (call env PgMigrations) (\<lambda>r. let names = column ''name'' r; new = filter (\<lambda>n. n \<notin> set before) names;
      old = filter (\<lambda>n. n \<in> set before) names in andThen (show_new new) (\<lambda>_. andThen (show_old old) (\<lambda>_. ret (new, old)))) ?s1 = (Inr (ap, al), s')"
    unfolding show_new_def show_old_def by (simp add: run_migrations_def andThen_def call_def)
  then obtain r where r: "dv_reply env (dp_calls s @ [PgMigrateUp]) PgMigrations = Inr r"
    by (cases "dv_reply env (dp_calls s @ [PgMigrateUp]) PgMigrations") (simp_all add: andThen_def call_def)
  define nw where "nw = filter (\<lambda>n. n \<notin> set before) (column ''name'' r)"
  define ol where "ol = filter (\<lambda>n. n \<in> set before) (column ''name'' r)"
  from 2 r have "andThen (show_new nw) (\<lambda>_. andThen (show_old ol) (\<lambda>_. ret (nw, ol))) ?s2 = (Inr (ap, al), s')"
    unfolding nw_def ol_def by (simp add: andThen_def call_def Let_def)
  then obtain t where "show_new nw ?s2 = (Inr (), t)" "show_old ol t = (Inr (), s')" "ap = nw"
    by (auto simp: ret_def elim!: andThen_InrE)
  with new old r show ?thesis unfolding nw_def by fastforce
qed

text \<open>A migration run reports exactly the migrations it added.\<close>

lemma run_migrations_result:
  assumes "healthy env files w" "run_migrations env (snd (world files w (dp_calls s))) s = (Inr (ap, al), s')"
  shows "dp_files s' = dp_files s \<and>
    world files w (dp_calls s') = (fst (world files w (dp_calls s)), snd (world files w (dp_calls s)) @ ap)"
proof -
  let ?M = "snd (world files w (dp_calls s))" and ?h = "dp_calls s @ [PgMigrateUp]"
  obtain r where r: "dv_reply env ?h PgMigrations = Inr r" "ap = filter (\<lambda>n. n \<notin> set ?M) (column ''name'' r)"
    and s': "dp_calls s' = dp_calls s @ [PgMigrateUp, PgMigrations]" "dp_files s' = dp_files s"
    using run_migrations_run [OF assms(2)] by blast
  have h: "world files w ?h = (fst (world files w (dp_calls s)), ?M @ filter (\<lambda>f. f \<notin> set ?M) files)" by (simp add: world_def)
  have "column ''name'' r = snd (world files w ?h)"
    by (rule healthy_migrations(1) [OF assms(1) r(1)])
  with r(2) h have "ap = filter (\<lambda>f. f \<notin> set ?M) files" by (simp add: filter_empty_conv)
  then show ?thesis by (simp add: s' world_def)
qed

lemma swallow_call: "swallow (call env c) s = (Inr (), s\<lparr>dp_calls := dp_calls s @ [c]\<rparr>)"
  by (simp add: swallow_def tryCatch_def andThen_def call_def ret_def split: sum.split)

lemma tryFinally_end:
  assumes "tryFinally m (swallow (call env c)) s = (Inr a, s')"
  obtains t where "m s = (Inr a, t)" "s' = t\<lparr>dp_calls := dp_calls t @ [c]\<rparr>"
  using assms by (auto simp: tryFinally_def swallow_call split: prod.splits)

lemma applied_before:
  assumes "healthy env files w"
  shows "tryCatch (andThen (call env PgMigrations) (\<lambda>r. ret (column ''name'' r))) (\<lambda>_. ret []) s =
    (Inr (snd (world files w (dp_calls s))), s\<lparr>dp_calls := dp_calls s @ [PgMigrations]\<rparr>)"
  using healthy_migrations [OF assms, of "dp_calls s"]
  by (cases "dv_reply env (dp_calls s) PgMigrations") (simp_all add: tryCatch_def andThen_def call_def ret_def)

lemma seed_pg_result:
  assumes "healthy env files w" "seed_pg env d s = (Inr (ap, al), s')"
  defines "hasPg \<equiv> hasPgConfig env (Some (env_default (dv_env env) ''DB_ENGINE'' ''direct''))"
  shows "dp_files s' = dp_files s \<and>
    world files w (dp_calls s') = (fst (world files w (dp_calls s)), snd (world files w (dp_calls s)) @ ap) \<and>
    (ap \<noteq> [] \<longrightarrow> hasPg \<and> \<not> isl (createPgPool (dv_access env) (dv_connector env) (dv_env env)))"
proof (cases "d \<or> \<not> hasPg")
  case True
  then show ?thesis using assms(2) unfolding seed_pg_def Let_def hasPg_def [symmetric]
    by (auto simp: ret_def fault_def say_warn_def say_def say_dim_def split: if_splits elim!: andThen_InrE)
next
  case False
  let ?M = "snd (world files w (dp_calls s))" and ?s1 = "s\<lparr>dp_calls := dp_calls s @ [PgMigrations]\<rparr>"
  from False assms(2) obtain p t where p: "createPgPool (dv_access env) (dv_connector env) (dv_env env) = Inr p"
    and t: "tryFinally (run_migrations env ?M) (swallow (call env PgEnd)) ?s1 = (Inr (ap, al), t)"
    and u: "dp_calls s' = dp_calls t" "dp_files s' = dp_files t"
    unfolding seed_pg_def Let_def hasPg_def [symmetric]
    by (auto simp: openPool_def ret_def throw_def applied_before [OF assms(1), unfolded ret_def] say_run split: sum.splits elim!: andThen_InrE)
  from t obtain v where v: "run_migrations env ?M ?s1 = (Inr (ap, al), v)" "t = v\<lparr>dp_calls := dp_calls v @ [PgEnd]\<rparr>"
    by (rule tryFinally_end)
  have w: "world files w (dp_calls ?s1) = world files w (dp_calls s)" by (simp add: world_harmless)
  have "dp_files v = dp_files s \<and> world files w (dp_calls v) = (fst (world files w (dp_calls s)), ?M @ ap)"
    using run_migrations_result [OF assms(1), of ?s1, unfolded w, OF v(1)] by simp
  then show ?thesis using u v(2) p False by (simp add: world_harmless)
qed

lemma bootstrap_seed_result:
  assumes "healthy env files w" "bootstrap_seed env args s = (Inr ((cr, ex), (ap, al)), s')"
  shows "dp_files s' = dp_files s \<and> set cr \<subseteq> set index_names - fst (world files w (dp_calls s)) \<and>
    world files w (dp_calls s') = (fst (world files w (dp_calls s)) \<union> set cr, snd (world files w (dp_calls s)) @ ap) \<and>
    (cr \<noteq> [] \<longrightarrow> \<not> isl (getConfig (dv_env env))) \<and>
    (ap \<noteq> [] \<longrightarrow> hasPgConfig env (Some (env_default (dv_env env) ''DB_ENGINE'' ''direct'')) \<and>
       \<not> isl (createPgPool (dv_access env) (dv_connector env) (dv_env env)))"
proof -
  have skip: "dp_files t' = dp_files t \<and> dp_calls t' = dp_calls t \<and> a = []"
    if "andThen (say_dim msg) (\<lambda>_. ret ([], [])) t = (Inr (a, b), t')" for msg a b and t t' :: deploy
    using that by (auto simp: andThen_def say_run ret_def)
  from assms(2) obtain t where t: "(if ''--pg-only'' \<in> set args then andThen (say_dim ''  [--pg-only] skipping ES indices'') (\<lambda>_. ret ([], []))
       else seed_es env (''--dry-run'' \<in> set args)) s = (Inr (cr, ex), t)"
    and t': "(if ''--es-only'' \<in> set args then andThen (say_dim ''  [--es-only] skipping PG migrations'') (\<lambda>_. ret ([], []))
       else seed_pg env (''--dry-run'' \<in> set args)) t = (Inr (ap, al), s')"
    unfolding bootstrap_seed_def Let_def by (auto simp: ret_def elim!: andThen_InrE)
  have es: "dp_files t = dp_files s \<and> set cr \<subseteq> set index_names - fst (world files w (dp_calls s)) \<and>
    world files w (dp_calls t) = (fst (world files w (dp_calls s)) \<union> set cr, snd (world files w (dp_calls s))) \<and>
    (cr \<noteq> [] \<longrightarrow> \<not> isl (getConfig (dv_env env)))"
  proof (cases "''--pg-only'' \<in> set args")
    case True then show ?thesis using t skip by fastforce
  next
    case False then show ?thesis using t seed_es_result [OF assms(1)] by simp
  qed
  show ?thesis
  proof (cases "''--es-only'' \<in> set args")
    case True then show ?thesis using t' es skip by fastforce
  next
    case False then show ?thesis using t' es seed_pg_result [OF assms(1)] by simp
  qed
qed

section \<open>The teardown undoes it\<close>

lemma delete_indices:
  assumes "healthy env files w"
  shows "\<exists>s'. forEach (delete_index env) ns s = (Inr (), s') \<and> dp_failures s' = dp_failures s \<and> dp_files s' = dp_files s \<and>
    world files w (dp_calls s') = (fst (world files w (dp_calls s)) - set ns, snd (world files w (dp_calls s)))"
proof (induction ns arbitrary: s)
  case (Cons n ns)
  have "\<exists>t. delete_index env n s = (Inr (), t) \<and> dp_failures t = dp_failures s \<and> dp_files t = dp_files s \<and>
    world files w (dp_calls t) = (fst (world files w (dp_calls s)) - {n}, snd (world files w (dp_calls s)))"
  proof (cases "n \<in> fst (world files w (dp_calls s))")
    case True
    obtain v where "call env (IndexDelete n) (s\<lparr>dp_calls := dp_calls s @ [IndexExists n]\<rparr>) =
        (Inr v, s\<lparr>dp_calls := dp_calls s @ [IndexExists n, IndexDelete n]\<rparr>)"
      using healthyD(3) [OF assms, of n "s\<lparr>dp_calls := dp_calls s @ [IndexExists n]\<rparr>"] by auto
    with True show ?thesis
      by (simp add: delete_index_def tryCatch_def andThen_def healthyD(1) [OF assms] say_run) (simp add: world_def)
  next
    case False
    then show ?thesis
      by (simp add: delete_index_def tryCatch_def andThen_def healthyD(1) [OF assms] say_warn_def say_def) (simp add: world_def)
  qed
  then obtain t where t: "delete_index env n s = (Inr (), t)" "dp_failures t = dp_failures s" "dp_files t = dp_files s"
    "world files w (dp_calls t) = (fst (world files w (dp_calls s)) - {n}, snd (world files w (dp_calls s)))" by blast
  obtain s' where "forEach (delete_index env) ns t = (Inr (), s')" "dp_failures s' = dp_failures t" "dp_files s' = dp_files t"
    "world files w (dp_calls s') = (fst (world files w (dp_calls t)) - set ns, snd (world files w (dp_calls t)))" using Cons.IH by blast
  with t show ?case by (auto simp: andThen_def)
qed (simp add: ret_def)

lemma teardown_es_result:
  assumes "healthy env files w" "ns \<noteq> [] \<longrightarrow> \<not> isl (getConfig (dv_env env))"
  shows "\<exists>s'. teardown_es env ns s = (Inr (), s') \<and> dp_failures s' = dp_failures s \<and> dp_files s' = dp_files s \<and>
    world files w (dp_calls s') = (fst (world files w (dp_calls s)) - set ns, snd (world files w (dp_calls s)))"
proof (cases "ns = []")
  case False
  obtain t where "forEach (delete_index env) ns s = (Inr (), t)" "dp_failures t = dp_failures s" "dp_files t = dp_files s"
    "world files w (dp_calls t) = (fst (world files w (dp_calls s)) - set ns, snd (world files w (dp_calls s)))"
    using delete_indices [OF assms(1)] by blast
  then show ?thesis using False assms(2)
    by (auto simp: teardown_es_def esClient_def tryCatch_def andThen_def ret_def say_run isl_def split: sum.split)
qed (simp add: teardown_es_def ret_def)

text \<open>A rollback counts: whatever is applied, it takes away as many migrations as the manifest names.\<close>

lemma teardown_pg_result:
  assumes "healthy env files w" "js_prop menv ''dbEngine'' = js_var env ''DB_ENGINE''"
    and "js_prop menv ''dbInstanceConnectionName'' = coalesce (js_var env ''DB_INSTANCE_CONNECTION_NAME'') JNull"
    and "ms \<noteq> [] \<longrightarrow> hasPgConfig env (Some (env_default (dv_env env) ''DB_ENGINE'' ''direct'')) \<and>
      \<not> isl (createPgPool (dv_access env) (dv_connector env) (dv_env env))"
    and "world files w (dp_calls s) = (I, M)"
  shows "\<exists>s'. teardown_pg env menv ms s = (Inr (), s') \<and> dp_failures s' = dp_failures s \<and> dp_files s' = dp_files s \<and>
    world files w (dp_calls s') = (I, take (length M - length ms) M)"
proof (cases "ms = []")
  case True
  then show ?thesis using assms(5) by (simp add: teardown_pg_def ret_def)
next
  case False
  then have cfg: "hasPgConfig env (Some (env_default (dv_env env) ''DB_ENGINE'' ''direct''))" and
    "\<not> isl (createPgPool (dv_access env) (dv_connector env) (dv_env env))" using assms(4) by auto
  then obtain p where p: "createPgPool (dv_access env) (dv_connector env) (dv_env env) = Inr p"
    by (cases "createPgPool (dv_access env) (dv_connector env) (dv_env env)") auto
  have engine: "js_var env ''DB_ENGINE'' = JStr ''cloud-sql'' \<longleftrightarrow> env_default (dv_env env) ''DB_ENGINE'' ''direct'' = ''cloud-sql''"
    by (cases "dv_env env ''DB_ENGINE''") (auto simp: js_var_def env_default_def)
  have conn: "truthy (coalesce (js_var env ''DB_INSTANCE_CONNECTION_NAME'') JNull) = has env ''DB_INSTANCE_CONNECTION_NAME''"
    by (cases "dv_env env ''DB_INSTANCE_CONNECTION_NAME''") (auto simp: js_var_def coalesce_def)
  obtain v where "call env (PgMigrateDown (length ms)) s = (Inr v, s\<lparr>dp_calls := dp_calls s @ [PgMigrateDown (length ms)]\<rparr>)"
    using healthyD(4) [OF assms(1)] by blast
  moreover have "world files w (dp_calls s @ [PgMigrateDown (length ms), PgEnd]) = (I, take (length M - length ms) M)"
    using assms(5) by (simp add: world_def)
  ultimately show ?thesis using False cfg p
    by (simp add: teardown_pg_def assms(2,3) engine conn hasPgConfig_def openPool_def tryCatch_def tryFinally_def andThen_def ret_def
        swallow_call say_run)
qed

text \<open>What the teardown reads back from a manifest.\<close>

lemma manifest_reads:
  fixes env e es pg
  defines "m \<equiv> jsonb (manifest_document env e es pg)"
  shows "js_prop m ''schemaVersion'' = JInt 1" "\<not> nullish m" "\<not> nullish (js_prop m ''environment'')"
    "string_items (js_prop (js_prop m ''elasticsearch'') ''created'') = fst es"
    "string_items (js_prop (js_prop m ''postgres'') ''applied'') = fst pg"
    "js_prop (js_prop m ''environment'') ''dbEngine'' = js_var env ''DB_ENGINE''"
    "js_prop (js_prop m ''environment'') ''dbInstanceConnectionName'' = coalesce (js_var env ''DB_INSTANCE_CONNECTION_NAME'') JNull"
proof -
  have p: "js_prop m k = jsonb (js_prop (manifest_document env e es pg) k)" for k
    unfolding m_def manifest_document_def by (rule js_prop_jsonb) simp
  have items: "string_items (JArr (map JStr ns)) = ns" for ns by (simp add: string_items_def comp_def)
  have var: "jsonb (js_var env n) = js_var env n" "jsonb (coalesce (js_var env n) JNull) = coalesce (js_var env n) JNull" for n
    by (auto simp: js_var_def coalesce_def split: option.split)
  have envp: "js_prop (js_prop m ''environment'') k = jsonb (js_prop (js_prop (manifest_document env e es pg) ''environment'') k)" for k
    unfolding p by (simp add: manifest_document_def js_prop_jsonb del: jsonb.simps js_prop.simps add: js_prop_Cons)
  show "js_prop m ''schemaVersion'' = JInt 1" "\<not> nullish (js_prop m ''environment'')" unfolding p by (simp_all add: manifest_document_def)
  show "\<not> nullish m" by (simp add: m_def manifest_document_def)
  show "string_items (js_prop (js_prop m ''elasticsearch'') ''created'') = fst es"
    "string_items (js_prop (js_prop m ''postgres'') ''applied'') = fst pg"
    unfolding p by (simp_all add: manifest_document_def comp_def items)
  show "js_prop (js_prop m ''environment'') ''dbEngine'' = js_var env ''DB_ENGINE''"
    "js_prop (js_prop m ''environment'') ''dbInstanceConnectionName'' = coalesce (js_var env ''DB_INSTANCE_CONNECTION_NAME'') JNull"
    unfolding envp by (simp_all add: manifest_document_def var)
qed

text \<open>A finished bootstrap: what it wrote and what it changed.\<close>

lemma finish_result:
  assumes "healthy env files w" "bootstrap_finish env args es pg s = (Inr code, s')" "''--dry-run'' \<notin> set args"
    and "probe_index env \<notin> fst (world files w (dp_calls s))"
  shows "world files w (dp_calls s') = world files w (dp_calls s) \<and>
    (\<exists>e. dp_files s' MANIFEST_PATH = Some (Inr (jsonb (manifest_document env e es pg))))"
proof -
  from assms(2,3) obtain t where t: "write_manifest env es pg s = (Inr (), t)"
    and v: "andThen (validate_es env) (\<lambda>_. andThen (validate_pg env (''--es-only'' \<in> set args)) (\<lambda>_. andThen (validate_gcs env) (\<lambda>_.
      bootstrap_summary False))) t = (Inr code, s')"
    unfolding bootstrap_finish_def Let_def by (auto elim: andThen_InrE [where m = "write_manifest env es pg"])
  from t obtain e where t': "dp_calls t = dp_calls s" "dp_files t MANIFEST_PATH = Some (Inr (jsonb (manifest_document env e es pg)))"
    unfolding write_manifest_def lib_readManifest_def writeManifest_def by (auto simp: say_run elim!: andThen_InrE)
  have "keeps (unchanged env files w) (andThen (validate_es env) (\<lambda>_. andThen (validate_pg env (''--es-only'' \<in> set args)) (\<lambda>_.
      andThen (validate_gcs env) (\<lambda>_. bootstrap_summary False))))"
    by (intro keeps_parts keeps_validations)
  from keepsD [OF this v] t' assms(4) show ?thesis by (auto simp: unchanged_def)
qed

lemma probe_no_index: "probe_index env \<notin> set index_names"
  by (simp add: probe_index_def getSchedulerIndexDefinitions_def)

lemma bootstrap_result:
  assumes "healthy env files w" "with_flags args env = env" "''--dry-run'' \<notin> set args"
    and "probe_index env \<notin> fst (world files w (dp_calls s))" and "bootstrap_prod env args s = (Inr 0, s')"
  shows "\<exists>e cr ex ap al. dp_files s' MANIFEST_PATH = Some (Inr (jsonb (manifest_document env e (cr, ex) (ap, al)))) \<and>
    set cr \<subseteq> set index_names - fst (world files w (dp_calls s)) \<and>
    world files w (dp_calls s') = (fst (world files w (dp_calls s)) \<union> set cr, snd (world files w (dp_calls s)) @ ap) \<and>
    (cr \<noteq> [] \<longrightarrow> \<not> isl (getConfig (dv_env env))) \<and>
    (ap \<noteq> [] \<longrightarrow> hasPgConfig env (Some (env_default (dv_env env) ''DB_ENGINE'' ''direct'')) \<and>
       \<not> isl (createPgPool (dv_access env) (dv_connector env) (dv_env env)))"
proof -
  from assms(2,5) obtain x t where x: "run_preflight env (''--skip-preflight'' \<in> set args) (s\<lparr>dp_failures := 0\<rparr>) = (Inr x, t)"
    and k: "(case x of Some n \<Rightarrow> ret n | None \<Rightarrow> andThen (bootstrap_seed env args) (\<lambda>(es, pg). unless_exit exit_on_failures (bootstrap_finish env args es pg))) t
      = (Inr 0, s')"
    unfolding bootstrap_prod_def Let_def unless_exit_def by (auto elim!: andThen_InrE)
  have "x \<noteq> Some 0" using x unfolding run_preflight_def
    by (auto simp: ret_def split: if_splits elim!: andThen_InrE)
  with k have "x = None" by (cases x) (auto simp: ret_def)
  with k obtain cr ex ap al u y u' where u: "bootstrap_seed env args t = (Inr ((cr, ex), (ap, al)), u)"
    and y: "exit_on_failures u = (Inr y, u')" and f: "(case y of Some n \<Rightarrow> ret n | None \<Rightarrow> bootstrap_finish env args (cr, ex) (ap, al)) u' = (Inr 0, s')"
    by (auto simp: unless_exit_def elim!: andThen_InrE)
  have "y = None" "dp_calls u' = dp_calls u" using y f by (auto simp: exit_on_failures_def ret_def split: if_splits)
  with f have f: "bootstrap_finish env args (cr, ex) (ap, al) u' = (Inr 0, s')" by simp
  have t: "world files w (dp_calls t) = world files w (dp_calls s)"
    using keepsD [OF keeps_run_preflight [OF assms(1)] x] assms(4) by (simp add: unchanged_def)
  note seeded = bootstrap_seed_result [OF assms(1) u, unfolded t]
  have "probe_index env \<notin> set cr" using seeded probe_no_index [of env] by blast
  with seeded assms(4) \<open>dp_calls u' = dp_calls u\<close> have "probe_index env \<notin> fst (world files w (dp_calls u'))" by simp
  from finish_result [OF assms(1) f assms(3) this] seeded \<open>dp_calls u' = dp_calls u\<close> show ?thesis by metis
qed

lemma teardown_run:
  assumes "dp_files s MANIFEST_PATH = Some (Inr m)" "\<not> nullish m"
  shows "teardown env [''--force''] s = teardown_manifest env [''--force''] MANIFEST_PATH m (s\<lparr>dp_failures := 0\<rparr>)"
  using assms by (simp add: teardown_def manifest_path_def Let_def)

lemma teardown_undoes:
  assumes "healthy env files w" "with_flags args env = env" "''--dry-run'' \<notin> set args"
    and "probe_index env \<notin> fst (world files w (dp_calls s))" and "bootstrap_prod env args s = (Inr 0, s1)"
  shows "\<exists>s2. teardown env [''--force''] s1 = (Inr 0, s2) \<and> world files w (dp_calls s2) = world files w (dp_calls s)"
proof -
  obtain e cr ex ap al where m: "dp_files s1 MANIFEST_PATH = Some (Inr (jsonb (manifest_document env e (cr, ex) (ap, al))))"
    and cr: "set cr \<subseteq> set index_names - fst (world files w (dp_calls s))"
    and w1: "world files w (dp_calls s1) = (fst (world files w (dp_calls s)) \<union> set cr, snd (world files w (dp_calls s)) @ ap)"
    and es: "cr \<noteq> [] \<longrightarrow> \<not> isl (getConfig (dv_env env))"
    and pg: "ap \<noteq> [] \<longrightarrow> hasPgConfig env (Some (env_default (dv_env env) ''DB_ENGINE'' ''direct'')) \<and>
       \<not> isl (createPgPool (dv_access env) (dv_connector env) (dv_env env))"
    using bootstrap_result [OF assms] by blast
  let ?s = "\<lambda>rs. s1\<lparr>dp_failures := 0, dp_log := dp_log s1 @ rs\<rparr>"
  define d where "d = jsonb (manifest_document env e (cr, ex) (ap, al))"
  note reads = manifest_reads [of env e "(cr, ex)" "(ap, al)", folded d_def, unfolded fst_conv]
  note run = teardown_run [OF m [folded d_def] reads(2)]
  show ?thesis
  proof (cases "cr = [] \<and> ap = []")
    case True
    then show ?thesis using w1 by (simp add: run teardown_manifest_def reads andThen_def say_warn_def say_def ret_def)
  next
    case False
    obtain t where t: "teardown_es env cr (?s (kept_lines d)) = (Inr (), t)" "dp_failures t = 0"
      "world files w (dp_calls t) = (fst (world files w (dp_calls s1)) - set cr, snd (world files w (dp_calls s1)))"
      using teardown_es_result [OF assms(1) es, of "?s (kept_lines d)"] by auto
    have M: "world files w (dp_calls t) = (fst (world files w (dp_calls t)), snd (world files w (dp_calls s)) @ ap)" using t(3) w1 by simp
    obtain u where u: "teardown_pg env (js_prop d ''environment'') ap t = (Inr (), u)"
      "dp_failures u = 0" "world files w (dp_calls u) = (fst (world files w (dp_calls t)), snd (world files w (dp_calls s)))"
      using teardown_pg_result [OF assms(1) reads(6,7) pg M] t(2) by auto
    have "fst (world files w (dp_calls u)) = fst (world files w (dp_calls s))" using t(3) u(3) w1 cr by auto
    then have "world files w (dp_calls u) = world files w (dp_calls s)" using u(3) by (simp add: prod_eq_iff)
    then show ?thesis using False t(1) u(1,2)
      by (auto simp: run teardown_manifest_def reads Let_def log_lines_def andThen_def ret_def archive_manifest_def)
  qed
qed

text \<open>
  C15. A teardown undoes the bootstrap it follows: when services that do what they are asked let a production bootstrap
  finish with exit code 0, a forced teardown in the same environment reads the manifest the bootstrap wrote, exits with 0 and
  leaves the indices and the applied migrations as they were before the bootstrap. What existed before is kept.
\<close>

theorem teardown_reverses_bootstrap:
  assumes "healthy env files w" "with_flags args env = env" "''--dry-run'' \<notin> set args"
    and "probe_index env \<notin> fst (world files w (dp_calls s))" and "bootstrap_prod env args s = (Inr 0, s1)"
  shows "\<exists>s2. teardown env [''--force''] s1 = (Inr 0, s2) \<and> world files w (dp_calls s2) = world files w (dp_calls s)"
  using teardown_undoes [OF assms] .

section \<open>What a manifest does not remember\<close>

text \<open>The manifest names what the last bootstrap created. After a second bootstrap a teardown removes nothing of the first.\<close>

lemma second_bootstrap_hides_the_first:
  assumes "healthy env files w" "with_flags args env = env" "''--dry-run'' \<notin> set args"
    and "probe_index env \<notin> fst (world files w (dp_calls s))"
    and "bootstrap_prod env args s = (Inr 0, s1)" "bootstrap_prod env args s1 = (Inr 0, s2)"
  shows "\<exists>s3. teardown env [''--force''] s2 = (Inr 0, s3) \<and> world files w (dp_calls s3) = world files w (dp_calls s1)"
proof -
  have "probe_index env \<notin> fst (world files w (dp_calls s1))"
    using bootstrap_result [OF assms(1-5)] probe_no_index [of env] assms(4) by auto
  from teardown_undoes [OF assms(1-3) this assms(6)] show ?thesis .
qed

text \<open>
  The manifest is kept while a step of the teardown fails, so the next run rolls back as many migrations again, though
  the ones the bootstrap applied are gone: here the migrations \<open>M\<close> from before the bootstrap lose their last ones.
\<close>

lemma teardown_again_rolls_back_more:
  assumes "healthy env files w" "js_prop menv ''dbEngine'' = js_var env ''DB_ENGINE''"
    and "js_prop menv ''dbInstanceConnectionName'' = coalesce (js_var env ''DB_INSTANCE_CONNECTION_NAME'') JNull"
    and "hasPgConfig env (Some (env_default (dv_env env) ''DB_ENGINE'' ''direct''))"
    and "\<not> isl (createPgPool (dv_access env) (dv_connector env) (dv_env env))"
    and "world files w (dp_calls s) = (I, M @ ms)"
  shows "\<exists>s1 s2. teardown_pg env menv ms s = (Inr (), s1) \<and> world files w (dp_calls s1) = (I, M) \<and>
    teardown_pg env menv ms s1 = (Inr (), s2) \<and> world files w (dp_calls s2) = (I, take (length M - length ms) M)"
proof -
  note step = teardown_pg_result [OF assms(1-3), of ms]
  obtain s1 where "teardown_pg env menv ms s = (Inr (), s1)" "world files w (dp_calls s1) = (I, M)"
    using step [OF _ assms(6)] assms(4,5) by auto
  with step [of s1 I M] assms(4,5) show ?thesis by blast
qed

lemma manifest_kept_on_failure:
  assumes "dp_failures s > 0"
  shows "\<exists>s'. archive_manifest env p s = (Inr 1, s') \<and> dp_files s' = dp_files s"
  using assms by (simp add: archive_manifest_def)

text \<open>Seeding writes no manifest, whether it ends, counts a failure or throws: what it created by then is recorded nowhere.\<close>

definition same_files :: "deploy \<Rightarrow> deploy \<Rightarrow> bool" where
  "same_files s s' \<longleftrightarrow> dp_files s' = dp_files s"

lemma same_files_order: "reflp same_files" "transp same_files"
  by (auto simp: reflp_def transp_def same_files_def)

lemmas same_files_parts = keeps_ret [OF same_files_order(1)] keeps_throw [OF same_files_order(1)] keeps_andThen [OF same_files_order(2)]
  keeps_tryCatch [OF same_files_order(2)] keeps_tryFinally [OF same_files_order(2)] keeps_forEach [OF same_files_order]

lemma same_files_steps: "keeps same_files (call env c)" "keeps same_files (say r)" "keeps same_files (fault sec msg)"
  "keeps same_files (say_pass sec msg)" "keeps same_files (say_warn sec msg)" "keeps same_files (say_dim msg)"
  "keeps same_files (openPool env)" "keeps same_files (esClient env)"
  by (auto simp: keeps_def same_files_def call_def say_def fault_def say_pass_def say_warn_def say_dim_def openPool_def esClient_def throw_def ret_def
      split: sum.split)

lemma seed_indices_files: "keeps same_files (seed_indices env ns)"
  by (induction ns) (auto intro!: same_files_parts same_files_steps simp: keeps_ret [OF same_files_order(1), unfolded ret_def] ret_def)

lemma seed_keeps_files: "keeps same_files (bootstrap_seed env args)"
  unfolding bootstrap_seed_def seed_es_def seed_pg_def run_migrations_def swallow_def Let_def
  by (auto intro!: same_files_parts same_files_steps seed_indices_files)

lemma failed_seed_writes_no_manifest:
  assumes "bootstrap_seed env args s = (r, s')" "\<not> isl r \<Longrightarrow> dp_failures s' > 0"
  shows "dp_files (snd (andThen (bootstrap_seed env args) (\<lambda>(es, pg). unless_exit exit_on_failures (bootstrap_finish env args es pg)) s)) = dp_files s"
proof -
  have "dp_files s' = dp_files s" using seed_keeps_files [of env args] assms(1) unfolding keeps_def same_files_def by (metis snd_conv)
  with assms show ?thesis
    by (cases r) (auto simp: andThen_def unless_exit_def exit_on_failures_def ret_def)
qed

text \<open>With the Elasticsearch settings and no database settings the missing indices are created, and a failure is counted.\<close>

lemma seed_indices_total:
  assumes "healthy env files w" "distinct ns"
  shows "\<exists>ex s'. seed_indices env ns s = (Inr (filter (\<lambda>n. n \<notin> fst (world files w (dp_calls s))) ns, ex), s')"
  using assms(2)
proof (induction ns arbitrary: s)
  case (Cons n ns)
  let ?s1 = "s\<lparr>dp_calls := dp_calls s @ [IndexExists n]\<rparr>"
  obtain v where v: "call env (IndexCreate n) ?s1 = (Inr v, ?s1\<lparr>dp_calls := dp_calls ?s1 @ [IndexCreate n]\<rparr>)"
    using healthyD(2) [OF assms(1)] by blast
  let ?s2 = "if n \<in> fst (world files w (dp_calls s))
    then ?s1\<lparr>dp_log := dp_log s @ [Pass ''es'' (n @ '' '' @ em_dash @ '' already exists, skipped'')]\<rparr>
    else ?s1\<lparr>dp_calls := dp_calls ?s1 @ [IndexCreate n], dp_log := dp_log s @ [Pass ''es'' (n @ '' '' @ em_dash @ '' created'')]\<rparr>"
  have "filter (\<lambda>m. m \<notin> fst (world files w (dp_calls ?s2))) ns = filter (\<lambda>m. m \<notin> fst (world files w (dp_calls s))) ns"
    using Cons.prems by (intro filter_cong refl) (auto simp: world_def)
  with Cons obtain ex t where "seed_indices env ns ?s2 = (Inr (filter (\<lambda>m. m \<notin> fst (world files w (dp_calls s))) ns, ex), t)"
    by (metis distinct.simps(2))
  with v show ?case by (auto simp: healthyD(1) [OF assms(1)] andThen_def say_run ret_def split: if_splits)
qed (simp add: ret_def)

lemma seed_without_database:
  assumes "healthy env files w" "has env ''ES_ENDPOINT''" "has env ''ES_API_KEY''" "\<not> isl (getConfig (dv_env env))"
    and "\<not> hasPgConfig env (Some (env_default (dv_env env) ''DB_ENGINE'' ''direct''))"
  shows "\<exists>ex s'. bootstrap_seed env [] s =
    (Inr ((filter (\<lambda>n. n \<notin> fst (world files w (dp_calls s))) index_names, ex), ([], [])), s') \<and> dp_failures s' > 0"
proof -
  have "distinct index_names" by (simp add: getSchedulerIndexDefinitions_def)
  then obtain ex t where "seed_indices env index_names s = (Inr (filter (\<lambda>n. n \<notin> fst (world files w (dp_calls s))) index_names, ex), t)"
    using seed_indices_total [OF assms(1)] by blast
  moreover obtain c where "getConfig (dv_env env) = Inr c" using assms(4) by (cases "getConfig (dv_env env)") auto
  ultimately show ?thesis using assms(2,3,5)
    by (simp add: bootstrap_seed_def seed_es_def seed_pg_def esClient_def andThen_def ret_def say_run fault_def)
qed

text \<open>A dry run validates too: an index it would only have created counts as a failure.\<close>

lemma validate_indices:
  assumes "healthy env files w"
  shows "\<exists>s'. forEach (\<lambda>n. andThen (call env (IndexExists n)) (\<lambda>v.
      if truthy v then say_pass ''es'' (ok n) else fault ''es'' (bad n))) ns s = (Inr (), s') \<and>
    dp_failures s' = dp_failures s + length (filter (\<lambda>n. n \<notin> fst (world files w (dp_calls s))) ns)"
proof (induction ns arbitrary: s)
  case (Cons n ns)
  let ?s1 = "s\<lparr>dp_calls := dp_calls s @ [IndexExists n]\<rparr>"
  let ?s2 = "if n \<in> fst (world files w (dp_calls s)) then ?s1\<lparr>dp_log := dp_log s @ [Pass ''es'' (ok n)]\<rparr>
    else ?s1\<lparr>dp_log := dp_log s @ [Fault ''es'' (bad n)], dp_failures := Suc (dp_failures s)\<rparr>"
  have "world files w (dp_calls ?s2) = world files w (dp_calls s)" by (simp add: world_harmless)
  with Cons [of ?s2] show ?case by (auto simp: healthyD(1) [OF assms] andThen_def say_run fault_def)
qed (simp add: ret_def)

lemma dry_run_validates:
  assumes "healthy env files w" "has env ''ES_ENDPOINT''" "has env ''ES_API_KEY''" "\<not> isl (getConfig (dv_env env))"
    and "n \<in> set index_names" "n \<notin> fst (world files w (dp_calls s))"
  shows "\<exists>s'. validate_es env s = (Inr (), s') \<and> dp_failures s' > dp_failures s"
proof -
  obtain c where "getConfig (dv_env env) = Inr c" using assms(4) by (cases "getConfig (dv_env env)") auto
  then have run: "validate_es env s = forEach (\<lambda>n. andThen (call env (IndexExists n)) (\<lambda>v.
      if truthy v then say_pass ''es'' (''index '' @ n @ '' confirmed'')
      else fault ''es'' (''index '' @ n @ '' missing '' @ em_dash @ '' ES seed may have failed''))) index_names s"
    using assms(2,3) by (simp add: validate_es_def esClient_def andThen_def ret_def)
  have "n \<in> set (filter (\<lambda>n. n \<notin> fst (world files w (dp_calls s))) index_names)"
    unfolding set_filter using assms(5,6) by (intro CollectI conjI)
  then have "length (filter (\<lambda>n. n \<notin> fst (world files w (dp_calls s))) index_names) > 0" by (rule length_pos_if_in_set)
  moreover obtain s' where "validate_es env s = (Inr (), s')"
    "dp_failures s' = dp_failures s + length (filter (\<lambda>n. n \<notin> fst (world files w (dp_calls s))) index_names)"
    unfolding run using validate_indices [OF assms(1), of "\<lambda>n. ''index '' @ n @ '' confirmed''"
        "\<lambda>n. ''index '' @ n @ '' missing '' @ em_dash @ '' ES seed may have failed''" index_names s] by (elim exE conjE)
  ultimately show ?thesis by (metis less_add_same_cancel1)
qed

section \<open>The index scripts run again\<close>

lemma ensure_indices:
  assumes "healthy env files w"
  shows "\<exists>s'. forEach (ensure_index env line False) ns s = (Inr (), s') \<and>
    world files w (dp_calls s') = (fst (world files w (dp_calls s)) \<union> set ns, snd (world files w (dp_calls s))) \<and>
    (set ns \<subseteq> fst (world files w (dp_calls s)) \<longrightarrow> dp_calls s' = dp_calls s @ map IndexExists ns)"
proof (induction ns arbitrary: s)
  case (Cons n ns)
  let ?s1 = "s\<lparr>dp_calls := dp_calls s @ [IndexExists n]\<rparr>"
  obtain v where v: "call env (IndexCreate n) ?s1 = (Inr v, ?s1\<lparr>dp_calls := dp_calls ?s1 @ [IndexCreate n]\<rparr>)"
    using healthyD(2) [OF assms] by blast
  let ?s2 = "if n \<in> fst (world files w (dp_calls s)) then ?s1\<lparr>dp_log := dp_log s @ [line ''skip'' n]\<rparr>
    else ?s1\<lparr>dp_calls := dp_calls ?s1 @ [IndexCreate n], dp_log := dp_log s @ [line ''created'' n]\<rparr>"
  have run: "ensure_index env line False n s = (Inr (), ?s2)"
    using v by (simp add: ensure_index_def healthyD(1) [OF assms] andThen_def say_def)
  have w2: "world files w (dp_calls ?s2) = (insert n (fst (world files w (dp_calls s))), snd (world files w (dp_calls s)))"
    by (auto simp: world_def insert_absorb)
  obtain s' where s': "forEach (ensure_index env line False) ns ?s2 = (Inr (), s')"
    "world files w (dp_calls s') = (fst (world files w (dp_calls ?s2)) \<union> set ns, snd (world files w (dp_calls ?s2)))"
    "set ns \<subseteq> fst (world files w (dp_calls ?s2)) \<longrightarrow> dp_calls s' = dp_calls ?s2 @ map IndexExists ns"
    using Cons.IH [of ?s2] by blast
  have "forEach (ensure_index env line False) (n # ns) s = (Inr (), s')" using run s'(1) by (simp add: andThen_def)
  moreover have "world files w (dp_calls s') = (fst (world files w (dp_calls s)) \<union> set (n # ns), snd (world files w (dp_calls s)))"
    using s'(2) unfolding w2 by simp
  moreover have "set (n # ns) \<subseteq> fst (world files w (dp_calls s)) \<longrightarrow> dp_calls s' = dp_calls s @ map IndexExists (n # ns)"
    using s'(3) unfolding w2 by auto
  ultimately show ?case by blast
qed (simp add: ret_def)

text \<open>\<open>bootstrap-es-indices.js\<close> may be run any number of times: a second run finds every index and creates none.\<close>

lemma bootstrap_es_indices_idempotent:
  assumes "healthy env files w" "\<not> isl (getConfig (dv_env env))"
  shows "\<exists>s1 s2. bootstrap_es_indices env [] s = (Inr (), s1) \<and> set index_names \<subseteq> fst (world files w (dp_calls s1)) \<and>
    bootstrap_es_indices env [] s1 = (Inr (), s2) \<and> dp_calls s2 = dp_calls s1 @ map IndexExists index_names"
proof -
  obtain c where "getConfig (dv_env env) = Inr c" using assms(2) by (cases "getConfig (dv_env env)") auto
  then obtain l where run: "bootstrap_es_indices env [] t = forEach (ensure_index env l False) index_names t" for t
    by (simp add: bootstrap_es_indices_def esClient_def andThen_def ret_def)
  obtain s1 where s1: "bootstrap_es_indices env [] s = (Inr (), s1)" "set index_names \<subseteq> fst (world files w (dp_calls s1))"
    using ensure_indices [OF assms(1), of l index_names s] by (auto simp: run)
  then obtain s2 where "bootstrap_es_indices env [] s1 = (Inr (), s2)" "dp_calls s2 = dp_calls s1 @ map IndexExists index_names"
    using ensure_indices [OF assms(1), of l index_names s1] by (auto simp: run)
  with s1 show ?thesis by blast
qed

section \<open>A sample deployment\<close>

text \<open>A deployment over services that already hold an index and a migration, one migration file being new.\<close>

definition sample_world :: "string set \<times> string list" where
  "sample_world = ({''scheduler_audit_v1''}, [''001_init''])"

fun sample_reply :: "deploy_call list \<Rightarrow> deploy_call \<Rightarrow> js_error + js" where
  "sample_reply h (IndexExists n) = Inr (JBool (n \<in> fst (world [''001_init'', ''002_runs''] sample_world h)))"
| "sample_reply h PgMigrations = Inr (JArr (map (\<lambda>n. JObj [(''name'', JStr n)]) (snd (world [''001_init'', ''002_runs''] sample_world h))))"
| "sample_reply h PgTables = Inr (JArr (map (\<lambda>n. JObj [(''tablename'', JStr n)]) [''job_instances'', ''job_runs'']))"
| "sample_reply h PgIndexes = Inr (JArr (map (\<lambda>n. JObj [(''indexname'', JStr n)])
     [''idx_job_instances_due'', ''idx_job_runs_queued'', ''idx_job_runs_instance'']))"
| "sample_reply h _ = Inr (JBool True)"

definition sample_deployment :: deploy_env where
  "sample_deployment = \<lparr>dv_reply = sample_reply,
     dv_env = [''GCP_PROJECT_ID'' \<mapsto> ''p'', ''JOB_ZIP_BUCKET'' \<mapsto> ''b'', ''ES_ENDPOINT'' \<mapsto> ''e'', ''ES_API_KEY'' \<mapsto> ''k'',
       ''DATABASE_URL'' \<mapsto> ''postgres'', ''DB_ALLOW_DIRECT'' \<mapsto> ''true''],
     dv_access = (\<lambda>_. Inr None), dv_connector = (\<lambda>_ _. Inr ()), dv_migrations = [''001_init'', ''002_runs''],
     dv_now = 0, dv_stamp = ''1'', dv_elapsed = ''1ms''\<rparr>"

definition sample_start :: deploy where
  "sample_start = \<lparr>dp_calls = [], dp_log = [], dp_failures = 0, dp_files = Map.empty\<rparr>"

lemma sample_healthy: "healthy sample_deployment [''001_init'', ''002_runs''] sample_world"
  by (auto simp: healthy_def sample_deployment_def column_def comp_def)

lemma sample_flags: "with_flags [''--skip-preflight''] sample_deployment = sample_deployment"
  by (simp add: with_flags_def applyCliDefaults_def seed_var_def)

lemma sample_config: "dv_reply sample_deployment = sample_reply" "truthy_str (dv_env sample_deployment ''ES_ENDPOINT'')"
  "truthy_str (dv_env sample_deployment ''ES_API_KEY'')" "truthy_str (dv_env sample_deployment ''JOB_ZIP_BUCKET'')"
  "env_default (dv_env sample_deployment) ''DB_ENGINE'' ''direct'' = ''direct''" "hasPgConfig sample_deployment (Some ''direct'')"
  "esClient sample_deployment = ret ()"
  "createPgPool (dv_access sample_deployment) (dv_connector sample_deployment) (dv_env sample_deployment) = Inr (DirectPool ''postgres'')"
  by (simp_all add: sample_deployment_def env_default_def hasPgConfig_def esClient_def getConfig_def missing_def createPgPool_def)

lemma sample_bootstrap: "fst (bootstrap_prod sample_deployment [''--skip-preflight''] sample_start) = Inr 0"
  unfolding bootstrap_prod_def Let_def sample_flags
  by (simp add: unless_exit_def run_preflight_def andThen_def say_run say_warn_def ret_def bootstrap_seed_def seed_es_def seed_pg_def sample_config
      getSchedulerIndexDefinitions_def call_def sample_start_def world_def sample_world_def tryCatch_def tryFinally_def openPool_def
      run_migrations_def column_def Let_def swallow_def exit_on_failures_def bootstrap_finish_def write_manifest_def lib_readManifest_def writeManifest_def
      validate_es_def validate_pg_def confirm_all_def validate_gcs_def bootstrap_summary_def
      cong: if_weak_cong sum.case_cong_weak prod.case_cong_weak)

theorem teardown_reverses_bootstrap_witness:
  "\<exists>s1 s2. bootstrap_prod sample_deployment [''--skip-preflight''] sample_start = (Inr 0, s1) \<and> teardown sample_deployment [''--force''] s1 = (Inr 0, s2) \<and>
    world [''001_init'', ''002_runs''] sample_world (dp_calls s2) = ({''scheduler_audit_v1''}, [''001_init''])"
proof -
  obtain s1 where s1: "bootstrap_prod sample_deployment [''--skip-preflight''] sample_start = (Inr 0, s1)"
    using sample_bootstrap by (metis prod.collapse)
  have "with_flags [''--skip-preflight''] sample_deployment = sample_deployment"
    by (simp add: with_flags_def applyCliDefaults_def seed_var_def)
  moreover have "probe_index sample_deployment \<notin> fst (world [''001_init'', ''002_runs''] sample_world (dp_calls sample_start))"
    by (simp add: probe_index_def sample_start_def sample_world_def world_def)
  moreover have "world [''001_init'', ''002_runs''] sample_world (dp_calls sample_start) = ({''scheduler_audit_v1''}, [''001_init''])"
    by (simp add: sample_start_def sample_world_def world_def)
  ultimately show ?thesis using s1 teardown_reverses_bootstrap [OF sample_healthy _ _ _ s1] by auto
qed

end
