(* ===== verification/Instance_Schema.thy ===== *)
theory Instance_Schema
  imports Definition_Service
begin

text \<open>
  What the schemas of \<open>src/src/validation/jobInstanceSchema.js\<close> demand of a parsed instance. The zod library that applies them is a parameter
  of \<open>Instance_Service\<close>; a parsed value satisfies its schema. An object schema drops unknown keys, the strict one of a
  sensitive parameter refuses them.
\<close>

section \<open>The schemas\<close>

definition only_keys :: "string list \<Rightarrow> js \<Rightarrow> bool" where
  "only_keys ks v = (case v of JObj kvs \<Rightarrow> distinct (map fst kvs) \<and> fst ` set kvs \<subseteq> set ks | _ \<Rightarrow> False)"

definition cronScheduleSchema :: "js \<Rightarrow> bool" where
  "cronScheduleSchema v \<longleftrightarrow> only_keys [''type'', ''expression'', ''timezone''] v \<and> js_prop v ''type'' = JStr ''cron'' \<and>
     text_field v ''expression'' \<and> text_field v ''timezone''"

definition stringParameterValueSchema :: "js \<Rightarrow> bool" where
  "stringParameterValueSchema v \<longleftrightarrow> only_keys [''type'', ''value''] v \<and> js_prop v ''type'' = JStr ''string'' \<and> is_string (js_prop v ''value'')"

definition stringArrayParameterValueSchema :: "js \<Rightarrow> bool" where
  "stringArrayParameterValueSchema v \<longleftrightarrow>
     only_keys [''type'', ''value''] v \<and> js_prop v ''type'' = JStr ''string[]'' \<and> string_array (js_prop v ''value'')"

definition sensitiveParameterValueSchema :: "js \<Rightarrow> bool" where
  "sensitiveParameterValueSchema v \<longleftrightarrow>
     only_keys [''type'', ''secretRef''] v \<and> js_prop v ''type'' = JStr ''sensitive'' \<and> text_field v ''secretRef''"

definition instanceParameterValueSchema :: "js \<Rightarrow> bool" where
  "instanceParameterValueSchema v \<longleftrightarrow> stringParameterValueSchema v \<or> stringArrayParameterValueSchema v \<or> sensitiveParameterValueSchema v"

definition parameters_record :: "js \<Rightarrow> bool" where
  "parameters_record v = (case v of JObj kvs \<Rightarrow> list_all (\<lambda>(k, w). instanceParameterValueSchema w) kvs | _ \<Rightarrow> False)"

definition createJobInstanceSchema :: "js \<Rightarrow> bool" where
  "createJobInstanceSchema v \<longleftrightarrow> only_keys [''instanceId'', ''enabled'', ''schedule'', ''parameters''] v \<and>
     (case js_prop v ''instanceId'' of JStr s \<Rightarrow> s \<noteq> [] \<and> list_all id_char s | _ \<Rightarrow> False) \<and>
     js_prop v ''enabled'' \<in> {JBool True, JBool False} \<and> cronScheduleSchema (js_prop v ''schedule'') \<and> parameters_record (js_prop v ''parameters'')"

definition patchJobInstanceSchema :: "js \<Rightarrow> bool" where
  "patchJobInstanceSchema v \<longleftrightarrow> only_keys [''enabled'', ''schedule'', ''parameters''] v \<and>
     js_prop v ''enabled'' \<in> {JUndefined, JBool True, JBool False} \<and>
     (js_prop v ''schedule'' = JUndefined \<or> cronScheduleSchema (js_prop v ''schedule'')) \<and>
     (js_prop v ''parameters'' = JUndefined \<or> parameters_record (js_prop v ''parameters''))"

section \<open>Lemmas\<close>

lemma instanceParameter_cases:
  assumes "instanceParameterValueSchema v"
  shows "(\<exists>kvs. v = JObj kvs) \<and> js_prop v ''type'' \<in> {JStr ''string'', JStr ''string[]'', JStr ''sensitive''} \<and>
    (js_prop v ''type'' = JStr ''string'' \<longrightarrow> is_string (js_prop v ''value'')) \<and>
    (js_prop v ''type'' = JStr ''string[]'' \<longrightarrow> string_array (js_prop v ''value'')) \<and>
    (js_prop v ''type'' = JStr ''sensitive'' \<longrightarrow> is_string (js_prop v ''secretRef'') \<and> truthy (js_prop v ''secretRef''))"
  using assms
  by (cases v) (auto simp: instanceParameterValueSchema_def stringParameterValueSchema_def stringArrayParameterValueSchema_def
      sensitiveParameterValueSchema_def only_keys_def text_field_def is_string_def simp del: js_prop.simps split: js.splits)

text \<open>For a value that passed the schema the definition's check comes down to the type.\<close>

lemma validateParameterValue_schema:
  assumes "instanceParameterValueSchema v"
  shows "validateParameterValue p v = None \<longleftrightarrow> js_prop v ''type'' = js_prop p ''type''"
proof -
  obtain kvs where v: "v = JObj kvs" using instanceParameter_cases [OF assms] by blast
  show ?thesis using instanceParameter_cases [OF assms] unfolding validateParameterValue_def Let_def v js.case
    by (auto simp del: js_prop.simps)
qed

lemma record_entry:
  assumes "parameters_record ps" "js_prop ps k \<noteq> JUndefined"
  shows "instanceParameterValueSchema (js_prop ps k)"
  using assms by (cases ps) (auto simp: parameters_record_def list_all_iff split: option.splits dest: map_of_SomeD)

definition parameter_fits :: "js \<Rightarrow> js \<Rightarrow> bool" where
  "parameter_fits parameters p =
     (let supplied = js_prop parameters (js_String (js_prop p ''name'')) in
      if supplied = JUndefined then \<not> truthy (js_prop p ''required'') else js_prop supplied ''type'' = js_prop p ''type'')"

lemma validate_parameters_schema:
  assumes "parameters_record parameters"
  shows "validate_parameters parameters ps = None \<longleftrightarrow> list_all (parameter_fits parameters) ps"
proof (induction ps)
  case (Cons p ps)
  let ?v = "js_prop parameters (js_String (js_prop p ''name''))"
  show ?case
  proof (cases "?v = JUndefined")
    case True then show ?thesis using Cons.IH by (simp add: parameter_fits_def)
  next
    case False
    have "validateParameterValue p ?v = None \<longleftrightarrow> js_prop ?v ''type'' = js_prop p ''type''"
      by (rule validateParameterValue_schema [OF record_entry [OF assms False]])
    then show ?thesis using False Cons.IH by (auto simp: parameter_fits_def Let_def simp del: js_prop.simps split: option.splits)
  qed
qed simp

section \<open>Properties\<close>

text \<open>
  The schema and the definition together type the parameters of an instance. For parameters that passed the schema, the check
  against the definition accepts them exactly when every required parameter is there and every supplied one declares the
  type of the definition; and a sensitive parameter holds a reference to a secret and nothing else, so no plain text is stored with it.
\<close>

lemma instance_parameters_typed:
  assumes "createJobInstanceSchema body"
  shows "(validateParametersAgainstDefinition (js_prop body ''parameters'') (JArr ps) = None \<longleftrightarrow>
      list_all (parameter_fits (js_prop body ''parameters'')) ps) \<and>
    (\<forall>k. js_prop (js_prop (js_prop body ''parameters'') k) ''type'' = JStr ''sensitive'' \<longrightarrow>
      js_prop (js_prop (js_prop body ''parameters'') k) ''value'' = JUndefined \<and>
      text_field (js_prop (js_prop body ''parameters'') k) ''secretRef'')"
proof (intro conjI allI impI)
  have ps: "parameters_record (js_prop body ''parameters'')" using assms by (simp add: createJobInstanceSchema_def)
  show "validateParametersAgainstDefinition (js_prop body ''parameters'') (JArr ps) = None \<longleftrightarrow>
      list_all (parameter_fits (js_prop body ''parameters'')) ps"
    using validate_parameters_schema [OF ps] by (simp add: validateParametersAgainstDefinition_def)
  fix k
  let ?v = "js_prop (js_prop body ''parameters'') k"
  assume t: "js_prop ?v ''type'' = JStr ''sensitive''"
  then have "instanceParameterValueSchema ?v" using record_entry [OF ps, of k] by force
  with t have s: "sensitiveParameterValueSchema ?v"
    by (auto simp: instanceParameterValueSchema_def stringParameterValueSchema_def stringArrayParameterValueSchema_def)
  then show "text_field ?v ''secretRef''" by (simp add: sensitiveParameterValueSchema_def)
  from s obtain kvs where kvs: "?v = JObj kvs" "fst ` set kvs \<subseteq> {''type'', ''secretRef''}"
    by (auto simp: sensitiveParameterValueSchema_def only_keys_def split: js.splits)
  then have "map_of kvs ''value'' = None" by (auto simp: map_of_eq_None_iff)
  then show "js_prop ?v ''value'' = JUndefined" by (simp add: kvs(1))
qed

end
