(* ===== verification/Local_Db.thy ===== *)
theory Local_Db
  imports Public_Auth
begin

text \<open>
  The SQLite plumbing of the local mode: the tables \<open>src/src/backends/local/db.js\<close> creates and the adapter of
  \<open>src/src/backends/local/localPool.js\<close> that lets the tick use SQLite as a Postgres pool. The statements themselves are run by SQLite, a parameter.
\<close>

section \<open>The tables\<close>

definition SCHEMA :: "(string \<times> string list) list" where
  "SCHEMA =
     [(''job_runs'', [''run_id'', ''tenant_id'', ''instance_id'', ''definition_id'', ''definition_version'', ''scheduled_fire_time'', ''state'',
        ''attempt'', ''dispatch_id'', ''params'', ''status'', ''result'', ''error'', ''runtime_execution'', ''parent_run_id'', ''redrive_of_run_id'',
        ''cancel_requested_at'', ''cancelled_at'', ''cancelled_by'', ''cancel_reason'', ''created_at'', ''started_at'', ''ended_at'',
        ''heartbeat_at'', ''updated_at'']),
      (''job_instances'', [''instance_id'', ''tenant_id'', ''definition_id'', ''definition_version'', ''definition_parameter_schema'', ''enabled'',
        ''state'', ''schedule'', ''next_fire_at'', ''last_fire_at'', ''parameters'', ''created_at'', ''updated_at'']),
      (''job_definitions'', [''definition_id'', ''data'', ''state'', ''enabled'', ''updated_at'']),
      (''audit_events'', [''id'', ''event_type'', ''run_id'', ''data'', ''created_at''])]"

text \<open>\<open>CREATE TABLE IF NOT EXISTS\<close>: the columns of a table that is there stay as they are.\<close>

definition create_table :: "string \<times> string list \<Rightarrow> (string \<rightharpoonup> string list) \<Rightarrow> (string \<rightharpoonup> string list)" where
  "create_table = (\<lambda>(t, cols) db. if db t = None then db(t \<mapsto> cols) else db)"

text \<open>\<open>disk\<close> holds the databases by the path of their file.\<close>

definition createLocalDb :: "process_env \<Rightarrow> string option \<Rightarrow> (string \<Rightarrow> string \<rightharpoonup> string list) \<Rightarrow> string \<times> (string \<Rightarrow> string \<rightharpoonup> string list)" where
  "createLocalDb env dataDir disk =
     (let dir = (case dataDir of Some d \<Rightarrow> d | None \<Rightarrow> env_default env ''LOCAL_DATA_DIR'' ''.local-data'');
          file = path_normalize ((if dir = [] then [] else dir @ ''/'') @ ''scheduler.db'') in
      (file, disk(file := fold create_table SCHEMA (disk file))))"

section \<open>The pool\<close>

definition word_char :: "char \<Rightarrow> bool" where
  "word_char c \<longleftrightarrow> is_alpha c \<or> is_digit c \<or> c = CHR ''_''"

definition control_words :: "string list" where
  "control_words = [''BEGIN'', ''COMMIT'', ''ROLLBACK TO SAVEPOINT'', ''ROLLBACK TO'', ''RELEASE SAVEPOINT'', ''ROLLBACK'', ''SAVEPOINT'']"

text \<open>\<open>CONTROL_RE\<close> on an upper-case text without leading white space: a keyword that ends at a word boundary.\<close>

definition control_statement :: "string \<Rightarrow> bool" where
  "control_statement u = list_ex (\<lambda>k. startsWith u k \<and> (case drop (length k) u of [] \<Rightarrow> True | c # _ \<Rightarrow> \<not> word_char c)) control_words"

text \<open>SQLite: \<open>db.exec\<close>, \<open>stmt.all\<close> and \<open>stmt.run\<close> of a prepared statement.\<close>

record 'db sqlite_handle =
  sq_exec :: "string \<Rightarrow> ('db, unit) eff"
  sq_all :: "string \<Rightarrow> js list \<Rightarrow> ('db, js list) eff"
  sq_run :: "string \<Rightarrow> js list \<Rightarrow> ('db, nat) eff"

definition execSqlite :: "'db sqlite_handle \<Rightarrow> string \<Rightarrow> js list \<Rightarrow> ('db, js list \<times> nat) eff" where
  "execSqlite sq sql params =
     (let trimmed = js_trim sql; upper = map upper_char trimmed in
      if control_statement upper then andThen (sq_exec sq trimmed) (\<lambda>_. ret ([], 0))
      else if startsWith upper ''SELECT'' then andThen (sq_all sq trimmed params) (\<lambda>rows. ret (rows, length rows))
      else andThen (sq_run sq trimmed params) (\<lambda>changes. ret ([], changes)))"

section \<open>Lemmas\<close>

lemma create_table_cases: "create_table (t, cols) db u = (if u = t \<and> db t = None then Some cols else db u)"
  by (simp add: create_table_def)

lemma create_tables_keep: "db t = Some cols \<Longrightarrow> fold create_table ts db t = Some cols"
proof (induction ts arbitrary: db)
  case (Cons x ts)
  have "create_table x db t = Some cols" using Cons.prems by (cases x) (auto simp: create_table_cases)
  from Cons.IH [of "create_table x db", OF this] show ?case by simp
qed simp

lemma create_tables_exist: "t \<in> fst ` set ts \<Longrightarrow> fold create_table ts db t \<noteq> None"
proof (induction ts arbitrary: db)
  case (Cons x ts)
  obtain u cols where x: "x = (u, cols)" by (cases x)
  show ?case
  proof (cases "t = u")
    case True
    then obtain cs where "create_table x db t = Some cs" by (cases "db t") (auto simp: x create_table_cases)
    then show ?thesis by (simp add: create_tables_keep)
  qed (use Cons x in auto)
qed simp

text \<open>Opening the database of the local mode twice changes nothing the second time, and a table of an earlier version keeps its columns.\<close>

lemma createLocalDb_idempotent:
  assumes "createLocalDb env dir disk = (file, disk')"
  shows "createLocalDb env dir disk' = (file, disk')"
proof -
  have "fold create_table SCHEMA (fold create_table SCHEMA db) = fold create_table SCHEMA db" for db
  proof
    fix t
    show "fold create_table SCHEMA (fold create_table SCHEMA db) t = fold create_table SCHEMA db t"
    proof (cases "fold create_table SCHEMA db t")
      case (Some cols) then show ?thesis by (simp add: create_tables_keep)
    next
      case None
      then have new: "t \<notin> fst ` set SCHEMA" using create_tables_exist by blast
      have "t \<notin> fst ` set ts \<Longrightarrow> fold create_table ts m t = m t" for ts m
        by (induction ts arbitrary: m) (auto simp: create_table_def)
      then show ?thesis using new by simp
    qed
  qed
  then show ?thesis using assms by (auto simp: createLocalDb_def Let_def)
qed

lemma old_table_not_migrated:
  assumes "disk file ''job_runs'' = Some cols" "createLocalDb env dir disk = (file, disk')"
  shows "disk' file ''job_runs'' = Some cols"
  using assms by (auto simp: createLocalDb_def Let_def create_tables_keep)

text \<open>The statements of a transaction are control statements, whatever their case and the white space before them; queries and writes are not.\<close>

lemma control_examples:
  "list_all (\<lambda>s. control_statement (map upper_char (js_trim s)))
     [''BEGIN'', ''COMMIT'', ''ROLLBACK'', '' begin'', ''SAVEPOINT tick_0'', ''ROLLBACK TO SAVEPOINT tick_0'', ''RELEASE SAVEPOINT tick_0'']"
  "list_all (\<lambda>s. \<not> control_statement (map upper_char (js_trim s)))
     [''SELECT 1'', ''INSERT INTO job_runs VALUES (1)'', ''UPDATE beginnings SET a = 1'', ''BEGINNING'']"
  by code_simp+

text \<open>Only a statement that starts with \<open>SELECT\<close> returns rows: those of any other query, such as one with \<open>RETURNING\<close>, are lost.\<close>

lemma rows_only_for_select:
  assumes "execSqlite sq sql params db = (Inr (rows, n), db')" "\<not> startsWith (map upper_char (js_trim sql)) ''SELECT''"
  shows "rows = []"
  using assms by (auto simp: execSqlite_def Let_def andThen_def ret_def split: if_splits prod.splits sum.splits)

end
