(* ===== verification/Store_Statements.thy ===== *)
theory Store_Statements
  imports Local_Db
begin

text \<open>
  The text of the UPDATE that \<open>transition\<close> of \<open>stores/runStore.js\<close> and of \<open>backends/local/localRunStore.js\<close> build from the keys
  of its \<open>set\<close> object: which columns it names, and how its placeholders number the values.
\<close>

section \<open>The keys and their columns\<close>

text \<open>\<open>str.replace(/[A-Z]/g, c => "_" + c.toLowerCase())\<close>.\<close>

definition camel2snake :: "string \<Rightarrow> string" where
  "camel2snake str = concat (map (\<lambda>c. if c \<in> set ''ABCDEFGHIJKLMNOPQRSTUVWXYZ'' then [CHR ''_'', lower_char c] else [c]) str)"

text \<open>The key under which the callers of \<open>transition\<close> pass an assignment.\<close>

fun assign_key :: "run_assign \<Rightarrow> string" where
  "assign_key (SetState _) = ''state''"
| "assign_key (SetAttempt _) = ''attempt''"
| "assign_key (SetDispatchId _) = ''dispatchId''"
| "assign_key (SetStartedAt _) = ''startedAt''"
| "assign_key (SetEndedAt _) = ''endedAt''"
| "assign_key (SetHeartbeatAt _) = ''heartbeatAt''"
| "assign_key (SetUpdatedAt _) = ''updatedAt''"
| "assign_key (SetStatus _) = ''status''"
| "assign_key (SetError _) = ''error''"
| "assign_key (SetRuntimeExecution _) = ''runtimeExecution''"
| "assign_key (SetCancelRequestedAt _) = ''cancelRequestedAt''"
| "assign_key (SetCancelledAt _) = ''cancelledAt''"
| "assign_key (SetCancelledBy _) = ''cancelledBy''"
| "assign_key (SetCancelReason _) = ''cancelReason''"

section \<open>The statements\<close>

text \<open>The columns a statement assigns, those of Postgres with the number of their placeholder, and its text up to line breaks.\<close>

definition setCols :: "run_assign list \<Rightarrow> string list" where
  "setCols assigns = filter (\<lambda>k. k \<noteq> ''updatedAt'') (map assign_key assigns)"

definition transition_sets :: "run_assign list \<Rightarrow> (string \<times> nat) list" where
  "transition_sets assigns = map (\<lambda>(i, col). (camel2snake col, i + 3)) (List.enumerate 0 (setCols assigns))"

definition transition_sql :: "run_assign list \<Rightarrow> string" where
  "transition_sql assigns =
     ''UPDATE job_runs SET '' @ join_with '', '' (map (\<lambda>(col, n). col @ '' = $'' @ nat_text n) (transition_sets assigns)) @
     '', updated_at = now() WHERE run_id = $1 AND state = ANY($2) RETURNING *''"

definition local_transition_columns :: "run_assign list \<Rightarrow> string list" where
  "local_transition_columns assigns = map (camel2snake \<circ> assign_key) assigns @ [''updated_at'']"

definition local_transition_sql :: "run_assign list \<Rightarrow> nat \<Rightarrow> string" where
  "local_transition_sql assigns fromStates =
     ''UPDATE job_runs SET '' @ join_with '', '' (map (\<lambda>k. camel2snake (assign_key k) @ '' = ?'') assigns) @
     '', updated_at = datetime('now') WHERE run_id = ? AND state IN ('' @ join_with '', '' (replicate fromStates ''?'') @ '')''"

section \<open>Lemmas\<close>

lemma assign_keys: "assign_key a \<in> set [''state'', ''attempt'', ''dispatchId'', ''startedAt'', ''endedAt'', ''heartbeatAt'', ''updatedAt'', ''status'',
    ''error'', ''runtimeExecution'', ''cancelRequestedAt'', ''cancelledAt'', ''cancelledBy'', ''cancelReason'']"
  by (cases a) simp_all

lemma snake_keys:
  "camel2snake ''state'' = ''state''" "camel2snake ''attempt'' = ''attempt''" "camel2snake ''dispatchId'' = ''dispatch_id''"
  "camel2snake ''startedAt'' = ''started_at''" "camel2snake ''endedAt'' = ''ended_at''" "camel2snake ''heartbeatAt'' = ''heartbeat_at''"
  "camel2snake ''updatedAt'' = ''updated_at''" "camel2snake ''status'' = ''status''" "camel2snake ''error'' = ''error''"
  "camel2snake ''runtimeExecution'' = ''runtime_execution''" "camel2snake ''cancelRequestedAt'' = ''cancel_requested_at''"
  "camel2snake ''cancelledAt'' = ''cancelled_at''" "camel2snake ''cancelledBy'' = ''cancelled_by''" "camel2snake ''cancelReason'' = ''cancel_reason''"
  by code_simp+

text \<open>Every column a transition names is one of the table.\<close>

lemma transition_columns_exist: "camel2snake (assign_key a) \<in> set (the (map_of SCHEMA ''job_runs''))"
  by (cases a) (simp_all add: snake_keys SCHEMA_def)

lemma snake_inj: "camel2snake (assign_key a) = camel2snake (assign_key b) \<Longrightarrow> assign_key a = assign_key b"
  by (cases a; cases b) (simp_all add: snake_keys)

text \<open>
  The Postgres statement names no column twice, \<open>updated_at\<close> included, and its placeholders number the values that follow the run
  and the states.
\<close>

lemma transition_columns_once:
  assumes "distinct (map assign_key assigns)"
  shows "distinct (map fst (transition_sets assigns) @ [''updated_at''])"
    and "map snd (transition_sets assigns) = [3..<3 + length (setCols assigns)]"
proof -
  have cols: "map fst (transition_sets assigns) = map camel2snake (setCols assigns)"
    by (simp add: transition_sets_def case_prod_unfold comp_def flip: map_map [of camel2snake snd, unfolded comp_def])
  have "inj_on camel2snake (set (setCols assigns))" using snake_inj by (auto simp: setCols_def inj_on_def)
  moreover have "distinct (setCols assigns)" using assms by (simp add: setCols_def)
  moreover have "''updated_at'' \<notin> camel2snake ` set (setCols assigns)"
    using snake_inj [of _ "SetUpdatedAt 0"] by (auto simp: setCols_def snake_keys)
  ultimately show "distinct (map fst (transition_sets assigns) @ [''updated_at''])" by (simp add: cols distinct_map)
  show "map snd (transition_sets assigns) = [3..<3 + length (setCols assigns)]"
    by (rule nth_equalityI) (simp_all add: transition_sets_def nth_enumerate_eq case_prod_unfold)
qed

text \<open>The SQLite statement keeps \<open>updatedAt\<close>, so it names that column twice; SQLite takes the last assignment.\<close>

lemma local_transition_repeats:
  "\<not> distinct (local_transition_columns assigns) \<longleftrightarrow> \<not> distinct (map assign_key assigns) \<or> ''updatedAt'' \<in> set (map assign_key assigns)"
proof -
  have "inj_on (camel2snake \<circ> assign_key) (set assigns) \<longleftrightarrow> inj_on assign_key (set assigns)"
    using snake_inj by (auto simp: inj_on_def)
  then have "distinct (map (camel2snake \<circ> assign_key) assigns) \<longleftrightarrow> distinct (map assign_key assigns)" by (simp add: distinct_map)
  moreover have "camel2snake (assign_key a) = ''updated_at'' \<longleftrightarrow> assign_key a = ''updatedAt''" for a
    using snake_inj [of a "SetUpdatedAt 0"] by (auto simp: snake_keys)
  then have "''updated_at'' \<in> (camel2snake \<circ> assign_key) ` set assigns \<longleftrightarrow> ''updatedAt'' \<in> assign_key ` set assigns"
    by (simp add: image_iff eq_commute [of "_ :: string"])
  ultimately show ?thesis by (simp add: local_transition_columns_def)
qed

end
