(* ===== verification/Job_Sdk.thy ===== *)
theory Job_Sdk
  imports Runtime_Executor Job_Parameters
begin

text \<open>
  The job's side of an execution: \<open>src/src/sdk/scheduler-sdk.js\<close>, which is copied beside every JavaScript
  job, and the runtime helpers \<open>src/src/runtime/context.js\<close>, \<open>result.js\<close> and \<open>status.js\<close>. The context file
  the executor writes is read back here, and the result line printed here is what the executor
  parses. The job itself and \<open>fetch\<close> are parameters; the parameter readers are those of \<open>Job_Parameters\<close>.
\<close>

section \<open>The context\<close>

type_synonym file_reader = "string \<Rightarrow> string + string"

definition runtimeContextError :: "string \<Rightarrow> string \<Rightarrow> js_error" where
  "runtimeContextError code message = (newError message)\<lparr>e_code := JStr code\<rparr>"

definition loadRuntimeContext :: "process_env \<Rightarrow> file_reader \<Rightarrow> json_parser \<Rightarrow> js_error + js" where
  "loadRuntimeContext env readFile parseJson =
     (case env ''IGA_SCHEDULER_CONTEXT_FILE'' of
        Some (c # cs) \<Rightarrow>
          (case readFile (c # cs) of
             Inl m \<Rightarrow> Inl (runtimeContextError ''RUNTIME_CONTEXT_FILE_READ_FAILED'' (''failed to read runtime context file: '' @ m))
           | Inr raw \<Rightarrow>
               (case parseJson raw of
                  Inl m \<Rightarrow> Inl (runtimeContextError ''RUNTIME_CONTEXT_JSON_INVALID'' (''runtime context JSON is invalid: '' @ m))
                | Inr v \<Rightarrow>
                    (case v of
                       JObj _ \<Rightarrow> Inr v
                     | _ \<Rightarrow> Inl (runtimeContextError ''RUNTIME_CONTEXT_INVALID'' ''runtime context must be a JSON object''))))
      | _ \<Rightarrow> Inl (runtimeContextError ''RUNTIME_CONTEXT_FILE_REQUIRED'' ''IGA_SCHEDULER_CONTEXT_FILE is required''))"

text \<open>The client a job is given.\<close>

datatype iga_client =
    BrokerIgaClient "string option" "string option" string
  | DirectIgaClient string string string string
  | NotConfigured

record job_context =
  jc_runId :: js
  jc_definition :: js
  jc_instance :: js
  jc_scheduledFireTime :: js
  jc_attempt :: js
  jc_params :: js
  jc_igaClient :: iga_client

text \<open>\<open>createRuntimeContext\<close> of the helpers has no client.\<close>

definition context_of :: "js \<Rightarrow> iga_client \<Rightarrow> job_context" where
  "context_of raw client =
     \<lparr>jc_runId = js_prop raw ''runId'', jc_definition = js_prop raw ''definition'', jc_instance = js_prop raw ''instance'',
      jc_scheduledFireTime = js_prop raw ''scheduledFireTime'', jc_attempt = js_prop raw ''attempt'',
      jc_params = js_or (js_prop raw ''params'') (JObj []), jc_igaClient = client\<rparr>"

definition createRuntimeContext :: "process_env \<Rightarrow> file_reader \<Rightarrow> json_parser \<Rightarrow> js_error + job_context" where
  "createRuntimeContext env readFile parseJson =
     (case loadRuntimeContext env readFile parseJson of Inl e \<Rightarrow> Inl e | Inr raw \<Rightarrow> Inr (context_of raw NotConfigured))"

text \<open>\<open>replace(/\/+$/, "")\<close>.\<close>

definition trim_slashes :: "string \<Rightarrow> string" where
  "trim_slashes s = rev (dropWhile (\<lambda>c. c = CHR ''/'') (rev s))"

definition buildIgaClient :: "process_env \<Rightarrow> iga_client" where
  "buildIgaClient env =
     (if truthy_str (env ''IGA_BROKER_URL'')
      then BrokerIgaClient (env ''IGA_SCHEDULER_RUN_ID'') (env ''IGA_SCHEDULER_DISPATCH_ID'') (trim_slashes (the (env ''IGA_BROKER_URL'')))
      else if truthy_str (env ''IGA_BASE_URL'') \<and> truthy_str (env ''IGA_TOKEN_ENDPOINT'') \<and> truthy_str (env ''IGA_CLIENT_ID'') \<and>
              truthy_str (env ''IGA_CLIENT_SECRET'')
      then DirectIgaClient (trim_slashes (the (env ''IGA_BASE_URL''))) (the (env ''IGA_TOKEN_ENDPOINT'')) (the (env ''IGA_CLIENT_ID''))
             (the (env ''IGA_CLIENT_SECRET''))
      else NotConfigured)"

text \<open>A context file that holds \<open>null\<close> makes the read of \<open>raw.params\<close> throw.\<close>

definition createContext :: "process_env \<Rightarrow> file_reader \<Rightarrow> json_parser \<Rightarrow> js_error + job_context" where
  "createContext env readFile parseJson =
     (case env ''IGA_SCHEDULER_CONTEXT_FILE'' of
        Some (c # cs) \<Rightarrow>
          (case (case readFile (c # cs) of Inl m \<Rightarrow> Inl m | Inr raw \<Rightarrow> parseJson raw) of
             Inl m \<Rightarrow> Inl (runtimeContextError ''RUNTIME_CONTEXT_FILE_READ_FAILED'' (''failed to read runtime context: '' @ m))
           | Inr raw \<Rightarrow>
               if nullish raw then Inl (newError ''Cannot read properties of null (reading 'params')'')
               else Inr (context_of raw (buildIgaClient env)))
      | _ \<Rightarrow> Inl (runtimeContextError ''RUNTIME_CONTEXT_FILE_REQUIRED'' ''IGA_SCHEDULER_CONTEXT_FILE is required''))"

section \<open>Results\<close>

definition STATUS_PREFIX :: string where "STATUS_PREFIX = ''IGA_STATUS_JSON:''"

text \<open>\<open>JSON.stringify\<close> in a template: \<open>undefined\<close> for an undefined value.\<close>

definition stringify :: "js \<Rightarrow> string" where
  "stringify v = (if v = JUndefined then ''undefined'' else json_text 0 v 0)"

definition emitResult :: "js \<Rightarrow> string" where
  "emitResult output = RESULT_PREFIX @ stringify output @ [CHR 0x0A]"

definition emitStatus :: "js \<Rightarrow> string" where
  "emitStatus v = STATUS_PREFIX @ stringify v @ [CHR 0x0A]"

text \<open>\<open>runJob\<close>: what the process prints, and whether the promise is rejected. The job prints on its own before it returns or throws.\<close>

definition runJob ::
  "process_env \<Rightarrow> file_reader \<Rightarrow> json_parser \<Rightarrow> (job_context \<Rightarrow> string \<times> (js_error + js)) \<Rightarrow> string \<times> (js_error + unit)" where
  "runJob env readFile parseJson job =
     (case createContext env readFile parseJson of
        Inl e \<Rightarrow> ([], Inl e)
      | Inr context \<Rightarrow>
          (case job context of
             (printed, Inl e) \<Rightarrow> (printed, Inl e)
           | (printed, Inr v) \<Rightarrow> (printed @ emitResult (coalesce v JNull), Inr ())))"

section \<open>The clients\<close>

text \<open>
  Both clients keep one token and retry once after a 401 with a fresh one. \<open>sc_now\<close> reads the clock by
  the number of requests sent; \<open>sc_fetch\<close> answers a request with a status and a text; \<open>sc_decode\<close> is the
  base64url decoder. The state is the cached token and the requests sent.
\<close>

datatype sdk_call =
    MetadataToken string
  | OAuthToken string string string
  | BrokerRequest string js string
  | DirectRequest string string js string

record sdk_env =
  sc_fetch :: "sdk_call list \<Rightarrow> sdk_call \<Rightarrow> js_error + nat \<times> string"
  sc_now :: "nat \<Rightarrow> instant"
  sc_parseJson :: json_parser
  sc_decode :: "string \<Rightarrow> string"

record sdk_state =
  sd_cached :: "(string \<times> rat) option"
  sd_calls :: "sdk_call list"

definition TOKEN_REFRESH_SKEW_MS :: rat where "TOKEN_REFRESH_SKEW_MS = 60000"

definition sdk_send :: "sdk_env \<Rightarrow> sdk_call \<Rightarrow> (sdk_state, nat \<times> string) eff" where
  "sdk_send env c = (\<lambda>s. (sc_fetch env (sd_calls s) c, s\<lparr>sd_calls := sd_calls s @ [c]\<rparr>))"

definition status_ok :: "nat \<Rightarrow> bool" where
  "status_ok n \<longleftrightarrow> 200 \<le> n \<and> n \<le> 299"

text \<open>\<open>parseJwtExp\<close>: the second part of the token, decoded and parsed; \<open>None\<close> for everything that throws or is no number.\<close>

definition parseJwtExp :: "sdk_env \<Rightarrow> string \<Rightarrow> rat option" where
  "parseJwtExp env jwt =
     (case split_on (CHR ''.'') jwt of
        _ # payload # _ \<Rightarrow>
          (case sc_parseJson env (sc_decode env payload) of
             Inr (JObj kvs) \<Rightarrow> (case js_prop (JObj kvs) ''exp'' of JNum (Fin q) \<Rightarrow> Some (q * 1000) | _ \<Rightarrow> None)
           | _ \<Rightarrow> None)
      | _ \<Rightarrow> None)"

definition fetchOidcToken :: "sdk_env \<Rightarrow> string \<Rightarrow> (sdk_state, string \<times> rat) eff" where
  "fetchOidcToken env brokerUrl = (\<lambda>s.
     let t = sc_now env (length (sd_calls s)) in
     andThen (sdk_send env (MetadataToken brokerUrl)) (\<lambda>(n, txt).
       if \<not> status_ok n then throw (newError (''OIDC token fetch failed: HTTP '' @ nat_text n @ '' '' @ txt))
       else ret (txt, case parseJwtExp env txt of Some q \<Rightarrow> q | None \<Rightarrow> of_nat t + 3600000)) s)"

definition fetchOAuthToken :: "sdk_env \<Rightarrow> string \<Rightarrow> string \<Rightarrow> string \<Rightarrow> (sdk_state, string \<times> rat) eff" where
  "fetchOAuthToken env endpoint clientId secret =
     andThen (sdk_send env (OAuthToken endpoint clientId secret)) (\<lambda>(n, txt). \<lambda>s.
       if \<not> status_ok n then (Inl (newError (''OAuth token request failed: HTTP '' @ nat_text n @ '' '' @ txt)), s)
       else case sc_parseJson env txt of
         Inl m \<Rightarrow> (Inl (newError m), s)
       | Inr json \<Rightarrow>
           if nullish json then (Inl (newError ''Cannot read properties of null (reading 'access_token')''), s)
           else if \<not> truthy (js_prop json ''access_token'') then (Inl (newError ''OAuth token response missing access_token''), s)
           else
             (Inr (js_String (js_prop json ''access_token''),
                   of_nat (sc_now env (length (sd_calls s))) +
                     (case js_Number (js_prop json ''expires_in'') of Fin q \<Rightarrow> if q > 0 then q else 300 | _ \<Rightarrow> 300) * 1000), s))"

definition sdk_getToken :: "sdk_env \<Rightarrow> (sdk_state, string \<times> rat) eff \<Rightarrow> (sdk_state, string) eff" where
  "sdk_getToken env fetchToken = (\<lambda>s.
     let refresh = andThen fetchToken (\<lambda>(token, expiresAtMs). \<lambda>s. (Inr token, s\<lparr>sd_cached := Some (token, expiresAtMs)\<rparr>)) in
     case sd_cached s of
       Some (token, expiresAtMs) \<Rightarrow>
         if expiresAtMs - of_nat (sc_now env (length (sd_calls s))) > TOKEN_REFRESH_SKEW_MS then (Inr token, s) else refresh s
     | None \<Rightarrow> refresh s)"

text \<open>\<open>_request\<close> of both clients up to the reading of the response: the request is built from the token.\<close>

function sdk_request :: "sdk_env \<Rightarrow> (sdk_state, string \<times> rat) eff \<Rightarrow> (string \<Rightarrow> sdk_call) \<Rightarrow> string \<Rightarrow> bool \<Rightarrow> (sdk_state, nat \<times> string) eff" where
  "sdk_request env fetchToken call token False = sdk_send env (call token)"
| "sdk_request env fetchToken call token True =
     andThen (sdk_send env (call token)) (\<lambda>(n, txt).
     if n = 401
     then andThen (\<lambda>s. (Inr (), s\<lparr>sd_cached := None\<rparr>)) (\<lambda>_.
          andThen (sdk_getToken env fetchToken) (\<lambda>freshToken. sdk_request env fetchToken call freshToken False))
     else ret (n, txt))"
  by pat_completeness auto
termination
  by (relation "measure (\<lambda>(env, fetchToken, call, token, retryOn401). if retryOn401 then 1 else 0)") auto

text \<open>The error of a refused request; its \<open>status\<close> is kept in \<open>e_statusCode\<close>.\<close>

definition request_failed :: "nat \<Rightarrow> js \<Rightarrow> js_error" where
  "request_failed n json =
     (newError (js_String (js_or (js_prop json ''message'') (JStr (''HTTP '' @ nat_text n)))))\<lparr>e_statusCode := JInt (int n), e_code := js_prop json ''code''\<rparr>"

definition broker_execute :: "sdk_env \<Rightarrow> js \<Rightarrow> js \<Rightarrow> string \<Rightarrow> js \<Rightarrow> js \<Rightarrow> js \<Rightarrow> (sdk_state, js) eff" where
  "broker_execute env runId dispatchId brokerUrl method path body =
     (let fetchToken = fetchOidcToken env brokerUrl;
          call = BrokerRequest (brokerUrl @ ''/internal/runtime/iga/request'')
                   (JObj [(''runId'', runId), (''dispatchId'', dispatchId), (''method'', method), (''path'', path), (''body'', body)]) in
      andThen (sdk_getToken env fetchToken) (\<lambda>token.
      andThen (sdk_request env fetchToken call token True) (\<lambda>(n, txt).
      let json = (case sc_parseJson env txt of Inr v \<Rightarrow> v | Inl _ \<Rightarrow> JObj []) in
      if nullish json
      then throw (newError (''Cannot read properties of null (reading '' @
             [CHR 0x27] @ (if status_ok n then ''result'' else ''message'') @ [CHR 0x27] @ '')''))
      else if \<not> status_ok n then throw (request_failed n json)
      else ret (js_prop json ''result''))))"

definition direct_execute :: "sdk_env \<Rightarrow> string \<Rightarrow> string \<Rightarrow> string \<Rightarrow> string \<Rightarrow> string \<Rightarrow> string \<Rightarrow> js \<Rightarrow> (sdk_state, js) eff" where
  "direct_execute env baseUrl endpoint clientId secret method path body =
     (let fetchToken = fetchOAuthToken env endpoint clientId secret; call = DirectRequest method (baseUrl @ path) body in
      andThen (sdk_getToken env fetchToken) (\<lambda>token.
      andThen (sdk_request env fetchToken call token True) (\<lambda>(n, txt).
      if \<not> status_ok n
      then throw (request_failed n (case sc_parseJson env txt of Inr v \<Rightarrow> coalesce v (JObj []) | Inl _ \<Rightarrow> JObj []))
      else if txt = [] then ret (JObj [])
      else case sc_parseJson env txt of Inl m \<Rightarrow> throw (newError m) | Inr v \<Rightarrow> ret v)))"

section \<open>One line of JSON\<close>

text \<open>A JSON text without indentation has no line break: the result is one line.\<close>

definition one_line :: "string \<Rightarrow> bool" where
  "one_line s \<longleftrightarrow> CHR 0x0A \<notin> set s \<and> CHR 0x0D \<notin> set s"

lemma one_line_append [simp]: "one_line (a @ b) \<longleftrightarrow> one_line a \<and> one_line b"
  by (auto simp: one_line_def)

lemma one_line_Cons: "one_line (c # b) \<longleftrightarrow> c \<noteq> CHR 0x0A \<and> c \<noteq> CHR 0x0D \<and> one_line b"
  by (auto simp: one_line_def)

lemma one_line_Nil [simp]: "one_line []"
  by (simp add: one_line_def)

lemma one_line_join: "one_line sep \<Longrightarrow> list_all one_line ws \<Longrightarrow> one_line (join_with sep ws)"
  by (induction sep ws rule: join_with.induct) auto

lemma one_line_digit: "n < 10 \<Longrightarrow> one_line [''0123456789'' ! n]"
proof -
  assume "n < 10"
  then have "''0123456789'' ! n \<in> set ''0123456789''" by (intro nth_mem) simp
  then show ?thesis by (auto simp: one_line_def)
qed

lemma one_line_nat: "one_line (nat_text n)"
proof (induction n rule: nat_text.induct)
  case (1 n)
  have "one_line [''0123456789'' ! (n mod 10)]" by (rule one_line_digit) simp
  then show ?case using 1 one_line_digit [of n] by (subst nat_text.simps) (simp del: nth_Cons_numeral)
qed

lemma one_line_frac: "0 \<le> q \<Longrightarrow> q < 1 \<Longrightarrow> one_line (frac_text k q)"
proof (induction k arbitrary: q)
  case (Suc k)
  have fl: "0 \<le> \<lfloor>10 * q\<rfloor>" "\<lfloor>10 * q\<rfloor> < 10" using Suc.prems by (simp_all add: floor_less_iff)
  have "one_line (frac_text k (10 * q - of_int \<lfloor>10 * q\<rfloor>))" by (rule Suc.IH) linarith+
  moreover have "one_line [''0123456789'' ! nat \<lfloor>10 * q\<rfloor>]" by (rule one_line_digit) (use fl in linarith)
  ultimately have "one_line ([''0123456789'' ! nat \<lfloor>10 * q\<rfloor>] @ frac_text k (10 * q - of_int \<lfloor>10 * q\<rfloor>))"
    unfolding one_line_append by blast
  then show ?case by simp
qed simp

lemma one_line_num: "one_line (num_text q)"
proof -
  have "one_line (frac_text 17 (\<bar>q\<bar> - of_int \<lfloor>\<bar>q\<bar>\<rfloor>))" by (rule one_line_frac) linarith+
  then show ?thesis by (simp add: num_text_def Let_def one_line_nat one_line_Cons)
qed

lemma one_line_hex: "n < 16 \<Longrightarrow> one_line [hex_digit n]"
proof -
  assume "n < 16"
  then have "''0123456789abcdef'' ! n \<in> set ''0123456789abcdef''" by (intro nth_mem) simp
  then show ?thesis by (auto simp: one_line_def hex_digit_def)
qed

lemma one_line_escape: "one_line (json_escape c)"
proof -
  have "one_line [hex_digit (of_char c div 16), hex_digit (of_char c mod 16)]" if "of_char c < (32 :: nat)"
    using one_line_hex [of "of_char c div 16"] one_line_hex [of "of_char c mod 16"] that by (simp add: one_line_Cons)
  then show ?thesis by (simp add: json_escape_def one_line_Cons)
qed

lemma one_line_quote: "one_line (json_quote s)"
  by (induction s) (simp_all add: json_quote_def one_line_escape one_line_Cons)

lemma one_line_json: "one_line (json_text 0 v n)"
proof (induction v arbitrary: n)
  case (JArr xs)
  then have "list_all one_line (map (\<lambda>f. f (Suc n)) (map (json_text 0) xs))" by (auto simp: list_all_iff)
  then show ?case by (simp add: json_wrap_def one_line_Cons one_line_join)
next
  case (JObj kvs)
  have member: "one_line (json_text 0 (snd kv) m)" if "kv \<in> set kvs" for kv m using JObj that by (cases kv) fastforce
  have "list_all one_line (map (\<lambda>(kv, k, f). json_quote k @ (if 0 = (0::nat) then '':'' else '': '') @ f (Suc n))
        (filter (\<lambda>(kv, k, f). snd kv \<noteq> JUndefined) (zip kvs (map (map_prod id (json_text 0)) kvs))))"
    by (auto simp: list_all_iff one_line_quote one_line_Cons set_zip map_prod_def split: prod.splits) (metis member nth_mem snd_conv)
  then show ?case by (simp add: json_wrap_def one_line_Cons one_line_join)
qed (auto simp: one_line_Cons one_line_num one_line_quote split: jsnum.split)

section \<open>The result line\<close>

definition printed_lines :: "string list \<Rightarrow> string" where
  "printed_lines ls = concat (map (\<lambda>l. l @ [CHR 0x0A]) ls)"

lemma split_on_line: "c \<notin> set a \<Longrightarrow> split_on c (a @ c # b) = a # split_on c b"
  by (induction a) auto

lemma split_printed:
  assumes "\<forall>l \<in> set ls. CHR 0x0A \<notin> set l" "CHR 0x0A \<notin> set a"
  shows "split_on (CHR 0x0A) (printed_lines ls @ a @ [CHR 0x0A]) = ls @ [a, []]"
  using assms by (induction ls) (auto simp: printed_lines_def split_on_line)

lemma strip_cr_prefix: "startsWith (strip_cr l) p \<Longrightarrow> startsWith l p"
  by (auto simp: strip_cr_def startsWith_iff endsWith_def) (metis append_assoc append_butlast_last_id butlast.simps(1))

lemma endsWith_char: "endsWith w [c] \<Longrightarrow> c \<in> set w"
  by (cases w rule: rev_cases) (auto simp: endsWith_def)

lemma find_first: "\<forall>x \<in> set xs. \<not> P x \<Longrightarrow> P y \<Longrightarrow> find P (xs @ y # ys) = Some y"
  by (induction xs) auto

lemma result_line:
  assumes "\<forall>l \<in> set ls. CHR 0x0A \<notin> set l \<and> \<not> startsWith l RESULT_PREFIX" "one_line payload"
  shows "find (\<lambda>line. startsWith line RESULT_PREFIX) (split_lines (printed_lines ls @ RESULT_PREFIX @ payload @ [CHR 0x0A])) =
    Some (RESULT_PREFIX @ payload)"
proof -
  let ?l = "RESULT_PREFIX @ payload"
  have l: "one_line ?l" using assms(2) by (simp add: RESULT_PREFIX_def one_line_Cons)
  then have "strip_cr ?l = ?l" using endsWith_char [of ?l "CHR 0x0D"] by (auto simp: strip_cr_def one_line_def)
  moreover have "split_on (CHR 0x0A) (printed_lines ls @ ?l @ [CHR 0x0A]) = ls @ [?l, []]"
    by (rule split_printed) (use assms(1) l in \<open>auto simp: one_line_def\<close>)
  ultimately have "split_lines (printed_lines ls @ ?l @ [CHR 0x0A]) = map strip_cr ls @ ?l # [[]]"
    by (simp add: split_lines_def butlast_append)
  moreover have "find (\<lambda>line. startsWith line RESULT_PREFIX) (map strip_cr ls @ ?l # [[]]) = Some ?l"
  proof (rule find_first)
    show "\<forall>x \<in> set (map strip_cr ls). \<not> startsWith x RESULT_PREFIX" using assms(1) strip_cr_prefix by auto
  qed (simp add: startsWith_iff)
  ultimately show ?thesis by simp
qed

section \<open>The file of the context\<close>

definition fs_reader :: "fs \<Rightarrow> file_reader" where
  "fs_reader fs path = (case fs (path_segments path) of Some (File c) \<Rightarrow> Inr c | _ \<Rightarrow> Inl ''ENOENT'')"

lemma segments_below:
  assumes "\<forall>w \<in> set ws. clean w" "ws \<noteq> []"
  shows "path_segments (p @ ''/'' @ join_with ''/'' ws) = path_segments p @ ws"
proof -
  have "split_on (CHR ''/'') (join_with ''/'' ws) = ws"
    using split_on_join [OF assms(2), of "CHR ''/''"] assms(1) by (auto simp: clean_def)
  then have s: "split_on (CHR ''/'') (p @ ''/'' @ join_with ''/'' ws) = split_on (CHR ''/'') p @ ws"
    using split_on_join2 [of "CHR ''/''" p "join_with ''/'' ws"] by simp
  have "foldl (norm_segment False) st ws = rev ws @ st" for st
    using assms(1)
  proof (induction ws arbitrary: st)
    case (Cons w ws)
    then have "norm_segment False st w = w # st" by (simp add: norm_segment_def clean_def)
    with Cons show ?case by simp
  qed simp
  then show ?thesis unfolding path_segments_def norm_segments_def s by simp
qed

lemma context_file_segments: "path_segments (dir @ ''/.iga/context.json'') = path_segments dir @ [''.iga'', ''context.json'']"
  using segments_below [of "[''.iga'', ''context.json'']" dir] by (simp add: clean_def)

lemma writeContextFile_reads:
  assumes "writeContextFile dir v s = (Inr file, s')"
  shows "file = dir @ ''/.iga/context.json'' \<and> fs_reader (os_fs s') file = Inr (json_text 2 v 0)"
proof -
  let ?d = "path_segments dir @ [''.iga'']"
  from assms obtain s1 where "andThen (os_call (fs_write (?d @ [''context.json'']) (json_text 2 v 0))) (\<lambda>_. ret (dir @ ''/.iga/context.json'')) s1 = (Inr file, s')"
    unfolding writeContextFile_def Let_def by (rule andThen_cases) auto
  then obtain u s2 where w: "os_call (fs_write (?d @ [''context.json'']) (json_text 2 v 0)) s1 = (Inr u, s2)"
    and "ret (dir @ ''/.iga/context.json'') s2 = (Inr file, s')" by (rule andThen_cases) blast+
  then have f: "file = dir @ ''/.iga/context.json''" "s' = s2" by simp_all
  have "os_fs s2 (?d @ [''context.json'']) = Some (File (json_text 2 v 0))"
    using w by (auto simp: os_call_def fs_write_def split: list.splits bool.splits if_splits)
  then show ?thesis using f by (simp add: fs_reader_def context_file_segments)
qed

section \<open>The environment of a job\<close>

text \<open>
  The executor hands on the broker's address and nothing of the credentials: a job it starts talks
  to the broker or has no client, never the direct one.
\<close>

lemma child_client:
  assumes "e = map_of (child_env xenv runId file dispatchId)"
  shows "e ''IGA_SCHEDULER_CONTEXT_FILE'' = Some file"
    "buildIgaClient e = (if truthy_str (xc_processEnv xenv ''RUNTIME_BROKER_URL'')
       then BrokerIgaClient (Some runId) (if truthy_str dispatchId then dispatchId else None)
              (trim_slashes (the (xc_processEnv xenv ''RUNTIME_BROKER_URL'')))
       else NotConfigured)"
  by (auto simp: assms child_env_def env_entry_def buildIgaClient_def split: option.split)

section \<open>Sample data\<close>

text \<open>A job that prints a line and returns 7, and a parser that knows the two texts of the sample.\<close>

definition seven_job :: "job_context \<Rightarrow> string \<times> (js_error + js)" where
  "seven_job ctx = (printed_lines [''hello''], Inr (JInt 7))"

definition seven_parse :: json_parser where
  "seven_parse t = (if t = ''7'' then Inr (JInt 7) else Inr (JObj [(''runId'', JStr ''a'')]))"

definition seven_exec :: exec_env where
  "seven_exec = sample_exec\<lparr>xc_parseJson := seven_parse\<rparr>"

section \<open>Properties\<close>



text \<open>
  C40. What the worker resolved is what the job sees. A job the executor starts reads, from the context file
  written for it, the run, the definition, the fire time, the attempt and the parameters of the runtime context,
  each in its JSON form; its client is bound to that run and dispatch when a broker is configured, and is
  missing otherwise.
\<close>

theorem job_sees_context:
  assumes "writeContextFile dir (buildRuntimeContext run x params) s = (Inr file, s')" and "truthy params"
    and "parseJson (json_text 2 (buildRuntimeContext run x params) 0) = Inr (jsonb (buildRuntimeContext run x params))"
    and "e = map_of (child_env xenv (rn_runId run) file (rn_dispatchId run))"
  shows "createContext e (fs_reader (os_fs s')) parseJson = Inr
    \<lparr>jc_runId = JStr (rn_runId run), jc_definition = jsonb (xe_definition x),
     jc_instance = JObj [(''instanceId'', JStr (rn_instanceId run))], jc_scheduledFireTime = iso (rn_scheduledFireTime run),
     jc_attempt = js_version (rn_attempt run), jc_params = js_or (jsonb params) (JObj []),
     jc_igaClient = (if truthy_str (xc_processEnv xenv ''RUNTIME_BROKER_URL'')
       then BrokerIgaClient (Some (rn_runId run)) (if truthy_str (rn_dispatchId run) then rn_dispatchId run else None)
              (trim_slashes (the (xc_processEnv xenv ''RUNTIME_BROKER_URL'')))
       else NotConfigured)\<rparr>"
proof -
  let ?v = "buildRuntimeContext run x params"
  obtain kvs where kvs: "?v = JObj kvs" "distinct (map fst kvs)" by (simp add: buildRuntimeContext_def)
  have p: "js_prop (jsonb ?v) k = jsonb (js_prop ?v k)" for k unfolding kvs(1) by (rule js_prop_jsonb [OF kvs(2)])
  have obj: "\<not> nullish (jsonb ?v)" by (simp add: kvs)
  have f: "file = dir @ ''/.iga/context.json''" "fs_reader (os_fs s') file = Inr (json_text 2 ?v 0)"
    using writeContextFile_reads [OF assms(1)] by blast+
  have "file \<noteq> []" using f(1) by simp
  then obtain c cs where cs: "file = c # cs" by (meson neq_Nil_conv)
  have "createContext e (fs_reader (os_fs s')) parseJson = Inr (context_of (jsonb ?v) (buildIgaClient e))"
    using child_client(1) [OF assms(4)] f(2) assms(3) obj by (simp add: createContext_def cs)
  moreover have "jsonb (js_version n) = js_version n" for n by (simp add: js_version_def split: option.split)
  ultimately show ?thesis unfolding child_client(2) [OF assms(4)] context_of_def p
    by (simp add: buildRuntimeContext_def iso_def del: jsonb.simps(7)) (simp add: iso_def)
qed

theorem job_sees_context_witness:
  "\<exists>ctx. createContext (map_of (child_env seven_exec ''a'' ''/w/.iga/context.json'' (Some ''new'')))
      (\<lambda>_. Inr (json_text 2 (buildRuntimeContext (rowToDocument (blank_run ''a'' 2 RUNNING (Some ''new''))) sample_execution (JObj [])) 0))
      (\<lambda>_. Inr (jsonb (buildRuntimeContext (rowToDocument (blank_run ''a'' 2 RUNNING (Some ''new''))) sample_execution (JObj [])))) = Inr ctx \<and>
     jc_runId ctx = JStr ''a'' \<and> jc_igaClient ctx = NotConfigured"
proof -
  let ?run = "rowToDocument (blank_run ''a'' 2 RUNNING (Some ''new''))"
  let ?v = "buildRuntimeContext ?run sample_execution (JObj [])"
  have segs: "path_segments ''/w'' = [''w'']" by (simp add: path_segments_def norm_segments_def norm_segment_def)
  let ?s = "\<lparr>os_fs = (\<lambda>_. None), os_faults = []\<rparr>"
  obtain cf s' where w: "writeContextFile ''/w'' ?v ?s = (Inr cf, s')"
    by (simp add: writeContextFile_def segs andThen_def os_call_def fs_mkdirp_def fs_write_def prefix_def Let_def)
  have f: "cf = ''/w/.iga/context.json''" "fs_reader (os_fs s') cf = Inr (json_text 2 ?v 0)"
    using writeContextFile_reads [OF w] by auto
  have run: "rn_runId ?run = ''a''" "rn_dispatchId ?run = Some ''new''" by (simp_all add: rowToDocument_def blank_run_def)
  have "xc_processEnv seven_exec ''RUNTIME_BROKER_URL'' = None" by (simp add: seven_exec_def sample_exec_def)
  then show ?thesis
    using job_sees_context [OF w, of "\<lambda>_. Inr (jsonb ?v)", OF _ _ refl, of seven_exec] f
    by (simp add: run child_client(1) [OF refl] createContext_def)
qed

end
