(* ===== verification/Job_Gateway.thy ===== *)
theory Job_Gateway
  imports Http_Service Job_Sdk
begin

text \<open>
  A running job and the scheduler it calls: the client of \<open>src/src/sdk/scheduler-sdk.js\<close> against the router of
  \<open>src/src/routes/internalRuntimeIga.js\<close>, with its authentication, the proxy behind it and the error handler of
  \<open>src/src/createApp.js\<close> that answers for it. The theory follows an answer of the IGA service, or its failure, back into the job.
\<close>

section \<open>The answer of the server\<close>

text \<open>The handler: \<open>res.json\<close> of the proxy's result, or \<open>next(error)\<close>.\<close>

definition runtime_iga_reply :: "pg gateway_env \<Rightarrow> string \<Rightarrow> js \<Rightarrow> js \<Rightarrow> pg gateway \<Rightarrow> js reply \<times> pg gateway" where
  "runtime_iga_reply env requestId prin body g =
     (case runtime_iga_route env prin body g of
        (Inr v, g') \<Rightarrow> (Reply 200 v, g')
      | (Inl e, g') \<Rightarrow> (globalErrorHandler e requestId, g'))"

fun reply_body :: "js reply \<Rightarrow> js" where
  "reply_body (Reply _ v) = v"
| "reply_body (ErrorReply _ v) = v"

definition broker_answer :: "app_env \<Rightarrow> string \<Rightarrow> string \<Rightarrow> js \<Rightarrow> pg gateway \<Rightarrow> js reply \<times> pg gateway" where
  "broker_answer app requestId token body g =
     (case check_channel (ae_runtime app) (Some (''Bearer '' @ token)) of
        Deny n m \<Rightarrow> (ErrorReply n (error_body m), g)
      | Next prin claims \<Rightarrow> runtime_iga_reply (ae_gateway app) requestId prin body g)"

text \<open>
  A job whose requests with this payload reach the server: \<open>server h\<close> is the state in which the server handles the request the job sends
  after the requests \<open>h\<close>. Both bodies travel as JSON.
\<close>

definition connected :: "sdk_env \<Rightarrow> app_env \<Rightarrow> (sdk_call list \<Rightarrow> string) \<Rightarrow> (sdk_call list \<Rightarrow> pg gateway) \<Rightarrow> js \<Rightarrow> bool" where
  "connected env app requestId server payload \<longleftrightarrow> (\<forall>h url token. \<exists>txt.
     let r = fst (broker_answer app (requestId h) token (jsonb payload) (server h)) in
     sc_fetch env h (BrokerRequest url payload token) = Inr (reply_status r, txt) \<and> sc_parseJson env txt = Inr (jsonb (reply_body r)))"

text \<open>Errors that carry no HTTP status, as those of \<open>fetch\<close>, of \<open>JSON.parse\<close> and of the database.\<close>

definition statusless :: "js_error \<Rightarrow> bool" where
  "statusless e \<longleftrightarrow> e_statusCode e = JUndefined \<and> e_meta_statusCode e = JUndefined"

definition statusless_network :: "pg gateway_env \<Rightarrow> bool" where
  "statusless_network env \<longleftrightarrow> (\<forall>k e. ge_fetchToken env k = Inl e \<longrightarrow> statusless e) \<and> (\<forall>k c e. ge_fetchIga env k c = Inl e \<longrightarrow> statusless e)"

section \<open>What a method may throw\<close>

definition throws :: "(js_error \<Rightarrow> bool) \<Rightarrow> ('s, 'a) eff \<Rightarrow> bool" where
  "throws P m \<longleftrightarrow> (\<forall>s e s'. m s = (Inl e, s') \<longrightarrow> P e)"

lemma throwsD: "throws P m \<Longrightarrow> m s = (Inl e, s') \<Longrightarrow> P e"
  by (auto simp: throws_def)

lemma throws_mono: "throws P m \<Longrightarrow> (\<And>e. P e \<Longrightarrow> Q e) \<Longrightarrow> throws Q m"
  by (auto simp: throws_def)

lemma throws_ret: "throws P (ret a)"
  by (simp add: throws_def)

lemma throws_throw: "P e \<Longrightarrow> throws P (throw e)"
  by (simp add: throws_def)

lemma throws_andThen: "throws P m \<Longrightarrow> (\<And>a. throws P (k a)) \<Longrightarrow> throws P (andThen m k)"
  by (auto simp: throws_def andThen_def split: prod.splits sum.splits)

text \<open>A handler that rethrows what it caught.\<close>

lemma throws_tryCatch: "throws P m \<Longrightarrow> (\<And>e. P e \<Longrightarrow> throws P (h e)) \<Longrightarrow> throws P (tryCatch m h)"
  by (fastforce simp: throws_def tryCatch_def split: prod.splits sum.splits)

lemmas throws_rules = throws_ret throws_throw throws_andThen throws_tryCatch

lemma statusless_newError [simp]: "statusless (newError m)"
  by (simp add: statusless_def newError_def)

lemma throws_fetchToken: "statusless_network env \<Longrightarrow> throws statusless (fetchToken env)"
  by (auto simp: throws_def fetchToken_def statusless_network_def Let_def split: sum.splits if_splits)

lemma throws_quiet: "throws P (gw_now env)" "throws P invalidate" "throws P (gw_emitAuditEvent env t oc i run prin c err d)"
  by (simp_all add: throws_def gw_now_def invalidate_def gw_emitAuditEvent_def Let_def)

lemma throws_getAccessToken: "statusless_network env \<Longrightarrow> throws statusless (getAccessToken env)"
proof -
  assume n: "statusless_network env"
  have r: "throws statusless (andThen (fetchToken env) (\<lambda>tk h. (Inr (tk_accessToken tk), h\<lparr>gw_cached := Some tk\<rparr>)))"
    by (intro throws_andThen throws_fetchToken n) (simp add: throws_def)
  have "throws statusless (andThen (gw_now env) (\<lambda>t. if isExpiringSoon env t tk
      then andThen (fetchToken env) (\<lambda>tk h. (Inr (tk_accessToken tk), h\<lparr>gw_cached := Some tk\<rparr>)) else ret (tk_accessToken tk)))" for tk
    by (intro throws_andThen throws_quiet) (simp add: r throws_ret)
  with r show ?thesis unfolding throws_def getAccessToken_def Let_def by (auto split: option.splits)
qed

lemma throws_iga_request: "statusless_network env \<Longrightarrow> throws statusless (iga_request env method path body retryOn401)"
proof -
  assume n: "statusless_network env"
  have send: "throws statusless (send env c)" for c using n by (auto simp: throws_def send_def statusless_network_def)
  have once: "throws statusless (iga_request env method path body False)"
    by (subst iga_request.simps) (auto intro!: throws_andThen throws_getAccessToken n send throws_ret throws_throw split: sum.split)
  then have "throws statusless (iga_request env method path body True)"
    by (subst iga_request.simps) (auto intro!: throws_andThen throws_getAccessToken n send throws_ret throws_throw throws_quiet split: sum.split)
  with once show ?thesis by (cases retryOn401) auto
qed

text \<open>The proxy passes a failure of the IGA service on without a status; only an answer that is too large has one, 502.\<close>

lemma throws_forward:
  assumes "statusless_network env"
  shows "throws (\<lambda>e. statusless e \<or> e_statusCode e = JInt 502) (proxy_forward env i run prin m p body)"
  unfolding proxy_forward_def Let_def
  by (intro throws_tryCatch throws_andThen throws_quiet)
    (auto intro!: throws_mono [OF throws_iga_request [OF assms]] throws_andThen throws_quiet throws_ret throws_throw
      simp: validateResponseSize_def badRequest_def newError_def)

section \<open>What the answers say\<close>

definition error_status :: "js_error \<Rightarrow> nat" where
  "error_status e = reply_status (globalErrorHandler e [] :: js reply)"

lemma error_reply_status: "reply_status (globalErrorHandler e requestId :: 'a reply) = error_status e"
  by (simp add: error_status_def globalErrorHandler_def Let_def)

lemma status_none: "statusless e \<Longrightarrow> error_status e = 500"
  by (simp add: statusless_def error_status_def globalErrorHandler_def Let_def js_or_def js_status_def)

lemma status_given:
  assumes "e_statusCode e = JInt n" "400 \<le> n" "n < 600"
  shows "error_status e = nat n"
proof -
  have "(of_int n :: rat) \<noteq> 0" "400 \<le> (of_int n :: rat)" "(of_int n :: rat) < 600" using assms(2,3) by linarith+
  then show ?thesis using assms(1) by (simp add: error_status_def globalErrorHandler_def Let_def js_or_def js_status_def)
qed

lemma status_badRequest: "400 \<le> n \<Longrightarrow> n < 600 \<Longrightarrow> error_status (badRequest code msg n) = nat n"
  by (rule status_given) (simp_all add: badRequest_def)

lemma gw_getRun_cases:
  assumes "ge_store env = RunStore"
  obtains g' where "gw_getRun env i g = (Inl dbError, g')"
    | g' where "gw_getRun env i g = (Inr (map_option rowToDocument (find_run i (pg_db (gw_db g)))), g')"
proof (cases "\<exists>fs. pg_faults (gw_db g) = True # fs")
  case True
  with assms that(1) show thesis by (auto simp: gw_getRun_def RunStore_def getRun_def exec_def)
next
  case False
  then have "fst (getRun i (gw_db g)) = Inr (map_option rowToDocument (find_run i (pg_db (gw_db g))))"
    by (auto simp: getRun_def exec_def split: list.split bool.split)
  with assms that(2) show thesis by (cases "getRun i (gw_db g)") (simp add: gw_getRun_def RunStore_def)
qed

lemma statusless_dbError: "statusless dbError"
  by (simp add: dbError_def)

lemma proxy_found:
  assumes "ge_store env = RunStore" "statusless_network env"
    and "proxy_request env runId dispatchId method path body prin g = (r, g')"
    and "\<forall>e. r = Inl e \<longrightarrow> error_status e = 409"
  obtains i row where "runId = JStr i" "find_run i (pg_db (gw_db g)) = Some row"
    "isl r \<longleftrightarrow> jr_state row \<noteq> RUNNING"
    "\<not> isl r \<Longrightarrow> case jr_dispatch_id row of None \<Rightarrow> True | Some d \<Rightarrow> d = [] \<or> dispatchId = JStr d"
proof -
  have forward: "\<not> isl r" if "andThen (gw_now env) (\<lambda>startedAt. andThen (gw_emitAuditEvent env t oc i run prin startedAt None d) (\<lambda>_.
      proxy_forward env i run prin m p body)) h = (r, g')" for t oc i run d m p h
  proof -
    have "throws (\<lambda>e. statusless e \<or> e_statusCode e = JInt 502) (andThen (gw_now env) (\<lambda>startedAt.
        andThen (gw_emitAuditEvent env t oc i run prin startedAt None d) (\<lambda>_. proxy_forward env i run prin m p body)))"
      by (intro throws_andThen throws_quiet throws_forward assms(2))
    then have "statusless e \<or> e_statusCode e = JInt 502" if "r = Inl e" for e
      using \<open>andThen _ _ h = (r, g')\<close> that unfolding throws_def by blast
    moreover have "\<not> (statusless e \<or> e_statusCode e = JInt 502)" if "r = Inl e" for e
      using assms(4) that status_none [of e] status_given [of e 502] by auto
    ultimately show ?thesis by (cases r) auto
  qed
  have db: "r \<noteq> Inl dbError" using assms(4) by (auto simp: status_none statusless_dbError)
  obtain c cs m p where i: "runId = JStr (c # cs)" and m: "normalizeMethod method = Inr m" and p: "normalizePath path = Inr p"
    and size: "validateRequestSize env body = None" and en: "ge_enabled env"
    using assms(3,4)
    by (auto simp: proxy_request_def throw_def status_badRequest normalizeMethod_def normalizePath_def validateRequestSize_def Let_def
        split: js.splits list.splits if_splits)
  show thesis
  proof (rule gw_getRun_cases [OF assms(1), of "c # cs" g])
    fix h assume "gw_getRun env (c # cs) g = (Inl dbError, h)"
    then have "r = Inl dbError" using assms(3) i m p size en by (simp add: proxy_request_def andThen_def)
    with db show thesis by simp
  next
    fix h assume get: "gw_getRun env (c # cs) g = (Inr (map_option rowToDocument (find_run (c # cs) (pg_db (gw_db g)))), h)"
    show thesis
    proof (cases "find_run (c # cs) (pg_db (gw_db g))")
      case None
      then show thesis using assms(3,4) i m p size en get by (auto simp: proxy_request_def andThen_def throw_def status_badRequest)
    next
      case (Some row)
      have doc: "rn_state (rowToDocument row) = jr_state row" "rn_dispatchId (rowToDocument row) = jr_dispatch_id row"
        by (simp_all add: rowToDocument_def)
      have bind: "andThen (gw_getRun env (c # cs)) k g = k (Some (rowToDocument row)) h" for k :: "run_doc option \<Rightarrow> (pg gateway, js) eff"
        by (simp add: andThen_def get Some)
      show thesis
      proof (rule that [OF i Some])
        show "isl r \<longleftrightarrow> jr_state row \<noteq> RUNNING"
          using assms(3,4) i m p size en forward
          by (auto simp: proxy_request_def bind throw_def doc status_badRequest split: if_splits)
        show "case jr_dispatch_id row of None \<Rightarrow> True | Some d \<Rightarrow> d = [] \<or> dispatchId = JStr d" if "\<not> isl r"
          using that assms(3) i m p size en
          by (auto simp: proxy_request_def bind throw_def doc split: if_splits option.splits)
      qed
    qed
  qed
qed

lemma proxy_result:
  assumes "proxy_request env runId dispatchId method path body prin g = (Inr v, g')"
  obtains m p res where "v = JObj [(''ok'', JBool True), (''method'', JStr m), (''path'', JStr p), (''result'', res)]"
proof -
  have "\<exists>m p res. v = JObj [(''ok'', JBool True), (''method'', JStr m), (''path'', JStr p), (''result'', res)]"
    using assms by (auto simp: proxy_request_def proxy_forward_def Let_def andThen_def tryCatch_def throw_def ret_def
        split: js.splits list.splits sum.splits option.splits if_splits prod.splits)
  with that show thesis by blast
qed

text \<open>An error of the server is in the range of errors, and its body names neither a message nor a code under the keys the client reads.\<close>

lemma error_status_range: "400 \<le> error_status e \<and> error_status e < 600"
proof -
  have "400 \<le> nat \<lfloor>q\<rfloor> \<and> nat \<lfloor>q\<rfloor> < 600" if "400 \<le> q" "q < 600" for q :: rat using that by linarith
  then show ?thesis
    by (auto simp: error_status_def globalErrorHandler_def Let_def js_status_def split: jsnum.splits if_splits)
qed

lemma error_body_silent:
  "js_prop (jsonb (reply_body (globalErrorHandler e requestId))) ''message'' = JUndefined"
  "js_prop (jsonb (reply_body (globalErrorHandler e requestId))) ''code'' = JUndefined"
  "\<not> nullish (jsonb (reply_body (globalErrorHandler e requestId)))"
  by (simp_all add: globalErrorHandler_def Let_def)

lemma check_channel_deny: "check_channel ch a = Deny n m \<Longrightarrow> n \<in> {401, 403}"
  by (auto simp: check_channel_def internalAuth_def Let_def split: option.splits sum.splits if_splits)

text \<open>The answers of the server, for a request that names a run.\<close>

lemma broker_answer_cases:
  assumes "ge_store (ae_gateway app) = RunStore" "statusless_network (ae_gateway app)"
    and "reply_status r = 409 \<or> status_ok (reply_status r)"
    and "r = fst (broker_answer app rid token body g)" "js_prop body ''runId'' = JStr i"
  obtains row where "find_run i (pg_db (gw_db g)) = Some row" "reply_status r = 409" "jr_state row \<noteq> RUNNING"
  | row prin g' where "find_run i (pg_db (gw_db g)) = Some row" "status_ok (reply_status r)" "jr_state row = RUNNING"
    "case jr_dispatch_id row of None \<Rightarrow> True | Some d \<Rightarrow> d = [] \<or> js_prop body ''dispatchId'' = JStr d"
    "runtime_iga_route (ae_gateway app) prin body g = (Inr (reply_body r), g')"
proof -
  obtain prin claims where "check_channel (ae_runtime app) (Some (''Bearer '' @ token)) = Next prin claims"
    using assms(3,4) check_channel_deny [of "ae_runtime app" "Some (''Bearer '' @ token)"]
    by (cases "check_channel (ae_runtime app) (Some (''Bearer '' @ token))") (auto simp: broker_answer_def status_ok_def)
  then have r: "r = fst (runtime_iga_reply (ae_gateway app) rid prin body g)" using assms(4) by (simp add: broker_answer_def)
  obtain x g' where x: "runtime_iga_route (ae_gateway app) prin body g = (x, g')" by fastforce
  then have px: "proxy_request (ae_gateway app) (js_prop body ''runId'') (js_prop body ''dispatchId'') (js_prop body ''method'')
      (js_prop body ''path'') (js_prop body ''body'') prin g = (x, g')" by (simp add: runtime_iga_route_def)
  have e409: "reply_status r = 409 \<and> error_status e = 409" if "x = Inl e" for e
    using that r x assms(3) error_status_range [of e] by (auto simp: runtime_iga_reply_def error_reply_status status_ok_def)
  then have "\<forall>e. x = Inl e \<longrightarrow> error_status e = 409" by blast
  from proxy_found [OF assms(1,2) px this] assms(5)
  obtain row where row: "find_run i (pg_db (gw_db g)) = Some row" "isl x \<longleftrightarrow> jr_state row \<noteq> RUNNING"
    "\<not> isl x \<Longrightarrow> case jr_dispatch_id row of None \<Rightarrow> True | Some d \<Rightarrow> d = [] \<or> js_prop body ''dispatchId'' = JStr d" by auto
  show thesis
  proof (cases x)
    case (Inl e)
    then show thesis using that(1) row(1,2) e409 by simp
  next
    case (Inr v)
    then have "r = Reply 200 v" using r x by (simp add: runtime_iga_reply_def)
    then show thesis using that(2) [of row prin g'] row Inr x by (simp add: status_ok_def)
  qed
qed

section \<open>The client\<close>

lemma sdk_send_result: "sdk_send env c s = (Inr (n, txt), s') \<Longrightarrow> sc_fetch env (butlast (sd_calls s')) c = Inr (n, txt)"
  by (auto simp: sdk_send_def)

lemma sdk_request_answer:
  assumes "sdk_request env ft call token retryOn401 s = (Inr (n, txt), s')"
  shows "\<exists>t. sc_fetch env (butlast (sd_calls s')) (call t) = Inr (n, txt)"
proof (cases retryOn401)
  case False
  then show ?thesis using assms sdk_send_result by fastforce
next
  case True
  then obtain n0 txt0 s0 where first: "sdk_send env (call token) s = (Inr (n0, txt0), s0)"
    using assms by (auto simp: andThen_def split: prod.splits sum.splits)
  show ?thesis
  proof (cases "n0 = 401")
    case True
    then obtain t s1 where "sdk_send env (call t) s1 = (Inr (n, txt), s')"
      using assms first \<open>retryOn401\<close> by (auto simp: andThen_def split: prod.splits sum.splits)
    then show ?thesis using sdk_send_result by blast
  next
    case False
    then show ?thesis using assms sdk_send_result [OF first] first \<open>retryOn401\<close> by (auto simp: andThen_def)
  qed
qed

definition statusless_fetch :: "sdk_env \<Rightarrow> bool" where
  "statusless_fetch env \<longleftrightarrow> (\<forall>h c e. sc_fetch env h c = Inl e \<longrightarrow> statusless e)"

lemma throws_sdk_send: "statusless_fetch env \<Longrightarrow> throws statusless (sdk_send env c)"
  by (auto simp: throws_def sdk_send_def statusless_fetch_def)

lemma throws_fetchOidcToken: "statusless_fetch env \<Longrightarrow> throws statusless (fetchOidcToken env url)"
proof -
  assume f: "statusless_fetch env"
  have "throws statusless (andThen (sdk_send env (MetadataToken url)) (\<lambda>(n, txt).
       if \<not> status_ok n then throw (newError (''OIDC token fetch failed: HTTP '' @ nat_text n @ '' '' @ txt))
       else ret (txt, case parseJwtExp env txt of Some q \<Rightarrow> q | None \<Rightarrow> of_nat t + 3600000)))" for t
    by (intro throws_andThen throws_sdk_send f) (auto intro: throws_throw throws_ret split: prod.split)
  then show ?thesis unfolding throws_def fetchOidcToken_def Let_def by blast
qed

lemma throws_sdk_getToken:
  assumes "throws P ft"
  shows "throws P (sdk_getToken env ft)"
proof -
  have "throws P (andThen ft (\<lambda>(token, expiresAtMs) s. (Inr token, s\<lparr>sd_cached := Some (token, expiresAtMs)\<rparr>)))"
    by (intro throws_andThen assms) (auto simp: throws_def)
  then show ?thesis unfolding throws_def sdk_getToken_def Let_def by (auto split: option.splits prod.splits if_splits)
qed

lemma throws_sdk_request:
  assumes "statusless_fetch env" "throws statusless ft"
  shows "throws statusless (sdk_request env ft call token retryOn401)"
proof -
  have once: "throws statusless (sdk_request env ft call t False)" for t using throws_sdk_send [OF assms(1)] by simp
  have "throws statusless (sdk_request env ft call token True)"
    unfolding sdk_request.simps(2)
    by (intro throws_andThen throws_sdk_send assms(1))
      (auto intro!: throws_andThen throws_sdk_getToken assms(2) once throws_ret simp del: sdk_request.simps simp: throws_def [of _ "\<lambda>s. (Inr (), s\<lparr>sd_cached := None\<rparr>)"])
  with once show ?thesis by (cases retryOn401) auto
qed

text \<open>The request of \<open>execute\<close>, and what \<open>execute\<close> makes of the last answer.\<close>

definition broker_payload :: "js \<Rightarrow> js \<Rightarrow> js \<Rightarrow> js \<Rightarrow> js \<Rightarrow> js" where
  "broker_payload runId dispatchId method path body =
     JObj [(''runId'', runId), (''dispatchId'', dispatchId), (''method'', method), (''path'', path), (''body'', body)]"

lemma broker_execute_answer:
  assumes "connected env app requestId server (broker_payload runId dispatchId method path body)" "statusless_fetch env"
    and "broker_execute env runId dispatchId url method path body s = (x, s')" "\<forall>e. x = Inl e \<longrightarrow> \<not> statusless e"
  obtains t r where "r = fst (broker_answer app (requestId (butlast (sd_calls s'))) t (jsonb (broker_payload runId dispatchId method path body))
      (server (butlast (sd_calls s'))))"
    "x = (if status_ok (reply_status r) then Inr (js_prop (jsonb (reply_body r)) ''result'')
          else Inl (request_failed (reply_status r) (jsonb (reply_body r))))"
proof -
  let ?ft = "fetchOidcToken env url" and ?h = "butlast (sd_calls s')" and ?call = "BrokerRequest (url @ ''/internal/runtime/iga/request'') (broker_payload runId dispatchId method path body)"
  have ft: "throws statusless ?ft" by (rule throws_fetchOidcToken [OF assms(2)])
  obtain token s1 where t: "sdk_getToken env ?ft s = (Inr token, s1)"
    using assms(3,4) throwsD [OF throws_sdk_getToken [OF ft], of env s]
    by (cases "sdk_getToken env ?ft s") (auto simp: broker_execute_def broker_payload_def [symmetric] Let_def andThen_def split: sum.splits)
  obtain n tx s2 where a: "sdk_request env ?ft ?call token True s1 = (Inr (n, tx), s2)"
    using assms(3,4) t throwsD [OF throws_sdk_request [OF assms(2) ft], of ?call token True s1]
    by (cases "sdk_request env ?ft ?call token True s1") (auto simp: broker_execute_def broker_payload_def [symmetric] Let_def andThen_def simp del: sdk_request.simps split: sum.splits)
  have "s2 = s'" using assms(3) t a
    by (auto simp: broker_execute_def broker_payload_def [symmetric] Let_def andThen_def throw_def ret_def simp del: sdk_request.simps split: if_splits)
  then obtain tk where f: "sc_fetch env ?h (?call tk) = Inr (n, tx)" using sdk_request_answer [OF a] by blast
  define r where "r = fst (broker_answer app (requestId ?h) tk (jsonb (broker_payload runId dispatchId method path body)) (server ?h))"
  obtain tx' where "sc_fetch env ?h (?call tk) = Inr (reply_status r, tx')" "sc_parseJson env tx' = Inr (jsonb (reply_body r))"
    using assms(1) unfolding connected_def Let_def r_def by blast
  with f have "n = reply_status r" "sc_parseJson env tx = Inr (jsonb (reply_body r))" by simp_all
  moreover have "\<not> nullish (jsonb (reply_body r))" if "sc_parseJson env tx = Inr (jsonb (reply_body r))"
    using assms(3,4) t a that by (auto simp: broker_execute_def broker_payload_def [symmetric] Let_def andThen_def throw_def simp del: sdk_request.simps split: if_splits)
  ultimately have "x = (if status_ok (reply_status r) then Inr (js_prop (jsonb (reply_body r)) ''result'')
      else Inl (request_failed (reply_status r) (jsonb (reply_body r))))"
    using assms(3) t a by (auto simp: broker_execute_def broker_payload_def [symmetric] Let_def andThen_def throw_def ret_def simp del: sdk_request.simps)
  with r_def that show thesis by blast
qed

lemma payload_props:
  "js_prop (jsonb (broker_payload (JStr i) dispatchId method path body)) ''runId'' = JStr i"
  "js_prop (jsonb (broker_payload runId dispatchId method path body)) ''dispatchId'' = jsonb dispatchId"
  unfolding broker_payload_def by (subst js_prop_jsonb, simp, simp)+

lemma jsonb_string: "jsonb v = JStr d \<Longrightarrow> v = JStr d"
  by (cases v) (auto split: jsnum.splits)

section \<open>What \<open>execute\<close> tells\<close>

lemma execute_result:
  assumes "connected env app requestId server (broker_payload (JStr i) dispatchId method path body)"
    and "ge_store (ae_gateway app) = RunStore" and "statusless_network (ae_gateway app)" and "statusless_fetch env"
    and "broker_execute env (JStr i) dispatchId url method path body s = (Inr v, s')"
  shows "\<exists>row prin m p res g'.
      find_run i (pg_db (gw_db (server (butlast (sd_calls s'))))) = Some row \<and> jr_state row = RUNNING \<and>
      (case jr_dispatch_id row of None \<Rightarrow> True | Some d \<Rightarrow> d = [] \<or> dispatchId = JStr d) \<and>
      runtime_iga_route (ae_gateway app) prin (jsonb (broker_payload (JStr i) dispatchId method path body)) (server (butlast (sd_calls s'))) =
        (Inr (JObj [(''ok'', JBool True), (''method'', JStr m), (''path'', JStr p), (''result'', res)]), g') \<and> v = jsonb res"
proof -
  let ?b = "jsonb (broker_payload (JStr i) dispatchId method path body)" and ?h = "butlast (sd_calls s')"
  have "\<forall>e. Inr v = Inl e \<longrightarrow> \<not> statusless e" by simp
  then obtain t r where r0: "r = fst (broker_answer app (requestId ?h) t ?b (server ?h))"
    and x: "Inr v = (if status_ok (reply_status r) then Inr (js_prop (jsonb (reply_body r)) ''result'')
      else Inl (request_failed (reply_status r) (jsonb (reply_body r))))"
    by (rule broker_execute_answer [OF assms(1,4,5)])
  have r: "status_ok (reply_status r)" "v = js_prop (jsonb (reply_body r)) ''result''"
    using x by (simp_all split: if_splits)
  then have "reply_status r = 409 \<or> status_ok (reply_status r)" by simp
  from broker_answer_cases [OF assms(2,3) this r0 payload_props(1)] r(1)
  obtain row prin g' where row: "find_run i (pg_db (gw_db (server ?h))) = Some row" "jr_state row = RUNNING"
    "case jr_dispatch_id row of None \<Rightarrow> True | Some d \<Rightarrow> d = [] \<or> jsonb dispatchId = JStr d"
    "runtime_iga_route (ae_gateway app) prin ?b (server ?h) = (Inr (reply_body r), g')"
    unfolding payload_props(2) by (auto simp: status_ok_def)
  obtain m p res where res: "reply_body r = JObj [(''ok'', JBool True), (''method'', JStr m), (''path'', JStr p), (''result'', res)]"
    using proxy_result [OF row(4) [unfolded runtime_iga_route_def]] .
  have "v = jsonb res" unfolding r(2) res by (subst js_prop_jsonb) simp_all
  moreover have "case jr_dispatch_id row of None \<Rightarrow> True | Some d \<Rightarrow> d = [] \<or> dispatchId = JStr d"
    using row(3) jsonb_string by (auto split: option.splits)
  ultimately show "\<exists>row prin m p res g'. find_run i (pg_db (gw_db (server ?h))) = Some row \<and> jr_state row = RUNNING \<and>
      (case jr_dispatch_id row of None \<Rightarrow> True | Some d \<Rightarrow> d = [] \<or> dispatchId = JStr d) \<and>
      runtime_iga_route (ae_gateway app) prin ?b (server ?h) =
        (Inr (JObj [(''ok'', JBool True), (''method'', JStr m), (''path'', JStr p), (''result'', res)]), g') \<and> v = jsonb res"
    using row(1,2,4) unfolding res by blast
qed

lemma execute_conflict:
  assumes "connected env app requestId server (broker_payload (JStr i) dispatchId method path body)"
    and "ge_store (ae_gateway app) = RunStore" and "statusless_network (ae_gateway app)" and "statusless_fetch env"
    and "broker_execute env (JStr i) dispatchId url method path body s = (Inl e, s')"
    and "e_statusCode e = JInt 409"
  shows "\<exists>row. find_run i (pg_db (gw_db (server (butlast (sd_calls s'))))) = Some row \<and> jr_state row \<noteq> RUNNING"
    and "e_message e = ''HTTP 409''" and "e_code e = JUndefined"
proof -
  let ?h = "butlast (sd_calls s')"
  have "\<forall>e'. Inl e = Inl e' \<longrightarrow> \<not> statusless e'" using assms(6) by (auto simp: statusless_def)
  then obtain t r where r: "r = fst (broker_answer app (requestId ?h) t (jsonb (broker_payload (JStr i) dispatchId method path body)) (server ?h))"
    and x: "Inl e = (if status_ok (reply_status r) then Inr (js_prop (jsonb (reply_body r)) ''result'')
      else Inl (request_failed (reply_status r) (jsonb (reply_body r))))"
    by (rule broker_execute_answer [OF assms(1,4,5)])
  have f: "e = request_failed (reply_status r) (jsonb (reply_body r))" using x by (simp split: if_splits)
  have n: "reply_status r = 409" using assms(6) f by (simp add: request_failed_def)
  then have "reply_status r = 409 \<or> status_ok (reply_status r)" by simp
  from broker_answer_cases [OF assms(2,3) this r payload_props(1)] n
  obtain row where "find_run i (pg_db (gw_db (server ?h))) = Some row" "jr_state row \<noteq> RUNNING" by (auto simp: status_ok_def)
  then show "\<exists>row. find_run i (pg_db (gw_db (server ?h))) = Some row \<and> jr_state row \<noteq> RUNNING" by blast
  have body: "js_prop (jsonb (reply_body r)) ''message'' = JUndefined \<and> js_prop (jsonb (reply_body r)) ''code'' = JUndefined"
    using r n check_channel_deny [of "ae_runtime app" "Some (''Bearer '' @ t)"] error_body_silent
    by (auto simp: broker_answer_def runtime_iga_reply_def split: auth_result.splits prod.splits sum.splits)
  then show "e_message e = ''HTTP 409''" "e_code e = JUndefined"
    unfolding f n by (simp_all add: request_failed_def js_or_def newError_def nat_text.simps)
qed

section \<open>Sample data\<close>

text \<open>A job of the sample application: its metadata server gives the token \<open>runtime\<close>, and its requests reach \<open>sample_gateway\<close>.\<close>

definition sample_answer :: js where
  "sample_answer = JObj [(''ok'', JBool True), (''method'', JStr ''GET''), (''path'', JStr ''/x''), (''result'', JObj [])]"

definition sample_job_env :: sdk_env where
  "sample_job_env = \<lparr>sc_fetch = (\<lambda>h c. case c of
       BrokerRequest url payload token \<Rightarrow>
         (case check_channel (ae_runtime sample_app_env) (Some (''Bearer '' @ token)) of
            Deny n m \<Rightarrow> Inr (n, ''e'' @ m)
          | Next prin claims \<Rightarrow> Inr (200, ''ok''))
     | _ \<Rightarrow> Inr (200, ''runtime'')),
     sc_now = (\<lambda>_. 0), sc_parseJson = (\<lambda>t. Inr (if t = ''ok'' then sample_answer else error_body (tl t))), sc_decode = (\<lambda>t. t)\<rparr>"

abbreviation sample_payload :: js where
  "sample_payload \<equiv> broker_payload (JStr ''a'') (JStr ''new'') (JStr ''get'') (JStr ''/x'') JUndefined"

lemma sample_send:
  "\<exists>g'. iga_request sample_gateway_env m p body True g = (Inr (JObj []), g')" if "gw_cached g = None"
  using that
  by (subst iga_request.simps)
    (simp add: andThen_def getAccessToken_def fetchToken_def send_def sample_gateway_env_def hr_ok_def Let_def ret_def js_or_def)

lemma sample_forward:
  assumes "gw_cached g = None"
  shows "\<exists>g'. proxy_forward sample_gateway_env i run prin ''GET'' ''/x'' body g = (Inr sample_answer, g')"
proof -
  obtain g' where "iga_request sample_gateway_env ''GET'' ''/x'' body True g = (Inr (JObj []), g')" using sample_send [OF assms] by blast
  moreover have "validateResponseSize sample_gateway_env (JObj []) = None"
    by (simp add: validateResponseSize_def js_or_def sample_gateway_env_def byteLength_def json_wrap_def)
  ultimately show ?thesis
    by (simp add: proxy_forward_def Let_def tryCatch_def andThen_def gw_now_def gw_emitAuditEvent_def ret_def sample_answer_def
        del: iga_request.simps)
qed

lemma sample_route:
  "\<exists>g'. runtime_iga_route sample_gateway_env prin (jsonb sample_payload) sample_gateway = (Inr sample_answer, g')"
proof -
  have v: "normalizeMethod (JStr ''get'') = Inr ''GET''" "normalizePath (JStr ''/x'') = Inr ''/x''"
    by (simp_all add: normalizeMethod_def normalizePath_def absolute_url_def js_or_def upper_ascii_def ALLOWED_METHODS_def lower_char_def Let_def)
  have e: "ge_enabled sample_gateway_env" "validateRequestSize sample_gateway_env JUndefined = None"
    by (simp_all add: sample_gateway_env_def validateRequestSize_def)
  have run: "gw_getRun sample_gateway_env ''a'' sample_gateway = (Inr (Some (rowToDocument (blank_run ''a'' 2 RUNNING (Some ''new'')))), sample_gateway)"
    using running_pg_ok by (simp add: gw_getRun_def sample_gateway_env_def sample_gateway_def RunStore_def getRun_def exec_def running_pg_def)
  have "gw_cached sample_gateway = None" by (simp add: sample_gateway_def)
  then show ?thesis
    using sample_forward
    by (simp add: runtime_iga_route_def broker_payload_def proxy_request_def v e run andThen_def gw_now_def gw_emitAuditEvent_def
        rowToDocument_def blank_run_def Let_def)
qed

lemma sample_connected: "connected sample_job_env sample_app_env (\<lambda>_. []) (\<lambda>_. sample_gateway) sample_payload"
  unfolding connected_def Let_def
proof (intro allI)
  fix h url token
  let ?r = "fst (broker_answer sample_app_env [] token (jsonb sample_payload) sample_gateway)"
  show "\<exists>txt. sc_fetch sample_job_env h (BrokerRequest url sample_payload token) = Inr (reply_status ?r, txt) \<and>
      sc_parseJson sample_job_env txt = Inr (jsonb (reply_body ?r))"
  proof (cases "check_channel (ae_runtime sample_app_env) (Some (''Bearer '' @ token))")
    case (Deny n m)
    then have "?r = ErrorReply n (error_body m)" by (simp add: broker_answer_def)
    with Deny show ?thesis by (simp add: sample_job_env_def error_body_def)
  next
    case (Next prin claims)
    then have "?r = fst (runtime_iga_reply sample_gateway_env [] prin (jsonb sample_payload) sample_gateway)"
      by (simp add: broker_answer_def sample_app_env_def)
    also have "\<dots> = Reply 200 sample_answer" using sample_route [of prin] by (auto simp only: runtime_iga_reply_def prod.case sum.case fst_conv)
    finally have "?r = Reply 200 sample_answer" .
    with Next show ?thesis by (simp add: sample_job_env_def sample_answer_def)
  qed
qed

abbreviation sample_execute :: "(sdk_state, js) eff" where
  "sample_execute \<equiv> broker_execute sample_job_env (JStr ''a'') (JStr ''new'') ''https://broker'' (JStr ''get'') (JStr ''/x'') JUndefined"

lemma sample_execute_result: "fst (sample_execute \<lparr>sd_cached = None, sd_calls = []\<rparr>) = Inr (JObj [])"
proof -
  have "bearer_token ''Bearer runtime'' = Some ''runtime''" by code_simp
  then have ch: "check_channel (ae_runtime sample_app_env) (Some (''Bearer '' @ ''runtime'')) =
      Next (JStr ''RUNTIME_SERVICE_ACCOUNT_EMAIL'') (JObj [(''aud'', JStr ''RUNTIME_BROKER_URL''), (''email'', JStr ''RUNTIME_SERVICE_ACCOUNT_EMAIL'')])"
    by (simp add: sample_app_env_def check_channel_def internalAuth_def runtime_channel_def sample_verify_def sample_process_env_def Let_def js_or_def)
  have fetch: "sc_fetch sample_job_env h (BrokerRequest url payload ''runtime'') = Inr (200, ''ok'')"
    "sc_fetch sample_job_env h (MetadataToken url) = Inr (200, ''runtime'')" for h url payload
    using ch by (simp_all add: sample_job_env_def)
  show ?thesis
    by (simp add: broker_execute_def Let_def andThen_def sdk_getToken_def fetchOidcToken_def sdk_send_def fetch status_ok_def ret_def)
      (simp add: sample_job_env_def sample_answer_def)
qed

section \<open>Properties\<close>



end
