(* ===== verification/Job_Base.thy ===== *)
theory Job_Base
  imports Job_Sdk
begin

text \<open>
  What a job is written against: the base class of \<open>src/src/index.js\<close> with its audit events, and the copy of the parameter reader that
  \<open>src/src/sdk/scheduler-sdk.js\<close> carries into the job's directory.
\<close>

section \<open>The base class\<close>

datatype job_event =
    JobLog string js
  | JobAudit string js

text \<open>\<open>jb_audit\<close> answers the audit call of an event, \<open>jb_execute\<close> is the job's own \<open>execute\<close>, which may report events itself.\<close>

record job_env =
  jb_context :: js
  jb_audit :: "job_event list \<Rightarrow> string \<Rightarrow> js \<Rightarrow> js_error + unit"
  jb_execute :: "(job_event list, js) eff"

definition job_log :: "string \<Rightarrow> js \<Rightarrow> (job_event list, unit) eff" where
  "job_log msg details = (\<lambda>h. (Inr (), h @ [JobLog msg details]))"

definition job_audit :: "job_env \<Rightarrow> string \<Rightarrow> js \<Rightarrow> (job_event list, unit) eff" where
  "job_audit env n details = (\<lambda>h. (jb_audit env h n details, h @ [JobAudit n details]))"

definition SchedulerJob_run :: "job_env \<Rightarrow> (job_event list, js) eff" where
  "SchedulerJob_run env =
     (let info = JObj (map (\<lambda>k. (k, js_prop (jb_context env) k)) [''runId'', ''definitionId'', ''instanceId'']) in
     andThen (job_log ''Job started'' info) (\<lambda>_.
     andThen (job_audit env ''JOB_STARTED'' JUndefined) (\<lambda>_.
     tryCatch
       (andThen (jb_execute env) (\<lambda>result.
        andThen (job_audit env ''JOB_SUCCEEDED'' (JObj [(''result'', result)])) (\<lambda>_. ret result)))
       (\<lambda>error. let d = JObj [(''error'', JStr (e_message error))] in
        andThen (job_log ''Job failed'' d) (\<lambda>_. andThen (job_audit env ''JOB_FAILED'' d) (\<lambda>_. throw error))))))"

text \<open>\<open>execute\<close> of a job that does not override it.\<close>

definition SchedulerJob_execute :: "(job_event list, js) eff" where
  "SchedulerJob_execute = throw (newError ''execute(context) must be implemented by the job'')"

section \<open>The reader of the SDK\<close>

definition sdk_reader_get :: "js \<Rightarrow> string \<Rightarrow> js \<Rightarrow> js" where
  "sdk_reader_get params name defaultValue = (let v = js_prop params name in if v = JUndefined then defaultValue else v)"

definition sdk_parameterError :: "string \<Rightarrow> string \<Rightarrow> js_error" where
  "sdk_parameterError code message = (newError message)\<lparr>e_code := JStr code\<rparr>"

definition sdk_reader_require :: "js \<Rightarrow> string \<Rightarrow> js_error + js" where
  "sdk_reader_require params name =
     (let v = js_prop params name in
      if v = JUndefined \<or> v = JNull \<or> v = JStr []
      then Inl (sdk_parameterError ''RUNTIME_PARAMETER_REQUIRED'' (''required runtime parameter is missing: '' @ name))
      else Inr v)"

definition sdk_check :: "(js \<Rightarrow> bool) \<Rightarrow> string \<Rightarrow> string \<Rightarrow> js \<Rightarrow> js_error + js" where
  "sdk_check ok what name v =
     (if \<not> ok v then Inl (sdk_parameterError ''RUNTIME_PARAMETER_TYPE_INVALID'' (''runtime parameter '' @ name @ '' must be a '' @ what)) else Inr v)"

definition sdk_reader_string :: "js \<Rightarrow> string \<Rightarrow> js \<Rightarrow> js_error + js" where
  "sdk_reader_string params name defaultValue =
     (let v = sdk_reader_get params name defaultValue in if v = JUndefined then Inr JUndefined else sdk_check is_string ''string'' name v)"

definition sdk_reader_requiredString :: "js \<Rightarrow> string \<Rightarrow> js_error + js" where
  "sdk_reader_requiredString params name =
     (case sdk_reader_require params name of Inl e \<Rightarrow> Inl e | Inr v \<Rightarrow> sdk_check is_string ''string'' name v)"

definition sdk_reader_stringArray :: "js \<Rightarrow> string \<Rightarrow> js \<Rightarrow> js_error + js" where
  "sdk_reader_stringArray params name defaultValue =
     (let v = sdk_reader_get params name defaultValue in if v = JUndefined then Inr JUndefined else sdk_check string_array ''string array'' name v)"

definition sdk_reader_requiredStringArray :: "js \<Rightarrow> string \<Rightarrow> js_error + js" where
  "sdk_reader_requiredStringArray params name =
     (case sdk_reader_require params name of Inl e \<Rightarrow> Inl e | Inr v \<Rightarrow> sdk_check string_array ''string array'' name v)"

section \<open>Lemmas\<close>

text \<open>The two readers agree.\<close>

lemma sdk_reader_agrees:
  "sdk_reader_get = reader_get" "sdk_reader_require = reader_require" "sdk_reader_string = reader_string"
  "sdk_reader_requiredString = reader_requiredString" "sdk_reader_stringArray = reader_stringArray"
  "sdk_reader_requiredStringArray = reader_requiredStringArray"
proof -
  have n: "nullish v \<longleftrightarrow> v = JUndefined \<or> v = JNull" for v by (cases v) auto
  show g: "sdk_reader_get = reader_get" by (simp add: fun_eq_iff sdk_reader_get_def reader_get_def Let_def)
  show r: "sdk_reader_require = reader_require"
    by (simp add: fun_eq_iff sdk_reader_require_def reader_require_def sdk_parameterError_def parameterError_def Let_def n)
  have c: "sdk_check ok what name v = (if \<not> ok v then Inl (typeInvalid name what) else Inr v)" for ok what name v
    by (simp add: sdk_check_def typeInvalid_def sdk_parameterError_def parameterError_def)
  show "sdk_reader_string = reader_string" "sdk_reader_requiredString = reader_requiredString" "sdk_reader_stringArray = reader_stringArray"
    "sdk_reader_requiredStringArray = reader_requiredStringArray"
    by (simp_all add: fun_eq_iff sdk_reader_string_def reader_string_def sdk_reader_requiredString_def reader_requiredString_def
        sdk_reader_stringArray_def reader_stringArray_def sdk_reader_requiredStringArray_def reader_requiredStringArray_def g r c Let_def split: sum.split)
qed

text \<open>
  What a run reports: a result only of an \<open>execute\<close> that returned it, with \<open>JOB_STARTED\<close> first and \<open>JOB_SUCCEEDED\<close> last; an exception
  is rethrown after \<open>JOB_FAILED\<close>, if the audit takes it.
\<close>

lemma job_run_returns:
  assumes "SchedulerJob_run env h = (Inr v, h')"
  shows "\<exists>i h1 h2. h1 = h @ [i, JobAudit ''JOB_STARTED'' JUndefined] \<and> jb_execute env h1 = (Inr v, h2) \<and>
    h' = h2 @ [JobAudit ''JOB_SUCCEEDED'' (JObj [(''result'', v)])]"
  using assms by (auto simp: SchedulerJob_run_def Let_def andThen_def tryCatch_def job_log_def job_audit_def ret_def throw_def
      split: prod.splits sum.splits)

text \<open>The audit call of a success is made inside the \<open>try\<close>: when it fails, a job that did its work is reported as failed.\<close>

lemma lost_success_audit:
  assumes "jb_audit env (h @ [JobLog ''Job started'' (JObj (map (\<lambda>k. (k, js_prop (jb_context env) k)) [''runId'', ''definitionId'', ''instanceId'']))])
      ''JOB_STARTED'' JUndefined = Inr ()"
    and "\<And>h. jb_execute env h = (Inr v, h)" "\<And>h d. jb_audit env h ''JOB_SUCCEEDED'' d = Inl e" "\<And>h d. jb_audit env h ''JOB_FAILED'' d = Inr ()"
  shows "\<exists>h'. SchedulerJob_run env h = (Inl e, h') \<and> JobAudit ''JOB_SUCCEEDED'' (JObj [(''result'', v)]) \<in> set h' \<and>
    JobAudit ''JOB_FAILED'' (JObj [(''error'', JStr (e_message e))]) \<in> set h'"
  using assms by (simp add: SchedulerJob_run_def Let_def andThen_def tryCatch_def job_log_def job_audit_def ret_def throw_def)

end
