(* ===== verification/Example_Jobs.thy ===== *)
theory Example_Jobs
  imports Job_Gateway Job_Base "HOL-Library.Multiset"
begin

text \<open>
  The jobs of \<open>src/examples/js\<close>, written against the SDK: \<open>hello-world-job\<close>, \<open>risk-score-job\<close> and \<open>create-managed-users-job\<close>.
  The last one loops as often as a parameter says; the lemmas say when it ends, what it then reports, and what its two log
  lines for a refused user mean behind the scheduler's proxy.
\<close>

section \<open>The client and the base class of the SDK\<close>

definition text_or_undefined :: "string option \<Rightarrow> js" where
  "text_or_undefined t = (case t of Some v \<Rightarrow> JStr v | None \<Rightarrow> JUndefined)"

text \<open>\<open>context.igaClient.execute\<close> of the three clients \<open>buildIgaClient\<close> makes.\<close>

definition igaClient_execute :: "sdk_env \<Rightarrow> iga_client \<Rightarrow> string \<Rightarrow> string \<Rightarrow> js \<Rightarrow> (sdk_state, js) eff" where
  "igaClient_execute env client method path body =
     (case client of
        BrokerIgaClient runId dispatchId url \<Rightarrow>
          broker_execute env (text_or_undefined runId) (text_or_undefined dispatchId) url (JStr method) (JStr path) body
      | DirectIgaClient baseUrl endpoint clientId secret \<Rightarrow> direct_execute env baseUrl endpoint clientId secret method path body
      | NotConfigured \<Rightarrow>
          throw ((newError ''igaClient is not configured: IGA_BROKER_URL is missing'')\<lparr>e_code := JStr ''IGA_CLIENT_NOT_CONFIGURED''\<rparr>))"

text \<open>\<open>SchedulerJob\<close>: \<open>run\<close> is \<open>execute\<close>, which a job has to override.\<close>

definition sdk_job_run :: "(job_context \<Rightarrow> ('s, js) eff) option \<Rightarrow> job_context \<Rightarrow> ('s, js) eff" where
  "sdk_job_run override context =
     (case override of Some job \<Rightarrow> job context | None \<Rightarrow> throw (newError ''execute(context) must be implemented''))"

section \<open>\<open>hello-world-job\<close>\<close>

text \<open>A reader's result with \<open>??\<close> on it; the state is what the job wrote to its standard error.\<close>

definition param_string_or :: "js \<Rightarrow> string \<Rightarrow> string \<Rightarrow> js_error + js" where
  "param_string_or params name fallback =
     (case sdk_reader_string params name JUndefined of Inl e \<Rightarrow> Inl e | Inr v \<Rightarrow> Inr (coalesce v (JStr fallback)))"

definition info_line :: "string \<Rightarrow> string" where
  "info_line msg = ''[INFO] '' @ msg @ [CHR 0x0A]"

definition HelloWorldJob_execute :: "job_context \<Rightarrow> (string, js) eff" where
  "HelloWorldJob_execute context = (\<lambda>err.
     case param_string_or (jc_params context) ''greeting'' ''Hello'' of
       Inl e \<Rightarrow> (Inl e, err)
     | Inr greeting \<Rightarrow>
         (case param_string_or (jc_params context) ''target'' ''World'' of
            Inl e \<Rightarrow> (Inl e, err)
          | Inr target \<Rightarrow>
              let message = js_String greeting @ '', '' @ js_String target @ ''!'' in
              (Inr (JObj [(''message'', JStr message), (''runId'', jc_runId context),
                          (''scheduledFireTime'', jc_scheduledFireTime context), (''attempt'', jc_attempt context)]),
               err @ info_line message @ info_line (''runId: '' @ js_String (jc_runId context)) @
                 info_line (''scheduledFireTime: '' @ js_String (jc_scheduledFireTime context)))))"

section \<open>\<open>risk-score-job\<close>\<close>

definition RiskScoreJob_execute :: "sdk_env \<Rightarrow> job_context \<Rightarrow> (sdk_state, js) eff" where
  "RiskScoreJob_execute env context =
     (case sdk_reader_requiredString (jc_params context) ''scanType'' of
        Inl e \<Rightarrow> throw e
      | Inr scanType \<Rightarrow>
          (case sdk_reader_requiredStringArray (jc_params context) ''applications'' of
             Inl e \<Rightarrow> throw e
           | Inr applications \<Rightarrow>
               andThen (igaClient_execute env (jc_igaClient context) ''POST'' ''/scheduler/risk-scores/recompute''
                          (JObj [(''scanType'', scanType), (''applications'', applications)])) (\<lambda>response.
               if nullish response
               then throw (newError (''Cannot read properties of '' @ js_String response @ '' (reading 'requestId')''))
               else ret (JObj [(''status'', JStr ''submitted''), (''igaRequestId'', js_prop response ''requestId'')]))))"

section \<open>\<open>create-managed-users-job\<close>\<close>

definition GIVEN_NAMES :: "string list" where
  "GIVEN_NAMES = [''James'', ''William'', ''Henry'', ''Charles'', ''George'', ''Thomas'', ''Edward'', ''Robert'', ''Richard'', ''Arthur'']"

definition SURNAMES :: "string list" where
  "SURNAMES = [''Harrison'', ''Fletcher'', ''Whitmore'', ''Caldwell'', ''Bennett'', ''Sinclair'', ''Montgomery'', ''Ashford'', ''Pemberton'',
     ''Holloway'']"

definition padStart :: "nat \<Rightarrow> char \<Rightarrow> string \<Rightarrow> string" where
  "padStart n c s = replicate (n - length s) c @ s"

definition user_name :: "string \<Rightarrow> nat \<Rightarrow> string" where
  "user_name userNamePrefix index = userNamePrefix @ padStart 2 (CHR ''0'') (nat_text (index + 1))"

definition buildUser :: "nat \<Rightarrow> string \<Rightarrow> string \<Rightarrow> js" where
  "buildUser index userNamePrefix mailDomain =
     (let userName = user_name userNamePrefix index in
      JObj [(''userName'', JStr userName), (''givenName'', JStr (GIVEN_NAMES ! (index mod length GIVEN_NAMES))),
            (''sn'', JStr (SURNAMES ! (index mod length SURNAMES))), (''mail'', JStr (userName @ ''@'' @ mailDomain))])"

definition MANAGED_USER_PATH :: string where "MANAGED_USER_PATH = ''/openidm/managed/alpha_user''"

text \<open>The three lines a user gives on the standard error, and what the loop collects.\<close>

datatype user_line =
    CreatedUser string
  | AlreadyExists string
  | CreateFailed string string

record users =
  us_created :: "string list"
  us_skipped :: "(string \<times> string) list"
  us_lines :: "user_line list"

definition create_user :: "(js \<Rightarrow> ('s, js) eff) \<Rightarrow> string \<Rightarrow> string \<Rightarrow> nat \<Rightarrow> users \<times> 's \<Rightarrow> users \<times> 's" where
  "create_user post userNamePrefix mailDomain i = (\<lambda>(u, s).
     let name = user_name userNamePrefix i in
     case post (buildUser i userNamePrefix mailDomain) s of
       (Inr _, s') \<Rightarrow> (u\<lparr>us_created := us_created u @ [name], us_lines := us_lines u @ [CreatedUser name]\<rparr>, s')
     | (Inl err, s') \<Rightarrow>
         (u\<lparr>us_lines := us_lines u @ [if e_statusCode err = JInt 409 then AlreadyExists name else CreateFailed name (e_message err)],
            us_skipped := us_skipped u @ [(name, e_message err)]\<rparr>, s'))"

text \<open>\<open>i < count\<close>: \<open>NaN\<close> compares false, \<open>Infinity\<close> always true.\<close>

fun below :: "nat \<Rightarrow> jsnum \<Rightarrow> bool" where
  "below i (Fin q) \<longleftrightarrow> of_nat i < q"
| "below i PosInf \<longleftrightarrow> True"
| "below i NegInf \<longleftrightarrow> False"
| "below i NaN \<longleftrightarrow> False"

text \<open>The loop; \<open>None\<close> when it does not end.\<close>

partial_function (option) create_loop ::
  "(js \<Rightarrow> ('s, js) eff) \<Rightarrow> string \<Rightarrow> string \<Rightarrow> jsnum \<Rightarrow> nat \<Rightarrow> users \<times> 's \<Rightarrow> (users \<times> 's) option" where
  "create_loop post userNamePrefix mailDomain cnt i st =
     (if below i cnt then create_loop post userNamePrefix mailDomain cnt (Suc i) (create_user post userNamePrefix mailDomain i st)
      else Some st)"

definition users_report :: "jsnum \<Rightarrow> users \<Rightarrow> js" where
  "users_report cnt u =
     JObj [(''requested'', JNum cnt), (''created'', JInt (int (length (us_created u)))), (''skipped'', JInt (int (length (us_skipped u)))),
           (''createdUsers'', JArr (map JStr (us_created u))),
           (''skippedUsers'', JArr (map (\<lambda>(n, r). JObj [(''userName'', JStr n), (''reason'', JStr r)]) (us_skipped u)))]"

definition users_count :: "js \<Rightarrow> jsnum" where
  "users_count params = js_Number (coalesce (sdk_reader_get params ''count'' (JInt 10)) (JInt 10))"

definition CreateManagedUsersJob_execute ::
  "(js \<Rightarrow> ('s, js) eff) \<Rightarrow> js \<Rightarrow> 's \<Rightarrow> ((js_error + js) \<times> user_line list \<times> 's) option" where
  "CreateManagedUsersJob_execute post params s =
     (case param_string_or params ''userNamePrefix'' ''test-user-'' of
        Inl e \<Rightarrow> Some (Inl e, [], s)
      | Inr userNamePrefix \<Rightarrow>
          (case param_string_or params ''mailDomain'' ''example.com'' of
             Inl e \<Rightarrow> Some (Inl e, [], s)
           | Inr mailDomain \<Rightarrow>
               map_option (\<lambda>(u, s'). (Inr (users_report (users_count params) u), us_lines u, s'))
                 (create_loop post (js_String userNamePrefix) (js_String mailDomain) (users_count params) 0
                    (\<lparr>us_created = [], us_skipped = [], us_lines = []\<rparr>, s))))"

section \<open>The loop ends, unless it is asked for infinitely many users\<close>

definition iterations :: "jsnum \<Rightarrow> nat" where
  "iterations cnt = (case cnt of Fin q \<Rightarrow> nat \<lceil>q\<rceil> | _ \<Rightarrow> 0)"

lemma below_iterations: "cnt \<noteq> PosInf \<Longrightarrow> below i cnt \<longleftrightarrow> i < iterations cnt"
proof (cases cnt)
  case (Fin q)
  have "rat_of_nat i < q \<longleftrightarrow> i < nat \<lceil>q\<rceil>" by (metis less_ceiling_iff of_int_of_nat_eq zless_nat_eq_int_zless)
  with Fin show ?thesis by (simp add: iterations_def)
qed (simp_all add: iterations_def)

lemma create_loop_fold:
  assumes "cnt \<noteq> PosInf"
  shows "create_loop post p d cnt i st = Some (fold (create_user post p d) [i..<iterations cnt] st)"
proof (induction "iterations cnt - i" arbitrary: i st)
  case 0
  then show ?case using assms by (subst create_loop.simps) (simp add: below_iterations)
next
  case (Suc k)
  then have "i < iterations cnt" "k = iterations cnt - Suc i" by simp_all
  with Suc(1) [of "Suc i"] show ?case using assms by (subst create_loop.simps) (simp add: below_iterations upt_conv_Cons)
qed

lemma create_loop_forever: "create_loop post p d PosInf i st = None"
proof (cases "create_loop post p d PosInf i st")
  case (Some r)
  have "PosInf \<noteq> PosInf"
    by (rule create_loop.raw_induct [where P = "\<lambda>post p d cnt i st r. cnt \<noteq> PosInf", OF _ Some]) (auto split: if_splits)
  then show ?thesis by simp
qed

section \<open>The names of the users differ\<close>

lemma nat_text_nonempty: "nat_text n \<noteq> []"
  by (subst nat_text.simps) simp

lemma nat_text_inj: "nat_text m = nat_text n \<Longrightarrow> m = n"
proof (induction m arbitrary: n rule: less_induct)
  case (less m)
  have len: "length (nat_text k) = 1 \<longleftrightarrow> k < 10" for k
    using nat_text_nonempty by (subst nat_text.simps) simp
  have short: "m < 10 \<longleftrightarrow> n < 10" using len [of m] len [of n] less(2) by simp
  show ?case
  proof (cases "m < 10")
    case True
    with short less(2) show ?thesis by (auto simp: nat_text.simps [of m] nat_text.simps [of n] intro: digit_inj)
  next
    case False
    with short less(2) have "nat_text (m div 10) = nat_text (n div 10)" "''0123456789'' ! (m mod 10) = ''0123456789'' ! (n mod 10)"
      by (simp_all add: nat_text.simps [of m] nat_text.simps [of n])
    then have "m div 10 = n div 10" "m mod 10 = n mod 10" using less(1) [of "m div 10" "n div 10"] False digit_inj [of "m mod 10" "n mod 10"] by simp_all
    then show ?thesis by (metis div_mult_mod_eq)
  qed
qed

lemma nat_text_no_zero: "0 < n \<Longrightarrow> hd (nat_text n) \<noteq> CHR ''0''"
proof (induction n rule: less_induct)
  case (less n)
  show ?case
  proof (cases "n < 10")
    case True
    then show ?thesis using less(2) digit_inj [of n 0] by (auto simp: nat_text.simps [of n])
  next
    case False
    then show ?thesis using less(1) [of "n div 10"] by (simp add: nat_text.simps [of n] nat_text_nonempty)
  qed
qed

lemma padded_inj:
  assumes "0 < m" "0 < n" "padStart 2 (CHR ''0'') (nat_text m) = padStart 2 (CHR ''0'') (nat_text n)"
  shows "m = n"
proof -
  have strip: "dropWhile (\<lambda>c. c = CHR ''0'') (padStart 2 (CHR ''0'') (nat_text k)) = nat_text k" if "0 < k" for k
  proof -
    have "dropWhile (\<lambda>c. c = CHR ''0'') (nat_text k) = nat_text k" using nat_text_no_zero [OF that] by (cases "nat_text k") auto
    moreover have "dropWhile (\<lambda>c. c = CHR ''0'') (replicate j (CHR ''0'') @ t) = dropWhile (\<lambda>c. c = CHR ''0'') t" for j t
      by (induction j) auto
    ultimately show ?thesis by (simp add: padStart_def)
  qed
  show ?thesis using strip [OF assms(1)] strip [OF assms(2)] assms(3) nat_text_inj by metis
qed

lemma user_names_distinct: "distinct (map (user_name p) [0..<n])"
  using padded_inj [of "Suc _" "Suc _"] by (auto simp: distinct_map user_name_def intro!: inj_onI)

section \<open>What the job reports\<close>

text \<open>Every user asked for is in exactly one of the two lists.\<close>

lemma create_user_counts:
  assumes "create_user post p d i (u, s) = (u', s')"
  shows "mset (us_created u') + mset (map fst (us_skipped u')) = mset (us_created u) + mset (map fst (us_skipped u)) + {#user_name p i#}"
  using assms by (auto simp: create_user_def Let_def split: prod.splits sum.splits)

lemma create_users_counts:
  "fold (create_user post p d) is (u, s) = (u', s') \<Longrightarrow>
     mset (us_created u') + mset (map fst (us_skipped u')) = mset (us_created u) + mset (map fst (us_skipped u)) + mset (map (user_name p) is)"
proof (induction "is" arbitrary: u s)
  case (Cons i "is")
  obtain u1 s1 where "create_user post p d i (u, s) = (u1, s1)" by fastforce
  with Cons show ?case using create_user_counts by fastforce
qed simp

lemma create_users_report:
  assumes "users_count params \<noteq> PosInf" "param_string_or params ''userNamePrefix'' ''test-user-'' = Inr (JStr p)"
    and "param_string_or params ''mailDomain'' ''example.com'' = Inr (JStr d)"
  obtains u s' where "CreateManagedUsersJob_execute post params s = Some (Inr (users_report (users_count params) u), us_lines u, s')"
    and "mset (us_created u @ map fst (us_skipped u)) = mset (map (user_name p) [0..<iterations (users_count params)])"
    and "distinct (us_created u @ map fst (us_skipped u))"
    and "length (us_created u) + length (us_skipped u) = iterations (users_count params)"
proof -
  obtain u s' where f: "fold (create_user post p d) [0..<iterations (users_count params)] (\<lparr>us_created = [], us_skipped = [], us_lines = []\<rparr>, s) = (u, s')"
    by fastforce
  have m: "mset (us_created u @ map fst (us_skipped u)) = mset (map (user_name p) [0..<iterations (users_count params)])"
    using create_users_counts [OF f] by simp
  then have "distinct (us_created u @ map fst (us_skipped u))" using user_names_distinct mset_eq_imp_distinct_iff by blast
  moreover have "length (us_created u) + length (us_skipped u) = iterations (users_count params)"
    using arg_cong [OF m, of size] by simp
  moreover have "CreateManagedUsersJob_execute post params s = Some (Inr (users_report (users_count params) u), us_lines u, s')"
    using assms by (simp add: CreateManagedUsersJob_execute_def create_loop_fold f)
  ultimately show thesis using that m by blast
qed

text \<open>A \<open>count\<close> that is no number gives no user, and no error either.\<close>

lemma no_number_no_user:
  assumes "users_count params = NaN" "param_string_or params ''userNamePrefix'' ''test-user-'' = Inr p"
    and "param_string_or params ''mailDomain'' ''example.com'' = Inr d"
  shows "CreateManagedUsersJob_execute post params s =
    Some (Inr (users_report NaN \<lparr>us_created = [], us_skipped = [], us_lines = []\<rparr>), [], s)"
  using assms by (simp add: CreateManagedUsersJob_execute_def create_loop_fold iterations_def)

text \<open>
  Behind the scheduler's proxy the job reports a user as one that already exists only when the run is no longer \<open>RUNNING\<close>: a 409 of
  the IGA service itself reaches the job as a 500.
\<close>

lemma create_user_refused:
  assumes "\<And>payload. connected env app requestId server payload" "ge_store (ae_gateway app) = RunStore"
    and "statusless_network (ae_gateway app)" "statusless_fetch env"
    and "\<forall>h row. find_run i (pg_db (gw_db (server h))) = Some row \<longrightarrow> jr_state row = RUNNING"
    and "create_user (igaClient_execute env (BrokerIgaClient (Some i) dispatchId url) ''POST'' MANAGED_USER_PATH) p d k (u, s) = (u', s')"
    and "AlreadyExists n \<in> set (us_lines u')"
  shows "AlreadyExists n \<in> set (us_lines u)"
proof -
  let ?user = "buildUser k p d"
  obtain x s1 where x: "broker_execute env (JStr i) (text_or_undefined dispatchId) url (JStr ''POST'') (JStr MANAGED_USER_PATH) ?user s = (x, s1)"
    by fastforce
  have "e_statusCode e \<noteq> JInt 409" if "x = Inl e" for e
    using execute_conflict(1) [OF assms(1-4) x [unfolded that]] assms(5) by blast
  with x assms(6,7) show ?thesis
    by (auto simp: create_user_def igaClient_execute_def text_or_undefined_def Let_def split: sum.splits)
qed

lemma already_exists_means_stopped:
  assumes "\<And>payload. connected env app requestId server payload" "ge_store (ae_gateway app) = RunStore"
    and "statusless_network (ae_gateway app)" "statusless_fetch env"
    and "\<forall>h row. find_run i (pg_db (gw_db (server h))) = Some row \<longrightarrow> jr_state row = RUNNING"
    and "fold (create_user (igaClient_execute env (BrokerIgaClient (Some i) dispatchId url) ''POST'' MANAGED_USER_PATH) p d) ks (u, s) = (u', s')"
    and "AlreadyExists n \<in> set (us_lines u')"
  shows "AlreadyExists n \<in> set (us_lines u)"
  using assms(6)
proof (induction ks arbitrary: u s)
  case Nil
  with assms(7) show ?case by simp
next
  case (Cons k ks)
  obtain u1 s1 where k: "create_user (igaClient_execute env (BrokerIgaClient (Some i) dispatchId url) ''POST'' MANAGED_USER_PATH) p d k (u, s) = (u1, s1)"
    by fastforce
  with Cons have "AlreadyExists n \<in> set (us_lines u1)" by simp
  then show ?case using create_user_refused [OF assms(1-5) k] by blast
qed

text \<open>The greeting with no parameters, and a risk score that is asked for without the parameters it requires.\<close>

lemma hello_default:
  "jc_params context = JObj [] \<Longrightarrow> \<exists>v err'. HelloWorldJob_execute context err = (Inr v, err') \<and> js_prop v ''message'' = JStr ''Hello, World!''"
  by (simp add: HelloWorldJob_execute_def param_string_or_def sdk_reader_string_def sdk_reader_get_def coalesce_def Let_def)

lemma risk_score_asks_nothing:
  assumes "sdk_reader_requiredString (jc_params context) ''scanType'' = Inl e \<or> sdk_reader_requiredStringArray (jc_params context) ''applications'' = Inl e"
  shows "\<exists>e'. RiskScoreJob_execute env context s = (Inl e', s)"
  using assms by (auto simp: RiskScoreJob_execute_def throw_def split: sum.split)

end
