(* ===== verification/Spec2Isabelle.thy ===== *)
theory Spec2Isabelle
  imports Worker_Shutdown Provisioning Instance_Schema Store_Statements Example_Jobs
begin

text \<open>
  The IGA job scheduler of \<open>src/src\<close> and its scripts in \<open>src/scripts\<close>, modelled and verified.

  \<^bold>\<open>The program.\<close> Administrators upload job definitions (a zip and its metadata) and create instances of them with
  a cron schedule. A tick, triggered from outside, turns every due instance into a queued run in Postgres. Workers
  poll the table, claim queued runs, verify and extract the artifact, resolve the parameters, run the job as a
  child process and record its result. Operators retry, cancel and re-drive runs; a sweeper finishes runs whose worker
  is gone. A running job reaches the IGA service through a proxy of the scheduler only. A local mode replaces
  Postgres, Elasticsearch and Cloud Storage by SQLite and files. The processes share nothing but the
  two tables, so their statements interleave.

  \<^bold>\<open>The theories\<close>, in the order in which they build on each other.
  \<^item> \<open>Sched_Prelude\<close>: JavaScript values and operators, errors, and the monad \<open>eff\<close> of stateful code that may throw.
  \<^item> \<open>Schedule\<close>: instants, ISO timestamps, \<open>utils/runId.js\<close>, \<open>utils/schedule.js\<close>.
  \<^item> \<open>Retry_Classifier\<close>: \<open>services/retryClassifier.js\<close>.
  \<^item> \<open>Db_Tables\<close>: the tables of \<open>src/migrations\<close>, the documents of the stores, statements that may fail, transactions.
  \<^item> \<open>Run_Store\<close>, \<open>Local_Run_Store\<close>, \<open>Instance_Store\<close>: \<open>stores/runStore.js\<close>, \<open>backends/local/localRunStore.js\<close>,
    \<open>stores/instanceStore.js\<close> and \<open>backends/local/localInstanceStore.js\<close>, with the contracts of the stores as
    locales (\<open>run_store_laws\<close>, its extension \<open>fenced_run_store\<close>, \<open>instance_store_laws\<close>) interpreted on them.
  \<^item> \<open>Scheduler_Tick\<close>, \<open>Run_Control\<close>, \<open>Stale_Sweeper\<close>: \<open>services/schedulerTickService.js\<close>,
    \<open>services/runControlService.js\<close>, \<open>services/staleRunSweeper.js\<close>.
  \<^item> \<open>Zip_Policy\<close>, \<open>Zip_Artifact\<close>: \<open>utils/zipArtifactPolicy.js\<close>, \<open>utils/zipValidation.js\<close>, \<open>utils/safeZipExtract.js\<close> over a model of
    a file system.
  \<^item> \<open>Worker_Run\<close>: \<open>services/workerRunService.js\<close>. \<open>Runtime_Executor\<close>: \<open>services/jobRuntimeExecutor.js\<close>.
    \<open>Worker_Loop\<close>: \<open>workers/pollLoop.js\<close>, \<open>services/runDispatcher.js\<close>.
  \<^item> \<open>Job_Parameters\<close>: the parameter checks of \<open>services/jobInstanceService.js\<close>, \<open>services/secretManagerParameterResolver.js\<close>,
    \<open>backends/local/localParameterResolver.js\<close>, \<open>runtime/params.js\<close>. \<open>Job_Sdk\<close>: \<open>sdk/scheduler-sdk.js\<close> and the other helpers of \<open>runtime\<close>.
  \<^item> \<open>Instance_Service\<close>, \<open>Definition_Service\<close>: \<open>services/jobInstanceService.js\<close>, \<open>services/jobDefinitionService.js\<close>,
    \<open>backends/local/localDefinitionService.js\<close>, their routes and the definition schema.
  \<^item> \<open>Iga_Gateway\<close>: the authentication middlewares, \<open>iga/tokenManager.js\<close>, \<open>iga/igaClient.js\<close>, \<open>services/runtimeIgaProxyService.js\<close>.
  \<^item> \<open>Run_Lifecycle\<close>: the life of a run as an abstract machine, and all processes as steps on one database.
  \<^item> \<open>Http_Service\<close>: the remaining routes, \<open>createApp.js\<close>, \<open>config/productionValidation.js\<close>, \<open>main.js\<close>.
  \<^item> \<open>Deploy_Config\<close>: \<open>config/index.js\<close>, \<open>clients\<close>, \<open>elasticsearch/schedulerIndexMappings.js\<close>, the flags of \<open>scripts/prod/lib.js\<close>
    and the environment checks of \<open>scripts/prod/preflight.js\<close>. \<open>Deploy_Scripts\<close>: the rest of the preflight, over the calls it makes to the services
    and the lines it prints. \<open>Provisioning\<close>: \<open>bootstrap-prod.js\<close>, \<open>teardown.js\<close>, \<open>bootstrap.js\<close>, \<open>bootstrap-es-indices.js\<close>, and what the services
    hold after a sequence of calls (\<open>world\<close>).
  \<^item> \<open>Public_Auth\<close>: the verifier behind \<open>middleware/publicAuth.js\<close> with the discovery of its keys.
  \<^item> \<open>Local_Worker\<close>: \<open>backends/local/localWorkerRunService.js\<close>; the locale \<open>artifact_verifier\<close> is what both workers promise of an artifact
    they accept. \<open>Local_Db\<close>: \<open>backends/local/db.js\<close>, \<open>localPool.js\<close>; \<open>Store_Statements\<close>: the text both stores build
    for a transition.
  \<^item> \<open>Process_Wiring\<close>, \<open>Worker_Shutdown\<close>: \<open>app.js\<close>, \<open>app.local.js\<close>, \<open>main.js\<close>, \<open>scripts/prod/upload-definition.js\<close>, \<open>workers/app.js\<close>, \<open>workers/workerApp.js\<close>.
  \<^item> \<open>Instance_Schema\<close>: \<open>validation/jobInstanceSchema.js\<close>. \<open>Job_Base\<close>: the base class of \<open>index.js\<close> and the parameter reader of the SDK.
  \<^item> \<open>Job_Gateway\<close>: a job's client against the router, proxy and error handler it calls. \<open>Example_Jobs\<close>: the jobs of \<open>src/examples/js\<close>.
  \<^item> This theory: what spans components.

  \<^bold>\<open>How code is modelled.\<close> A method is one definition with the source's name, a class its state as a record; a name that two
  classes share carries a prefix. A promise that rejects is \<open>Inl\<close> of an error with the properties the code reads.
  Every SQL statement is one step on the tables that may fail (\<open>pg_faults\<close>); a transaction restores the tables when
  it does. Code that awaits between statements takes a function \<open>others\<close> that changes the database
  arbitrarily at every such point (restricted by \<open>rely\<close> where the result needs it). Timestamps are instants read from
  arguments, random identifiers are arguments. Integers of the sources are unbounded or small; the symlink test works on
  32-bit words, as JavaScript's bitwise operators do, and numbers read from text or JSON are rationals, infinities or NaN.

  \<^bold>\<open>Parameters.\<close> What is not in the repository enters as an argument: the cron library, Elasticsearch, Cloud Storage and Secret
  Manager, jose and Google's token verifier, \<open>fetch\<close>, \<open>JSON.parse\<close>, yauzl's reading of an archive, SHA-256, zod, SQLite, node-pg-migrate. The
  hypotheses on them are named in the statements: a cron library advances, a parser inverts the printer, an uploaded object
  is what a later download returns, a verifier returns the payload of the token, an index exists when it was created and not
  deleted since (\<open>healthy\<close>). A script's calls are answered by one function of the calls made before.

  \<^bold>\<open>What is shown.\<close>
  \<^item> Claiming: a poll claims exactly the oldest unlocked queued runs, each under a fresh token, atomically; concurrent polls are disjoint;
    a worker stays within its capacity in every interleaving; repeated polls drain the queue.
  \<^item> The tick: every due instance of the batch fires once, a repeated tick does not fire again, a failed one leaves no trace.
  \<^item> Execution: what a claimed run ends as, what a superseded worker can still do, which artifacts are accepted, that the
    extraction stays inside its directory and is removed, what is captured of the output and that each child settles once.
  \<^item> Control: the effect of retry, cancel and re-drive in each state, the sweeper's, and that it spares runs claimed again.
  \<^item> Composition: every interleaving refines the abstract life cycle; finished runs stay; a snapshot is worth a lookup; an
    uploaded definition executes; a job sees its context and its result is reported; a job's token opens the proxy only;
    what \<open>igaClient.execute\<close> returns is the service's answer for a running attempt, and a status 409 it throws is the proxy's own.
  \<^item> Deployment: the preflight accepts the environments the server starts in, and a validated environment does start; in production nothing
    but the validated server listens; a teardown undoes the bootstrap before it; the worker exits after \<open>SIGTERM\<close>, and
    gracefully when no claim was under way; a public request passes only with a token verified against the configured keys.
  \<^item> Where the code falls short of what its comments promise, a lemma says so (for instance
    \<open>local_store_unfenced\<close>, \<open>cancelRun_lost_race\<close>, \<open>failed_reupload_removes_live_artifact\<close>, \<open>late_claim_abandoned\<close>, \<open>second_bootstrap_hides_the_first\<close>,
    \<open>already_exists_means_stopped\<close>).

  \<^bold>\<open>Bounds.\<close> All loops are structural recursions, over lists of rows, archive entries, events or characters; the retries
  of the IGA clients recurse once. The loop of \<open>create-managed-users-job\<close> takes its bound from a parameter and is a partial function: it
  ends unless the bound is \<open>Infinity\<close>. No fuel is used: \<open>poll_rounds\<close> counts the polls that empty a queue, and
  the steps of a shutdown are well-founded.

  \<^bold>\<open>Not modelled.\<close> The constructor of the storage client and multer's upload: one call of a library each. express's routing, body parsing and
  static files. The listening server, whose closing is a step of the shutdown. Colours, headings and banners of the scripts'
  output. The Python SDK, terraform, the shell scripts, the examples in Python and the tests.
\<close>

section \<open>JSON documents\<close>

text \<open>Selected members of a JSON document, stored and read back.\<close>

lemma json_selection:
  assumes "jsonb d = d"
  shows "jsonb (JObj (map (\<lambda>k. (k, js_prop d k)) ks)) = JObj (filter (\<lambda>kv. snd kv \<noteq> JUndefined) (map (\<lambda>k. (k, js_prop d k)) ks))"
  using json_prop [OF assms] by (simp add: comp_def)

lemma js_prop_selection:
  "js_prop (JObj (filter (\<lambda>kv. snd kv \<noteq> JUndefined) (map (\<lambda>k. (k, f k)) ks))) k = (if k \<in> set ks then f k else JUndefined)"
  by (induction ks) (auto split: option.splits if_splits)

section \<open>The snapshot of a definition\<close>

lemma stored_snapshot:
  assumes "buildExecutionMetadataSnapshot get i = Inr meta" "get i = Inr d" "truthy d" "jsonb d = d"
  defines "m \<equiv> json_column meta"
  shows "truthy m"
    "js_prop m ''definition'' = jsonb (JObj (map (\<lambda>k. (k, js_prop d k)) definition_fields))"
    "js_prop m ''definitionEnabled'' = JBool (js_prop d ''enabled'' = JBool True)"
    "js_prop m ''definitionState'' = coalesce (js_prop d ''state'') JNull"
    "js_prop m ''artifact'' = (let z = js_prop d ''jobZip''; g = js_prop z ''generation'' in
       if truthy z then jsonb (JObj [(''uri'', js_prop z ''uri''), (''sha256'', js_prop z ''sha256''),
                                     (''generation'', if nullish g then JNull else JStr (js_String g))])
       else JNull)"
proof -
  define D where "D = map (\<lambda>k. (k, js_prop d k)) definition_fields"
  define A where "A = (let z = js_prop d ''jobZip''; g = js_prop z ''generation'' in
       if truthy z then JObj [(''uri'', js_prop z ''uri''), (''sha256'', js_prop z ''sha256''),
                              (''generation'', if nullish g then JNull else JStr (js_String g))]
       else JNull)"
  define kvs where "kvs = [(''definition'', JObj D), (''definitionEnabled'', JBool (js_prop d ''enabled'' = JBool True)),
    (''definitionState'', coalesce (js_prop d ''state'') JNull), (''artifact'', A)]"
  have "meta = JObj kvs"
    using assms(1-3) by (simp add: buildExecutionMetadataSnapshot_def kvs_def D_def A_def definition_fields_def)
  then have m: "m = jsonb (JObj kvs)" by (simp add: m_def json_column_def)
  have p: "js_prop m k = jsonb (js_prop (JObj kvs) k)" for k unfolding m by (rule js_prop_jsonb) (simp add: kvs_def)
  show "truthy m" by (simp add: m)
  show "js_prop m ''definition'' = jsonb (JObj (map (\<lambda>k. (k, js_prop d k)) definition_fields))"
    unfolding p D_def [symmetric] by (simp add: kvs_def)
  show "js_prop m ''definitionEnabled'' = JBool (js_prop d ''enabled'' = JBool True)" unfolding p by (simp add: kvs_def)
  show "js_prop m ''definitionState'' = coalesce (js_prop d ''state'') JNull"
    unfolding p using json_prop [OF assms(4)] by (simp add: kvs_def coalesce_def)
  have "js_prop m ''artifact'' = jsonb A" unfolding p by (simp add: kvs_def)
  then show "js_prop m ''artifact'' = (let z = js_prop d ''jobZip''; g = js_prop z ''generation'' in
       if truthy z then jsonb (JObj [(''uri'', js_prop z ''uri''), (''sha256'', js_prop z ''sha256''),
                                     (''generation'', if nullish g then JNull else JStr (js_String g))])
       else JNull)" by (simp only: A_def Let_def if_distrib [of jsonb] jsonb.simps)
qed

lemma snapshot_definition_prop:
  assumes "jsonb d = d" "k \<in> set definition_fields"
  shows "js_prop (jsonb (JObj (map (\<lambda>k. (k, js_prop d k)) definition_fields))) k = js_prop d k"
  unfolding json_selection [OF assms(1)] js_prop_selection using assms(2) by simp

lemma stored_artifact:
  assumes "jsonb z = z" "nullish g \<or> is_string g" "g = js_prop z ''generation''"
  defines "a \<equiv> (if truthy z then jsonb (JObj [(''uri'', js_prop z ''uri''), (''sha256'', js_prop z ''sha256''),
      (''generation'', if nullish g then JNull else JStr (js_String g))]) else JNull)"
  shows "missingArtifact a = missingArtifact z"
    and "\<not> missingArtifact z \<Longrightarrow> js_set a ''generation'' (JStr (js_String (js_prop a ''generation''))) =
      JObj [(''uri'', js_prop z ''uri''), (''sha256'', js_prop z ''sha256''), (''generation'', JStr (js_String g))]"
proof -
  have p: "jsonb (js_prop z k) = js_prop z k" for k by (rule json_prop [OF assms(1)])
  have nullish_falsy: "\<not> truthy v" if "nullish v" for v using that by (cases v) auto
  have falsy: "missingArtifact z" if "\<not> truthy z" using that by (cases z) (auto simp: missingArtifact_def)
  have g: "truthy (JStr (js_String g)) = truthy g" if "\<not> nullish g"
    using assms(2) that by (cases g) (auto simp: is_string_def)
  show "missingArtifact a = missingArtifact z"
    using falsy g assms(3) nullish_falsy by (auto simp: a_def missingArtifact_def p)
  show "js_set a ''generation'' (JStr (js_String (js_prop a ''generation''))) =
      JObj [(''uri'', js_prop z ''uri''), (''sha256'', js_prop z ''sha256''), (''generation'', JStr (js_String g))]"
    if "\<not> missingArtifact z"
    using that falsy assms(3) nullish_falsy by (auto simp: a_def missingArtifact_def p)
qed

section \<open>Properties\<close>

text \<open>
  C13. A run that carries the snapshot its tick took executes what a run without one would, were it to
  start at the same moment: \<open>buildExecutionMetadata\<close> on the stored snapshot and on the live definition give the
  same error, or the same artifact and the same definition, up to members that are undefined and are not
  stored. The generation of an uploaded object is a string.
\<close>

theorem snapshot_equals_lookup:
  assumes "getDefinition env (rn_definitionId run) = Inr d" and "jsonb d = d"
    and "nullish (js_prop (js_prop d ''jobZip'') ''generation'') \<or> is_string (js_prop (js_prop d ''jobZip'') ''generation'')"
    and "buildExecutionMetadataSnapshot (getDefinition env) (rn_definitionId run) = Inr meta"
  shows "buildExecutionMetadata env (rowToDocument (documentToRow (run\<lparr>rn_executionMetadata := meta\<rparr>))) =
    map_sum id (\<lambda>x. x\<lparr>xe_definition := jsonb (xe_definition x)\<rparr>)
      (buildExecutionMetadata env (run\<lparr>rn_executionMetadata := JNull\<rparr>))"
proof (cases "truthy d")
  case False
  then have "meta = JObj [(''definition'', JNull), (''definitionEnabled'', JBool False), (''definitionState'', JNull), (''artifact'', JNull)]"
    using assms(1,4) by (simp add: buildExecutionMetadataSnapshot_def)
  then show ?thesis using False assms(1)
    by (simp add: buildExecutionMetadata_def rowToDocument_def documentToRow_def json_column_def metadata_checks_def Let_def)
next
  case True
  note st = stored_snapshot [OF assms(4,1) True assms(2)]
  define def where "def = jsonb (JObj (map (\<lambda>k. (k, js_prop d k)) definition_fields))"
  define z where "z = js_prop d ''jobZip''"
  define g where "g = js_prop z ''generation''"
  define a where "a = (if truthy z then jsonb (JObj [(''uri'', js_prop z ''uri''), (''sha256'', js_prop z ''sha256''),
      (''generation'', if nullish g then JNull else JStr (js_String g))]) else JNull)"
  have art: "missingArtifact a = missingArtifact z"
    "\<not> missingArtifact z \<Longrightarrow> js_set a ''generation'' (JStr (js_String (js_prop a ''generation''))) =
      JObj [(''uri'', js_prop z ''uri''), (''sha256'', js_prop z ''sha256''), (''generation'', JStr (js_String g))]"
    using stored_artifact [of z g] json_prop [OF assms(2)] assms(3) unfolding a_def z_def g_def by blast+
  have v: "js_prop def ''version'' = js_prop d ''version''"
    unfolding def_def by (rule snapshot_definition_prop [OF assms(2)]) (simp add: definition_fields_def)
  have def: "truthy def" by (simp add: def_def)
  have state: "coalesce (js_prop d ''state'') JNull \<noteq> JStr x \<longleftrightarrow> js_prop d ''state'' \<noteq> JStr x" for x
    by (cases "js_prop d ''state''") (auto simp: coalesce_def)
  have snap: "js_prop (json_column meta) ''definition'' = def" "js_prop (json_column meta) ''artifact'' = a"
    using st(2,5) by (simp_all add: def_def a_def z_def g_def Let_def)
  show ?thesis using True assms(1) st(1) def art
    by (simp add: buildExecutionMetadata_def rowToDocument_def documentToRow_def metadata_checks_def Let_def snap st(3,4) state v
        z_def [symmetric] g_def [symmetric] def_def [symmetric] del: jsonb.simps)
qed

theorem snapshot_equals_lookup_witness:
  "\<exists>meta. buildExecutionMetadata sample_env (rowToDocument (documentToRow
       ((rowToDocument (blank_run ''a'' 2 RUNNING (Some ''new'')))\<lparr>rn_executionMetadata := meta\<rparr>))) =
     Inr (sample_execution\<lparr>xe_definition := jsonb (xe_definition sample_execution)\<rparr>)"
proof -
  let ?run = "rowToDocument (blank_run ''a'' 2 RUNNING (Some ''new''))"
  have d: "getDefinition sample_env (rn_definitionId ?run) = Inr sample_definition" "jsonb sample_definition = sample_definition"
    "is_string (js_prop (js_prop sample_definition ''jobZip'') ''generation'')"
    by (simp_all add: getDefinition_def sample_env_def sample_definition_def is_string_def)
  obtain meta where m: "buildExecutionMetadataSnapshot (getDefinition sample_env) (rn_definitionId ?run) = Inr meta"
    using d(1) by (simp add: buildExecutionMetadataSnapshot_def)
  have run: "?run\<lparr>rn_executionMetadata := JNull\<rparr> = ?run\<lparr>rn_dispatchId := Some ''new''\<rparr>"
    by (simp add: rowToDocument_def blank_run_def)
  from snapshot_equals_lookup [OF d(1,2) disjI2, OF d(3) m] show ?thesis unfolding run sample_metadata by auto
qed

text \<open>
  C1. The system refines the life cycle of a run: whatever sequence of ticks, polls, heartbeats,
  executions, completion reports, operator requests, instance requests and sweeps the processes perform,
  with their statements interleaved with those of others, every run moves along the machine
  \<open>lifecycle_step\<close> only.
\<close>

theorem system_refines_lifecycle:
  assumes "system_step\<^sup>*\<^sup>* s s'"
  shows "lifecycle_step\<^sup>*\<^sup>* (find_run i (pg_db s)) (find_run i (pg_db s'))"
  using system_evolves [OF assms] by (simp add: evolves_def)

theorem system_refines_lifecycle_witness:
  "lifecycle_step\<^sup>*\<^sup>* (find_run ''a'' (pg_db failed_pg))
     (find_run ''a'' (pg_db (snd (retryRun RunStore (\<lambda>_ s. s) 5 6 ''new'' ''a'' failed_pg))))"
proof -
  have "system_step failed_pg (snd (retryRun RunStore (\<lambda>_ s. s) 5 6 ''new'' ''a'' failed_pg))"
    by (rule system_step.sys_retry [OF rely_alone]) (rule surjective_pairing)
  then show ?thesis using system_refines_lifecycle by blast
qed

text \<open>
  C6. No operation of the system removes a run or rewrites what it is a run of, and a run that has
  \<open>SUCCEEDED\<close> or was \<open>CANCELLED\<close> is never written again.
\<close>

theorem finished_runs_stay:
  assumes "system_step\<^sup>*\<^sup>* s s'" and "find_run i (pg_db s) = Some r"
  shows "\<exists>r'. find_run i (pg_db s') = Some r' \<and> same_identity r r' \<and> (jr_state r \<in> {SUCCEEDED, CANCELLED} \<longrightarrow> r' = r)"
  using system_evolves [OF assms(1)] lifecycle_keeps [of r "find_run i (pg_db s')"] assms(2)
  by (simp add: evolves_def) metis

theorem finished_runs_stay_witness:
  "\<exists>r'. find_run ''a'' (pg_db (snd (retryRun RunStore (\<lambda>_ s. s) 5 6 ''new'' ''a'' failed_pg))) = Some r' \<and>
     same_identity (blank_run ''a'' 1 FAILED (Some ''old'')) r'"
proof -
  have "system_step failed_pg (snd (retryRun RunStore (\<lambda>_ s. s) 5 6 ''new'' ''a'' failed_pg))"
    by (rule system_step.sys_retry [OF rely_alone]) (rule surjective_pairing)
  from finished_runs_stay [OF r_into_rtranclp, OF this failed_pg_ok(3)] show ?thesis by blast
qed

end
